theory Spec2Isabelle
  imports Complex_Main "HOL-Library.Word" "HOL-Library.Signed_Division"
begin

unbundle bit_operations_syntax

section \<open>Format descriptors\<close>

text \<open>
  \<^verbatim>\<open>SDL_AudioSpec\<close> as far as \<^verbatim>\<open>alt_audio_convert.c\<close> reads it: the sample rate
  (a C \<^verbatim>\<open>int\<close>), the format word (\<^verbatim>\<open>Uint16\<close>) and the channel count (\<^verbatim>\<open>Uint8\<close>, never
  negative, so a natural number).
\<close>

record SDL_AudioSpec =
  freq :: int
  format :: "16 word"
  channels :: nat

text \<open>
  The format constants come from SDL's \<^verbatim>\<open>SDL_audio.h\<close>. The native byte order of the
  machine (\<^verbatim>\<open>SDL_BYTEORDER\<close>) is the parameter \<open>be\<close> of the model: \<open>True\<close> on a
  big-endian machine, where \<^verbatim>\<open>AUDIO_U16SYS\<close> is \<^verbatim>\<open>AUDIO_U16MSB\<close>.
\<close>

definition AUDIO_U8 :: "16 word" where "AUDIO_U8 = 0x0008"
definition AUDIO_S8 :: "16 word" where "AUDIO_S8 = 0x8008"
definition AUDIO_U16LSB :: "16 word" where "AUDIO_U16LSB = 0x0010"
definition AUDIO_S16LSB :: "16 word" where "AUDIO_S16LSB = 0x8010"
definition AUDIO_U16MSB :: "16 word" where "AUDIO_U16MSB = 0x1010"
definition AUDIO_S16MSB :: "16 word" where "AUDIO_S16MSB = 0x9010"

definition AUDIO_U16SYS :: "bool \<Rightarrow> 16 word" where
  "AUDIO_U16SYS be = (if be then AUDIO_U16MSB else AUDIO_U16LSB)"

definition AUDIO_S16SYS :: "bool \<Rightarrow> 16 word" where
  "AUDIO_S16SYS be = (if be then AUDIO_S16MSB else AUDIO_S16LSB)"

text \<open>The macros that parse a format word; each is a C truth value (non-zero is true).\<close>

definition IS_8BIT :: "SDL_AudioSpec \<Rightarrow> bool" where
  "IS_8BIT x = (format x AND 0x0008 \<noteq> 0)"

definition IS_16BIT :: "SDL_AudioSpec \<Rightarrow> bool" where
  "IS_16BIT x = (format x AND 0x0010 \<noteq> 0)"

definition IS_FLOAT :: "SDL_AudioSpec \<Rightarrow> bool" where
  "IS_FLOAT x = (format x AND 0x0020 \<noteq> 0)"

definition IS_SIGNED :: "SDL_AudioSpec \<Rightarrow> bool" where
  "IS_SIGNED x = (format x AND 0x8000 \<noteq> 0)"

definition IS_SYSENDIAN :: "bool \<Rightarrow> SDL_AudioSpec \<Rightarrow> bool" where
  "IS_SYSENDIAN be x = ((AUDIO_U16SYS be XOR format x) AND 0x1000 \<noteq> 0)"

section \<open>The conversion plan\<close>

text \<open>
  The adapter array of \<^verbatim>\<open>Sound_AudioCVT\<close> holds pointers to the adapter functions. Two
  pointers are equal exactly when they name the same function, so a pointer is modelled
  by the name of its function; \<open>None\<close> is the \<^verbatim>\<open>NULL\<close> pointer.
\<close>

datatype adapter_ref =
    A_expand8BitTo16BitSys | A_expand8BitTo16BitWrong | A_expand16BitToFloat
  | A_swapBytes | A_cutFloatTo16Bit | A_cut16BitSysTo8Bit | A_cut16BitWrongTo8Bit
  | A_changeSigned16BitSys | A_changeSigned16BitWrong | A_changeSigned8Bit
  | A_convertStereoToMonoS16Bit | A_convertStereoToMonoU16Bit
  | A_convertStereoToMonoS8Bit | A_convertStereoToMonoU8Bit
  | A_convertMonoToStereo16Bit | A_convertMonoToStereo8Bit
  | A_minus5dB
  | A_doubleRateStereo | A_doubleRateMono | A_halfRateStereo | A_halfRateMono
  | A_varRateUpStereo | A_varRateUpMono | A_varRateDownStereo | A_varRateDownMono

text \<open>
  \<^verbatim>\<open>Sound_AudioCVT\<close>: the multiplier \<^verbatim>\<open>len_mult\<close> is a C \<^verbatim>\<open>double\<close> that the builder only
  doubles and halves, starting from 1, which binary floating point does exactly; it is
  a rational here. \<^verbatim>\<open>adapter\<close> is the array \<^verbatim>\<open>adapter[32]\<close>, indexed by a C \<^verbatim>\<open>int\<close>. The
  coefficient table \<^verbatim>\<open>filter\<close> (filled by \<^verbatim>\<open>setupVarFilter\<close> with floating-point
  arithmetic) is not part of the adapter sequence and is left out.
\<close>

record Sound_AudioCVT =
  len_mult :: rat
  add :: int
  adapter :: "int \<Rightarrow> adapter_ref option"

text \<open>\<^verbatim>\<open>Data->adapter[filter_index++] = a\<close> on the pair of the plan and \<^verbatim>\<open>filter_index\<close>.\<close>

definition append_adapter ::
  "adapter_ref \<Rightarrow> Sound_AudioCVT \<times> int \<Rightarrow> Sound_AudioCVT \<times> int" where
  "append_adapter a s =
     (case s of (Data, filter_index) \<Rightarrow>
        (Data\<lparr>adapter := (adapter Data)(filter_index \<mapsto> a)\<rparr>, filter_index + 1))"

text \<open>\<^verbatim>\<open>Data->add /= 2; Data->len_mult /= 2;\<close> (C's integer division truncates).\<close>

definition halve_size :: "Sound_AudioCVT \<times> int \<Rightarrow> Sound_AudioCVT \<times> int" where
  "halve_size s =
     (case s of (Data, filter_index) \<Rightarrow>
        (Data\<lparr>add := add Data sdiv 2, len_mult := len_mult Data / 2\<rparr>, filter_index))"

text \<open>\<^verbatim>\<open>Data->add *= 2; Data->len_mult *= 2;\<close>\<close>

definition double_size :: "Sound_AudioCVT \<times> int \<Rightarrow> Sound_AudioCVT \<times> int" where
  "double_size s =
     (case s of (Data, filter_index) \<Rightarrow>
        (Data\<lparr>add := add Data * 2, len_mult := len_mult Data * 2\<rparr>, filter_index))"

section \<open>The format-converter builders\<close>

definition createFormatConverter16Bit ::
  "bool \<Rightarrow> Sound_AudioCVT \<times> int \<Rightarrow> SDL_AudioSpec \<Rightarrow> SDL_AudioSpec \<Rightarrow> Sound_AudioCVT \<times> int" where
  "createFormatConverter16Bit be s0 src dst =
    (let s1 =
       (if channels src = 2 \<and> channels dst = 1 then
          (let t0 = halve_size s0;
               t1 = (if \<not> IS_SYSENDIAN be src then append_adapter A_swapBytes t0 else t0);
               t2 = (if IS_SIGNED src then append_adapter A_convertStereoToMonoS16Bit t1
                     else append_adapter A_convertStereoToMonoU16Bit t1)
           in (if \<not> IS_SYSENDIAN be dst then append_adapter A_swapBytes t2 else t2))
        else if IS_SYSENDIAN be src \<noteq> IS_SYSENDIAN be dst then append_adapter A_swapBytes s0
        else s0);
         s2 =
       (if IS_SIGNED src \<noteq> IS_SIGNED dst then
          (if IS_SYSENDIAN be dst then append_adapter A_changeSigned16BitSys s1
           else append_adapter A_changeSigned16BitSys s1)
        else s1)
     in (if channels src = 1 \<and> channels dst = 2
         then append_adapter A_convertMonoToStereo16Bit (double_size s2)
         else s2))"

definition createFormatConverter8Bit ::
  "bool \<Rightarrow> Sound_AudioCVT \<times> int \<Rightarrow> SDL_AudioSpec \<Rightarrow> SDL_AudioSpec \<Rightarrow> Sound_AudioCVT \<times> int" where
  "createFormatConverter8Bit be s0 src dst =
    (let s1 =
       (if IS_16BIT src then
          (if IS_SYSENDIAN be src then append_adapter A_cut16BitSysTo8Bit (halve_size s0)
           else append_adapter A_cut16BitWrongTo8Bit (halve_size s0))
        else s0);
         s2 =
       (if channels src = 2 \<and> channels dst = 1 then
          (if IS_SIGNED src then append_adapter A_convertStereoToMonoS8Bit (halve_size s1)
           else append_adapter A_convertStereoToMonoU8Bit (halve_size s1))
        else s1);
         s3 =
       (if IS_SIGNED src \<noteq> IS_SIGNED dst then append_adapter A_changeSigned8Bit s2 else s2);
         s4 =
       (if channels src = 1 \<and> channels dst = 2
        then append_adapter A_convertMonoToStereo8Bit (double_size s3)
        else s3)
     in (if \<not> IS_8BIT dst then
           (if IS_SYSENDIAN be dst then append_adapter A_expand8BitTo16BitSys (double_size s4)
            else append_adapter A_expand8BitTo16BitWrong (double_size s4))
         else s4))"

definition createFormatConverter ::
  "bool \<Rightarrow> Sound_AudioCVT \<times> int \<Rightarrow> SDL_AudioSpec \<Rightarrow> SDL_AudioSpec \<Rightarrow> Sound_AudioCVT \<times> int" where
  "createFormatConverter be s0 src dst =
    (let s1 = (if IS_FLOAT src then halve_size (append_adapter A_cutFloatTo16Bit s0) else s0);
         s2 = (if IS_8BIT src \<or> IS_8BIT dst then createFormatConverter8Bit be s1 src dst
               else createFormatConverter16Bit be s1 src dst)
     in (if IS_FLOAT dst then double_size (append_adapter A_expand16BitToFloat s2) else s2))"

section \<open>The rate-converter builder\<close>

text \<open>
  \<^verbatim>\<open>Ratio\<close> is a C \<^verbatim>\<open>float\<close>. The model computes with rationals: every \<^verbatim>\<open>float\<close> is a rational,
  halving and doubling are exact in binary floating point, \<^verbatim>\<open>31./64.\<close> is exact, and no
  \<^verbatim>\<open>float\<close> lies between \<open>64/31\<close> and the \<^verbatim>\<open>double\<close> constant \<^verbatim>\<open>64./31.\<close>, so the comparisons of
  the two loops are the exact ones. The rounding of the quotient \<^verbatim>\<open>DestRate / SrcRate\<close> is
  not modelled: \<^verbatim>\<open>createRateConverter\<close> below starts from the exact quotient, and the
  theorem on the two loops is stated for every starting ratio within the rounding error
  of a \<^verbatim>\<open>float\<close>. \<^verbatim>\<open>_fsize\<close> is 64.
\<close>

definition fsize :: int where "fsize = 64"

text \<open>\<^verbatim>\<open>while( Ratio > 64./31.) { ... doubleRate ...; Ratio /= 2.; ... }\<close>\<close>

function doubleRate_loop ::
  "int \<Rightarrow> Sound_AudioCVT \<times> int \<times> rat \<Rightarrow> Sound_AudioCVT \<times> int \<times> rat" where
  "doubleRate_loop Mono (Data, filter_index, Ratio) =
     (if Ratio > 64 / 31 then
        doubleRate_loop Mono
          (Data\<lparr>adapter := (adapter Data)(filter_index \<mapsto>
                    (if Mono \<noteq> 0 then A_doubleRateMono else A_doubleRateStereo)),
                 len_mult := len_mult Data * 2,
                 add := add Data * 2 + fsize\<rparr>,
           filter_index + 1, Ratio / 2)
      else (Data, filter_index, Ratio))"
  by pat_completeness auto
termination
proof (relation "measure (\<lambda>(Mono, Data, filter_index, Ratio). nat \<lceil>Ratio\<rceil>)")
  show "wf (measure (\<lambda>(Mono, Data, filter_index, Ratio). nat \<lceil>Ratio\<rceil>))"
    by simp
next
  fix Mono :: int and Data :: Sound_AudioCVT and filter_index :: int and Ratio :: rat
  assume big: "64 / 31 < Ratio"
  have "Ratio / 2 \<le> Ratio - 1" using big by simp
  then have "\<lceil>Ratio / 2\<rceil> \<le> \<lceil>Ratio - 1\<rceil>" by (rule ceiling_mono)
  moreover have "0 < \<lceil>Ratio\<rceil>" using big by (simp add: ceiling_less_iff)
  ultimately have "nat \<lceil>Ratio / 2\<rceil> < nat \<lceil>Ratio\<rceil>" by simp
  then show "((Mono,
       Data\<lparr>adapter := (adapter Data)(filter_index \<mapsto>
               (if Mono \<noteq> 0 then A_doubleRateMono else A_doubleRateStereo)),
             len_mult := len_mult Data * 2, add := add Data * 2 + fsize\<rparr>,
       filter_index + 1, Ratio / 2),
      (Mono, Data, filter_index, Ratio))
    \<in> measure (\<lambda>(Mono, Data, filter_index, Ratio). nat \<lceil>Ratio\<rceil>)"
    by simp
qed

declare doubleRate_loop.simps [simp del]

text \<open>
  \<^verbatim>\<open>while( Ratio < 31./64. ) { ... halfRate ...; Ratio *= 2; }\<close>
  This loop does not end when \<^verbatim>\<open>Ratio\<close> is zero or negative, so it is a partial function:
  \<open>None\<close> stands for not returning.
\<close>

partial_function (option) halfRate_loop ::
  "int \<Rightarrow> Sound_AudioCVT \<times> int \<times> rat \<Rightarrow> (Sound_AudioCVT \<times> int \<times> rat) option" where
  "halfRate_loop Mono s =
     (case s of (Data, filter_index, Ratio) \<Rightarrow>
        if Ratio < 31 / 64 then
          halfRate_loop Mono
            (Data\<lparr>adapter := (adapter Data)(filter_index \<mapsto>
                      (if Mono \<noteq> 0 then A_halfRateMono else A_halfRateStereo))\<rparr>,
             filter_index + 1, Ratio * 2)
        else Some (Data, filter_index, Ratio))"

declare halfRate_loop.simps [code]

text \<open>
  \<^verbatim>\<open>createRateConverter\<close>. The result \<open>None\<close> is a run that does not return; the
  returned pair is the plan and the value stored through \<^verbatim>\<open>fip\<close> (\<open>-1\<close> when the rates
  are refused). The calls of \<^verbatim>\<open>setupVarFilter\<close> only fill the coefficient table.
\<close>

definition createRateConverter ::
  "Sound_AudioCVT \<times> int \<Rightarrow> int \<Rightarrow> int \<Rightarrow> int \<Rightarrow> (Sound_AudioCVT \<times> int) option" where
  "createRateConverter s0 SrcRate DestRate Channel =
    (case s0 of (Data, filter_index) \<Rightarrow>
      (let Mono = 2 - Channel in
       if SrcRate < 1 \<or> SrcRate > 2 ^ 18 \<or> DestRate < 1 \<or> DestRate > 2 ^ 18
       then Some (Data, - 1)
       else
         (let Ratio = (of_int DestRate :: rat) / of_int SrcRate;
              VarPos = (if Ratio > 1 then filter_index else 0);
              s1 = (if Ratio > 1 then (Data, filter_index + 1)
                    else append_adapter A_minus5dB (Data, filter_index))
          in (case doubleRate_loop Mono (fst s1, snd s1, Ratio) of
                (Data2, filter_index2, Ratio2) \<Rightarrow>
                  (case halfRate_loop Mono (Data2, filter_index2, Ratio2) of
                     None \<Rightarrow> None
                   | Some (Data3, filter_index3, Ratio3) \<Rightarrow>
                       (if Ratio3 > 1 then
                          Some (Data3\<lparr>adapter := (adapter Data3)(VarPos \<mapsto>
                                         (if Mono \<noteq> 0 then A_varRateUpMono
                                          else A_varRateUpStereo)),
                                       len_mult := len_mult Data3 * 2,
                                       add := add Data3 * 2 + fsize\<rparr>,
                                filter_index3)
                        else
                          Some (append_adapter
                                  (if Mono \<noteq> 0 then A_varRateDownMono
                                   else A_varRateDownStereo)
                                  (Data3, filter_index3))))))))"

section \<open>BuildAudioCVT\<close>

text \<open>
  The plan pointer \<^verbatim>\<open>Data\<close> may be \<^verbatim>\<open>NULL\<close> (\<open>None\<close>). The result is the returned \<^verbatim>\<open>int\<close>
  and the plan as the call leaves it; \<open>None\<close> is a call that does not return. The
  intermediate descriptor \<^verbatim>\<open>intrm\<close> has no rate in the source (the field is never
  assigned and never read); the model puts 0 there.
\<close>

definition BuildAudioCVT ::
  "bool \<Rightarrow> Sound_AudioCVT option \<Rightarrow> SDL_AudioSpec \<Rightarrow> SDL_AudioSpec
     \<Rightarrow> (int \<times> Sound_AudioCVT option) option" where
  "BuildAudioCVT be Data_ptr src dst =
    (case Data_ptr of
       None \<Rightarrow> Some (- 1, None)
     | Some Data00 \<Rightarrow>
       (let Data0 = Data00\<lparr>len_mult := 1, add := 0\<rparr>;
            error_exit = (\<lambda>D. Some (- 1, Some (D\<lparr>adapter := (adapter D)(0 := None)\<rparr>)));
            sucess_exit = (\<lambda>s. case s of (D, filter_index) \<Rightarrow>
                             Some (0, Some (D\<lparr>adapter := (adapter D)(filter_index := None)\<rparr>)))
        in
        if channels src < 1 \<or> channels src > 2 \<or> channels dst < 1 \<or> channels dst > 2
        then error_exit Data0
        else if freq src = freq dst
        then sucess_exit (createFormatConverter be (Data0, 0) src dst)
        else
          (let intrm = \<lparr>freq = 0, format = AUDIO_S16SYS be,
                        channels = min (channels src) (channels dst)\<rparr>;
               s1 = createFormatConverter be (Data0, 0) src intrm
           in (case (if channels src = 2 \<and> channels dst = 2
                     then createRateConverter s1 (freq src) (freq dst) 2
                     else createRateConverter s1 (freq src) (freq dst) 1) of
                 None \<Rightarrow> None
               | Some s2 \<Rightarrow>
                   if snd s2 < 0 then error_exit (fst s2)
                   else sucess_exit (createFormatConverter be s2 intrm dst)))))"

section \<open>The rational resampler\<close>

text \<open>
  \<^verbatim>\<open>Fraction\<close> has two \<^verbatim>\<open>Sint16\<close> fields. The table \<^verbatim>\<open>frac\<close> is an array of \<^verbatim>\<open>Uint8\<close>: its 15
  entries written \<^verbatim>\<open>-1\<close> in the source are stored as 255.
\<close>

record Fraction =
  denominator :: int
  numerator :: int

definition frac :: "int list" where
  "frac =
    [1, 2, 255,
     1, 3, 255,
     2, 4, 5, 255,
     3, 5, 7, 255,
     3, 4, 6, 7, 8, 9, 255,
     5, 7, 11, 255,
     4, 5, 6, 8, 9, 10, 11, 12, 13, 255,
     5, 7, 9, 11, 13, 15, 255,
     5, 7, 8, 10, 11, 13, 14, 16, 255,
     7, 9, 11, 13, 255,
     6, 7, 8, 9, 10, 12, 13, 14, 15, 16, 255,
     7, 11, 13, 255,
     7, 8, 9, 10, 11, 12, 14, 15, 16, 255,
     9, 11, 13, 15, 255,
     8, 11, 13, 14, 16, 255,
     9, 11, 13, 15]"

text \<open>
  The loop \<^verbatim>\<open>for( n = 0; n < sizeof(frac); num=frac[++n] )\<close> of \<^verbatim>\<open>findFraction\<close>, on the
  state \<^verbatim>\<open>(num, den, BestErr, Result)\<close>. The arithmetic is C \<^verbatim>\<open>float\<close> arithmetic in the
  source and exact rational arithmetic here. Where \<^verbatim>\<open>RelErr\<close> is 0 the source divides by
  zero and takes the minimum of 0 and infinity, which is 0, as here. The last step of
  the source reads \<^verbatim>\<open>frac[96]\<close>, past the table, into \<^verbatim>\<open>num\<close>, which is not used again.
\<close>

function findFraction_loop ::
  "rat \<Rightarrow> nat \<Rightarrow> int \<times> int \<times> rat \<times> Fraction \<Rightarrow> Fraction" where
  "findFraction_loop Value n (num, den, BestErr, Result) =
     (if n < 96 then
        (let den1 = (if num < 0 then den + 1 else den);
             RelErr0 = Value * of_int num / of_int den1;
             RelErr = min RelErr0 (1 / RelErr0);
             num1 = (if Suc n < 96 then frac ! Suc n else num)
         in if RelErr > BestErr
            then findFraction_loop Value (Suc n)
                   (num1, den1, RelErr, \<lparr>denominator = den1, numerator = num\<rparr>)
            else findFraction_loop Value (Suc n) (num1, den1, BestErr, Result))
      else Result)"
  by pat_completeness auto
termination
  by (relation "measure (\<lambda>(Value, n, st). 96 - n)") auto

declare findFraction_loop.simps [simp del]

text \<open>
  \<^verbatim>\<open>findFraction\<close>. The local \<^verbatim>\<open>num\<close> has no initial value in the source and is read in
  the first pass of the loop; what it holds there is the parameter \<open>num0\<close>.
\<close>

definition findFraction :: "int \<Rightarrow> rat \<Rightarrow> Fraction" where
  "findFraction num0 Value =
     (if Value < 31 / 64 \<or> Value > 64 / 31 then \<lparr>denominator = 0, numerator = 0\<rparr>
      else findFraction_loop Value 0 (num0, 1, 0, \<lparr>denominator = 0, numerator = 0\<rparr>))"

section \<open>The sample buffer\<close>

text \<open>
  The buffer is an array of bytes; its capacity is the length of the list. Every access
  is checked: \<open>None\<close> is an access outside the buffer. The adapters cast the byte pointer
  to \<^verbatim>\<open>Uint16*\<close>, \<^verbatim>\<open>Sint16*\<close>, \<^verbatim>\<open>Uint32*\<close> and \<^verbatim>\<open>float*\<close>, so a 16-bit or 32-bit element is put
  together from its bytes in the machine's byte order \<open>be\<close>.
\<close>

type_synonym buffer = "8 word list"

definition get8 :: "buffer \<Rightarrow> nat \<Rightarrow> 8 word option" where
  "get8 b i = (if i < length b then Some (b ! i) else None)"

definition put8 :: "buffer \<Rightarrow> nat \<Rightarrow> 8 word \<Rightarrow> buffer option" where
  "put8 b i v = (if i < length b then Some (b[i := v]) else None)"

definition join16 :: "8 word \<Rightarrow> 8 word \<Rightarrow> 16 word" where
  "join16 hi lo = push_bit 8 (ucast hi) OR ucast lo"

definition hi8 :: "16 word \<Rightarrow> 8 word" where
  "hi8 v = ucast (drop_bit 8 v)"

definition lo8 :: "16 word \<Rightarrow> 8 word" where
  "lo8 v = ucast v"

definition get16 :: "bool \<Rightarrow> buffer \<Rightarrow> nat \<Rightarrow> 16 word option" where
  "get16 be b i =
     (if 2 * i + 1 < length b
      then Some (if be then join16 (b ! (2 * i)) (b ! (2 * i + 1))
                 else join16 (b ! (2 * i + 1)) (b ! (2 * i)))
      else None)"

definition put16 :: "bool \<Rightarrow> buffer \<Rightarrow> nat \<Rightarrow> 16 word \<Rightarrow> buffer option" where
  "put16 be b i v =
     (if 2 * i + 1 < length b
      then Some (if be then b[2 * i := hi8 v, 2 * i + 1 := lo8 v]
                 else b[2 * i := lo8 v, 2 * i + 1 := hi8 v])
      else None)"

definition join32 :: "8 word \<Rightarrow> 8 word \<Rightarrow> 8 word \<Rightarrow> 8 word \<Rightarrow> 32 word" where
  "join32 b3 b2 b1 b0 =
     push_bit 24 (ucast b3) OR push_bit 16 (ucast b2) OR push_bit 8 (ucast b1) OR ucast b0"

text \<open>Byte \<open>k\<close> of a 32-bit word, counted from the least significant byte.\<close>

definition byte32 :: "nat \<Rightarrow> 32 word \<Rightarrow> 8 word" where
  "byte32 k v = ucast (drop_bit (8 * k) v)"

definition get32 :: "bool \<Rightarrow> buffer \<Rightarrow> nat \<Rightarrow> 32 word option" where
  "get32 be b i =
     (if 4 * i + 3 < length b
      then Some (if be
                 then join32 (b ! (4 * i)) (b ! (4 * i + 1)) (b ! (4 * i + 2)) (b ! (4 * i + 3))
                 else join32 (b ! (4 * i + 3)) (b ! (4 * i + 2)) (b ! (4 * i + 1)) (b ! (4 * i)))
      else None)"

definition put32 :: "bool \<Rightarrow> buffer \<Rightarrow> nat \<Rightarrow> 32 word \<Rightarrow> buffer option" where
  "put32 be b i v =
     (if 4 * i + 3 < length b
      then Some (if be
                 then b[4 * i := byte32 3 v, 4 * i + 1 := byte32 2 v,
                        4 * i + 2 := byte32 1 v, 4 * i + 3 := byte32 0 v]
                 else b[4 * i := byte32 0 v, 4 * i + 1 := byte32 1 v,
                        4 * i + 2 := byte32 2 v, 4 * i + 3 := byte32 3 v])
      else None)"

text \<open>
  The two loop shapes of the adapters. \<open>for_down body n\<close> is
  \<^verbatim>\<open>for( i = n; i--; ) body\<close>: the body runs for \<open>i = n - 1\<close> down to 0.
  \<open>for_up body i n\<close> is \<^verbatim>\<open>for( ; i < n; i++ ) body\<close>.
\<close>

fun for_down :: "(nat \<Rightarrow> buffer \<Rightarrow> buffer option) \<Rightarrow> nat \<Rightarrow> buffer \<Rightarrow> buffer option" where
  "for_down body 0 b = Some b"
| "for_down body (Suc i) b =
     (case body i b of None \<Rightarrow> None | Some b' \<Rightarrow> for_down body i b')"

function for_up ::
  "(nat \<Rightarrow> buffer \<Rightarrow> buffer option) \<Rightarrow> nat \<Rightarrow> nat \<Rightarrow> buffer \<Rightarrow> buffer option" where
  "for_up body i n b =
     (if i < n then (case body i b of None \<Rightarrow> None | Some b' \<Rightarrow> for_up body (Suc i) n b')
      else Some b)"
  by pat_completeness auto
termination
  by (relation "measure (\<lambda>(body, i, n, b). n - i)") auto

declare for_up.simps [simp del]

section \<open>The adapters\<close>

text \<open>
  An adapter takes the buffer and the length in bytes and returns the buffer and the new
  length; \<open>None\<close> is an access outside the buffer (or, in the two mono-to-stereo
  adapters, a statement that C leaves undefined). Lengths are natural numbers: the model
  covers the calls with a length that is not negative, and no length large enough for
  \<^verbatim>\<open>2*length\<close> to overflow an \<^verbatim>\<open>int\<close>.
\<close>

definition expand8BitTo16BitSys :: "bool \<Rightarrow> buffer \<Rightarrow> nat \<Rightarrow> (buffer \<times> nat) option" where
  "expand8BitTo16BitSys be b len =
     (case for_down (\<lambda>i b. case get8 b i of None \<Rightarrow> None
                            | Some v \<Rightarrow> put16 be b i (push_bit 8 (ucast v))) len b of
        None \<Rightarrow> None
      | Some b' \<Rightarrow> Some (b', 2 * len))"

definition expand8BitTo16BitWrong :: "bool \<Rightarrow> buffer \<Rightarrow> nat \<Rightarrow> (buffer \<times> nat) option" where
  "expand8BitTo16BitWrong be b len =
     (case for_down (\<lambda>i b. case get8 b i of None \<Rightarrow> None
                            | Some v \<Rightarrow> put16 be b i (ucast v)) len b of
        None \<Rightarrow> None
      | Some b' \<Rightarrow> Some (b', 2 * len))"

definition swapBytes :: "bool \<Rightarrow> buffer \<Rightarrow> nat \<Rightarrow> (buffer \<times> nat) option" where
  "swapBytes be b len =
     (case for_down (\<lambda>i b. case get16 be b i of None \<Rightarrow> None
                            | Some a \<Rightarrow> put16 be b i (push_bit 8 a OR drop_bit 8 a))
             (len div 2) b of
        None \<Rightarrow> None
      | Some b' \<Rightarrow> Some (b', len))"

definition cut16BitSysTo8Bit :: "bool \<Rightarrow> buffer \<Rightarrow> nat \<Rightarrow> (buffer \<times> nat) option" where
  "cut16BitSysTo8Bit be b len0 =
     (let len = len0 div 2 in
      case for_up (\<lambda>i b. case get16 be b i of None \<Rightarrow> None
                          | Some v \<Rightarrow> put8 b i (ucast (drop_bit 8 v))) 0 len b of
        None \<Rightarrow> None
      | Some b' \<Rightarrow> Some (b', len))"

definition cut16BitWrongTo8Bit :: "bool \<Rightarrow> buffer \<Rightarrow> nat \<Rightarrow> (buffer \<times> nat) option" where
  "cut16BitWrongTo8Bit be b len0 =
     (let len = len0 div 2 in
      case for_up (\<lambda>i b. case get16 be b i of None \<Rightarrow> None
                          | Some v \<Rightarrow> put8 b i (ucast (v AND 0xff))) 0 len b of
        None \<Rightarrow> None
      | Some b' \<Rightarrow> Some (b', len))"

text \<open>
  \<^verbatim>\<open>((Uint8*)&XOR)[k]\<close>: byte \<open>k\<close> of the 32-bit mask as it lies in memory.
\<close>

definition mask_byte :: "bool \<Rightarrow> 32 word \<Rightarrow> nat \<Rightarrow> 8 word" where
  "mask_byte be w k = (if be then byte32 (3 - k) w else byte32 k w)"

definition changeSigned :: "bool \<Rightarrow> buffer \<Rightarrow> nat \<Rightarrow> 32 word \<Rightarrow> (buffer \<times> nat) option" where
  "changeSigned be b len XOR32 =
     (case for_down (\<lambda>i b. case get32 be b i of None \<Rightarrow> None
                            | Some v \<Rightarrow> put32 be b i (v XOR XOR32)) (len div 4) b of
        None \<Rightarrow> None
      | Some b1 \<Rightarrow>
          (case for_up (\<lambda>i b. case get8 b i of None \<Rightarrow> None
                              | Some v \<Rightarrow> put8 b i (v XOR mask_byte be XOR32 (i mod 4)))
                  (4 * (len div 4)) len b1 of
             None \<Rightarrow> None
           | Some b2 \<Rightarrow> Some (b2, len)))"

definition changeSigned16BitSys :: "bool \<Rightarrow> buffer \<Rightarrow> nat \<Rightarrow> (buffer \<times> nat) option" where
  "changeSigned16BitSys be b len = changeSigned be b len 0x80008000"

definition changeSigned16BitWrong :: "bool \<Rightarrow> buffer \<Rightarrow> nat \<Rightarrow> (buffer \<times> nat) option" where
  "changeSigned16BitWrong be b len = changeSigned be b len 0x00800080"

definition changeSigned8Bit :: "bool \<Rightarrow> buffer \<Rightarrow> nat \<Rightarrow> (buffer \<times> nat) option" where
  "changeSigned8Bit be b len = changeSigned be b len 0x80808080"

text \<open>
  The stereo-to-mono adapters: \<^verbatim>\<open>buffer[i] = ((int) *(src++) + *(src++) ) >> 1\<close>, where
  \<^verbatim>\<open>src\<close> walks over the samples \<open>2 * i\<close> and \<open>2 * i + 1\<close>. The sum is an \<^verbatim>\<open>int\<close>; its shift
  to the right is the arithmetic one (\<open>div 2\<close> rounds down).
\<close>

definition convertStereoToMonoS16Bit :: "bool \<Rightarrow> buffer \<Rightarrow> nat \<Rightarrow> (buffer \<times> nat) option" where
  "convertStereoToMonoS16Bit be b len0 =
     (let len = len0 div 4 in
      case for_up (\<lambda>i b. case get16 be b (2 * i) of None \<Rightarrow> None
                          | Some x \<Rightarrow> (case get16 be b (2 * i + 1) of None \<Rightarrow> None
                          | Some y \<Rightarrow> put16 be b i (word_of_int ((sint x + sint y) div 2))))
             0 len b of
        None \<Rightarrow> None
      | Some b' \<Rightarrow> Some (b', 2 * len))"

definition convertStereoToMonoU16Bit :: "bool \<Rightarrow> buffer \<Rightarrow> nat \<Rightarrow> (buffer \<times> nat) option" where
  "convertStereoToMonoU16Bit be b len0 =
     (let len = len0 div 4 in
      case for_up (\<lambda>i b. case get16 be b (2 * i) of None \<Rightarrow> None
                          | Some x \<Rightarrow> (case get16 be b (2 * i + 1) of None \<Rightarrow> None
                          | Some y \<Rightarrow> put16 be b i (word_of_int ((uint x + uint y) div 2))))
             0 len b of
        None \<Rightarrow> None
      | Some b' \<Rightarrow> Some (b', 2 * len))"

definition convertStereoToMonoS8Bit :: "buffer \<Rightarrow> nat \<Rightarrow> (buffer \<times> nat) option" where
  "convertStereoToMonoS8Bit b len0 =
     (let len = len0 div 2 in
      case for_up (\<lambda>i b. case get8 b (2 * i) of None \<Rightarrow> None
                          | Some x \<Rightarrow> (case get8 b (2 * i + 1) of None \<Rightarrow> None
                          | Some y \<Rightarrow> put8 b i (word_of_int ((sint x + sint y) div 2))))
             0 len b of
        None \<Rightarrow> None
      | Some b' \<Rightarrow> Some (b', len))"

definition convertStereoToMonoU8Bit :: "buffer \<Rightarrow> nat \<Rightarrow> (buffer \<times> nat) option" where
  "convertStereoToMonoU8Bit b len0 =
     (let len = len0 div 2 in
      case for_up (\<lambda>i b. case get8 b (2 * i) of None \<Rightarrow> None
                          | Some x \<Rightarrow> (case get8 b (2 * i + 1) of None \<Rightarrow> None
                          | Some y \<Rightarrow> put8 b i (word_of_int ((uint x + uint y) div 2))))
             0 len b of
        None \<Rightarrow> None
      | Some b' \<Rightarrow> Some (b', len))"

text \<open>
  The mono-to-stereo adapters. The body of their loop is the one statement
  \<^verbatim>\<open>*(--dst) = *(--dst) = buffer[i]\<close>, which modifies \<^verbatim>\<open>dst\<close> twice between two sequence
  points. C gives such a statement no meaning: which elements are stored, how often, and
  where \<^verbatim>\<open>dst\<close> stands afterwards is the compiler's choice, and compilers differ (one
  store per pass, or two). The model gives the statement no result either, so a
  mono-to-stereo adapter has a result only when its loop makes no pass.

  \<^verbatim>\<open>dst\<close> starts at element \<^verbatim>\<open>length\<close> of the 16-bit elements in the 16-bit adapter. In the
  8-bit adapter it starts at \<^verbatim>\<open>Data.buffer + 2*length\<close>, where \<^verbatim>\<open>Data.buffer\<close> is declared
  \<^verbatim>\<open>short*\<close>: that is byte \<open>4 * length\<close>, twice as far as the \<open>2 * length\<close> bytes that the
  adapter returns.
\<close>

definition unsequenced_store :: "buffer \<Rightarrow> nat \<Rightarrow> 'a \<Rightarrow> buffer option" where
  "unsequenced_store b dst v = None"

definition convertMonoToStereo16Bit :: "bool \<Rightarrow> buffer \<Rightarrow> nat \<Rightarrow> (buffer \<times> nat) option" where
  "convertMonoToStereo16Bit be b len =
     (let dst = len in
      case for_down (\<lambda>i b. case get16 be b i of None \<Rightarrow> None
                            | Some v \<Rightarrow> unsequenced_store b dst v)
             (len div 2) b of
        None \<Rightarrow> None
      | Some b' \<Rightarrow> Some (b', 2 * len))"

definition convertMonoToStereo8Bit :: "buffer \<Rightarrow> nat \<Rightarrow> (buffer \<times> nat) option" where
  "convertMonoToStereo8Bit b len =
     (let dst = 4 * len in
      case for_down (\<lambda>i b. case get8 b i of None \<Rightarrow> None
                            | Some v \<Rightarrow> unsequenced_store b dst v)
             len b of
        None \<Rightarrow> None
      | Some b' \<Rightarrow> Some (b', 2 * len))"

text \<open>\<^verbatim>\<open>buffer[i]= 38084 * buffer[i] >> 16\<close> on signed 16-bit samples.\<close>

definition minus5dB :: "bool \<Rightarrow> buffer \<Rightarrow> nat \<Rightarrow> (buffer \<times> nat) option" where
  "minus5dB be b len =
     (case for_down (\<lambda>i b. case get16 be b i of None \<Rightarrow> None
                            | Some v \<Rightarrow> put16 be b i (word_of_int ((38084 * sint v) div 2 ^ 16)))
             (len div 2) b of
        None \<Rightarrow> None
      | Some b' \<Rightarrow> Some (b', len))"

text \<open>
  What the model does not compute is a parameter of the executor:
  \<^item> the eight rate adapters, whose kernels (\<^verbatim>\<open>_doubleRate1\<close>, \<^verbatim>\<open>_halfRate2\<close>, ...) are
    generated from a template file that is not among the sources; a rate adapter takes
    the adapter's name, the mode, the buffer and the length;
  \<^item> the floating-point arithmetic of the two float adapters: \<open>scale_float\<close> is
    \<^verbatim>\<open>(Sint16)(32767 * x)\<close> for a float \<open>x\<close> that is neither above 1 nor below -1, and
    \<open>unscale_s16\<close> is \<^verbatim>\<open>(float)(x*(1./32767))\<close>.
  A \<^verbatim>\<open>float\<close> is taken to be an IEEE 754 single, so the two comparisons of
  \<^verbatim>\<open>cutFloatTo16Bit\<close> can be read off the bit pattern: a pattern is above 1.0 when it lies
  above that of 1.0 (\<open>0x3F800000\<close>) and not above that of plus infinity, and below -1.0
  when it lies above that of -1.0 and not above that of minus infinity.
\<close>

record externals =
  rate_adapter :: "adapter_ref \<Rightarrow> int \<Rightarrow> buffer \<Rightarrow> nat \<Rightarrow> (buffer \<times> nat) option"
  scale_float :: "32 word \<Rightarrow> 16 word"
  unscale_s16 :: "16 word \<Rightarrow> 32 word"

definition float_gt_one :: "32 word \<Rightarrow> bool" where
  "float_gt_one w = (0x3F800000 < w \<and> w \<le> 0x7F800000)"

definition float_lt_minus_one :: "32 word \<Rightarrow> bool" where
  "float_lt_minus_one w = (0xBF800000 < w \<and> w \<le> 0xFF800000)"

definition cutFloatTo16Bit ::
  "externals \<Rightarrow> bool \<Rightarrow> buffer \<Rightarrow> nat \<Rightarrow> (buffer \<times> nat) option" where
  "cutFloatTo16Bit X be b len0 =
     (let len = len0 div 4 in
      case for_up (\<lambda>i b. case get32 be b i of None \<Rightarrow> None
                          | Some w \<Rightarrow>
                              put16 be b i
                                (if float_gt_one w then 32767
                                 else if float_lt_minus_one w then - 32768
                                 else scale_float X w))
             0 len b of
        None \<Rightarrow> None
      | Some b' \<Rightarrow> Some (b', 2 * len))"

definition expand16BitToFloat ::
  "externals \<Rightarrow> bool \<Rightarrow> buffer \<Rightarrow> nat \<Rightarrow> (buffer \<times> nat) option" where
  "expand16BitToFloat X be b len =
     (case for_down (\<lambda>i b. case get16 be b i of None \<Rightarrow> None
                            | Some v \<Rightarrow> put32 be b i (unscale_s16 X v))
             (len div 2) b of
        None \<Rightarrow> None
      | Some b' \<Rightarrow> Some (b', 2 * len))"

section \<open>The executor\<close>

text \<open>The call \<^verbatim>\<open>(*Data->adapter[i])( Temp, length)\<close> through a function pointer.\<close>

definition call_adapter ::
  "externals \<Rightarrow> bool \<Rightarrow> adapter_ref \<Rightarrow> int \<Rightarrow> buffer \<Rightarrow> nat \<Rightarrow> (buffer \<times> nat) option" where
  "call_adapter X be a mode b len =
     (case a of
        A_expand8BitTo16BitSys \<Rightarrow> expand8BitTo16BitSys be b len
      | A_expand8BitTo16BitWrong \<Rightarrow> expand8BitTo16BitWrong be b len
      | A_expand16BitToFloat \<Rightarrow> expand16BitToFloat X be b len
      | A_swapBytes \<Rightarrow> swapBytes be b len
      | A_cutFloatTo16Bit \<Rightarrow> cutFloatTo16Bit X be b len
      | A_cut16BitSysTo8Bit \<Rightarrow> cut16BitSysTo8Bit be b len
      | A_cut16BitWrongTo8Bit \<Rightarrow> cut16BitWrongTo8Bit be b len
      | A_changeSigned16BitSys \<Rightarrow> changeSigned16BitSys be b len
      | A_changeSigned16BitWrong \<Rightarrow> changeSigned16BitWrong be b len
      | A_changeSigned8Bit \<Rightarrow> changeSigned8Bit be b len
      | A_convertStereoToMonoS16Bit \<Rightarrow> convertStereoToMonoS16Bit be b len
      | A_convertStereoToMonoU16Bit \<Rightarrow> convertStereoToMonoU16Bit be b len
      | A_convertStereoToMonoS8Bit \<Rightarrow> convertStereoToMonoS8Bit b len
      | A_convertStereoToMonoU8Bit \<Rightarrow> convertStereoToMonoU8Bit b len
      | A_convertMonoToStereo16Bit \<Rightarrow> convertMonoToStereo16Bit be b len
      | A_convertMonoToStereo8Bit \<Rightarrow> convertMonoToStereo8Bit b len
      | A_minus5dB \<Rightarrow> minus5dB be b len
      | _ \<Rightarrow> rate_adapter X a mode b len)"

text \<open>
  The loop \<^verbatim>\<open>for( i = 0; Data->adapter[i] != NULL; i++ )\<close> of \<^verbatim>\<open>ConvertAudio\<close>. The array has
  32 elements: reading \<^verbatim>\<open>adapter[i]\<close> outside it is a fault (\<open>None\<close>), as is an adapter
  call without result. The result holds the buffer, the length and the number
  of adapter calls made.
\<close>

function ConvertAudio_loop ::
  "externals \<Rightarrow> bool \<Rightarrow> Sound_AudioCVT \<Rightarrow> int \<Rightarrow> int \<Rightarrow> buffer \<Rightarrow> nat
     \<Rightarrow> (buffer \<times> nat \<times> int) option" where
  "ConvertAudio_loop X be Data mode i b len =
     (if i < 0 \<or> 32 \<le> i then None
      else (case adapter Data i of
              None \<Rightarrow> Some (b, len, i)
            | Some a \<Rightarrow>
                (case call_adapter X be a mode b len of
                   None \<Rightarrow> None
                 | Some (b', len') \<Rightarrow> ConvertAudio_loop X be Data mode (i + 1) b' len')))"
  by pat_completeness auto
termination
  by (relation "measure (\<lambda>(X, be, Data, mode, i, b, len). nat (32 - i))") auto

declare ConvertAudio_loop.simps [simp del]

text \<open>
  \<^verbatim>\<open>ConvertAudio\<close>. The source returns -1 after \<^verbatim>\<open>SDL_SetError\<close> when the plan or the buffer
  is \<^verbatim>\<open>NULL\<close>; these are the first two errors. The third is behaviour that C leaves
  undefined and the source does not detect: an access outside the buffer or the adapter
  array, or the statement of the mono-to-stereo adapters.
\<close>

datatype cvt_error = No_converter_given | No_buffer_allocated | Undefined_behaviour

definition ConvertAudio ::
  "externals \<Rightarrow> bool \<Rightarrow> Sound_AudioCVT option \<Rightarrow> buffer option \<Rightarrow> nat \<Rightarrow> int
     \<Rightarrow> cvt_error + buffer \<times> nat" where
  "ConvertAudio X be Data_ptr buffer_ptr len mode =
     (case Data_ptr of
        None \<Rightarrow> Inl No_converter_given
      | Some Data \<Rightarrow>
          (case buffer_ptr of
             None \<Rightarrow> Inl No_buffer_allocated
           | Some b \<Rightarrow>
               (case ConvertAudio_loop X be Data mode 0 b len of
                  None \<Rightarrow> Inl Undefined_behaviour
                | Some (b', len', calls) \<Rightarrow> Inr (b', len'))))"

text \<open>The adapters that \<^verbatim>\<open>ConvertAudio\<close> calls for a plan: the array up to the first \<^verbatim>\<open>NULL\<close>.\<close>

fun adapters_from :: "(int \<Rightarrow> adapter_ref option) \<Rightarrow> int \<Rightarrow> nat \<Rightarrow> adapter_ref list" where
  "adapters_from f i 0 = []"
| "adapters_from f i (Suc n) =
     (case f i of None \<Rightarrow> [] | Some a \<Rightarrow> a # adapters_from f (i + 1) n)"

definition plan_of :: "Sound_AudioCVT \<Rightarrow> adapter_ref list" where
  "plan_of Data = adapters_from (adapter Data) 0 32"

text \<open>The calls of the loop, one after the other, for a list of adapters.\<close>

fun run_adapters ::
  "externals \<Rightarrow> bool \<Rightarrow> int \<Rightarrow> adapter_ref list \<Rightarrow> buffer \<Rightarrow> nat \<Rightarrow> (buffer \<times> nat) option" where
  "run_adapters X be mode [] b len = Some (b, len)"
| "run_adapters X be mode (a # as) b len =
     (case call_adapter X be a mode b len of
        None \<Rightarrow> None
      | Some (b', len') \<Rightarrow> run_adapters X be mode as b' len')"

text \<open>A plan object whose memory is all zero, as a caller gets it from \<^verbatim>\<open>calloc\<close>.\<close>

definition zeroed_cvt :: Sound_AudioCVT where
  "zeroed_cvt = \<lparr>len_mult = 0, add = 0, adapter = (\<lambda>i. None)\<rparr>"

section \<open>Notions used in the statements and proofs\<close>

text \<open>
  The slots of the adapter array below \<^verbatim>\<open>filter_index\<close> are all filled, with adapters that
  satisfy \<open>P\<close>.
\<close>

definition slots_ok :: "(adapter_ref \<Rightarrow> bool) \<Rightarrow> Sound_AudioCVT \<times> int \<Rightarrow> bool" where
  "slots_ok P s = (0 \<le> snd s \<and> (\<forall>i. 0 \<le> i \<and> i < snd s \<longrightarrow> (\<exists>a. adapter (fst s) i = Some a \<and> P a)))"

text \<open>The condition under which \<^verbatim>\<open>BuildAudioCVT\<close> leaves through \<^verbatim>\<open>error_exit\<close>.\<close>

definition refused :: "SDL_AudioSpec \<Rightarrow> SDL_AudioSpec \<Rightarrow> bool" where
  "refused src dst =
     (channels src < 1 \<or> channels src > 2 \<or> channels dst < 1 \<or> channels dst > 2 \<or>
      (freq src \<noteq> freq dst \<and>
       (freq src < 1 \<or> freq src > 2 ^ 18 \<or> freq dst < 1 \<or> freq dst > 2 ^ 18)))"

text \<open>16-bit samples laid out in a buffer, each in the byte order \<open>be\<close>.\<close>

definition bytes16 :: "bool \<Rightarrow> 16 word list \<Rightarrow> buffer" where
  "bytes16 be vs = concat (map (\<lambda>v. if be then [hi8 v, lo8 v] else [lo8 v, hi8 v]) vs)"

text \<open>32-bit elements laid out in a buffer, each in the byte order \<open>be\<close>.\<close>

definition bytes32 :: "bool \<Rightarrow> 32 word list \<Rightarrow> buffer" where
  "bytes32 be ws =
     concat (map (\<lambda>w. if be then [byte32 3 w, byte32 2 w, byte32 1 w, byte32 0 w]
                         else [byte32 0 w, byte32 1 w, byte32 2 w, byte32 3 w]) ws)"

text \<open>
  The error of a fraction against a ratio \<open>R\<close>, as the specification measures it:
  \<open>|num/(den * R) - 1|\<close>.
\<close>

definition relative_error :: "Fraction \<Rightarrow> rat \<Rightarrow> rat" where
  "relative_error fr R = \<bar>of_int (numerator fr) / (of_int (denominator fr) * R) - 1\<bar>"

text \<open>The factor by which the builder scales \<^verbatim>\<open>len_mult\<close> when it appends an adapter.\<close>

fun factor :: "adapter_ref \<Rightarrow> rat" where
  "factor A_expand8BitTo16BitSys = 2"
| "factor A_expand8BitTo16BitWrong = 2"
| "factor A_expand16BitToFloat = 2"
| "factor A_convertMonoToStereo16Bit = 2"
| "factor A_convertMonoToStereo8Bit = 2"
| "factor A_cutFloatTo16Bit = 1 / 2"
| "factor A_cut16BitSysTo8Bit = 1 / 2"
| "factor A_cut16BitWrongTo8Bit = 1 / 2"
| "factor A_convertStereoToMonoS16Bit = 1 / 2"
| "factor A_convertStereoToMonoU16Bit = 1 / 2"
| "factor A_convertStereoToMonoS8Bit = 1 / 2"
| "factor A_convertStereoToMonoU8Bit = 1 / 2"
| "factor a = 1"

text \<open>The slots of the adapter array below \<^verbatim>\<open>filter_index\<close>, as a list.\<close>

definition stored :: "Sound_AudioCVT \<times> int \<Rightarrow> adapter_ref option list" where
  "stored s = map (\<lambda>k. adapter (fst s) (int k)) [0..<nat (snd s)]"

text \<open>
  The adapters that the format-converter builders append, as lists, in the order of the
  source: first those that shorten the data or keep its length, then those that
  lengthen it.
\<close>

definition fmt16_shrink :: "bool \<Rightarrow> SDL_AudioSpec \<Rightarrow> SDL_AudioSpec \<Rightarrow> adapter_ref list" where
  "fmt16_shrink be src dst =
     (if channels src = 2 \<and> channels dst = 1 then
        (if \<not> IS_SYSENDIAN be src then [A_swapBytes] else []) @
        [if IS_SIGNED src then A_convertStereoToMonoS16Bit else A_convertStereoToMonoU16Bit] @
        (if \<not> IS_SYSENDIAN be dst then [A_swapBytes] else [])
      else if IS_SYSENDIAN be src \<noteq> IS_SYSENDIAN be dst then [A_swapBytes] else []) @
     (if IS_SIGNED src \<noteq> IS_SIGNED dst then [A_changeSigned16BitSys] else [])"

definition fmt16_grow :: "SDL_AudioSpec \<Rightarrow> SDL_AudioSpec \<Rightarrow> adapter_ref list" where
  "fmt16_grow src dst =
     (if channels src = 1 \<and> channels dst = 2 then [A_convertMonoToStereo16Bit] else [])"

definition fmt8_shrink :: "bool \<Rightarrow> SDL_AudioSpec \<Rightarrow> SDL_AudioSpec \<Rightarrow> adapter_ref list" where
  "fmt8_shrink be src dst =
     (if IS_16BIT src
      then [if IS_SYSENDIAN be src then A_cut16BitSysTo8Bit else A_cut16BitWrongTo8Bit] else []) @
     (if channels src = 2 \<and> channels dst = 1
      then [if IS_SIGNED src then A_convertStereoToMonoS8Bit else A_convertStereoToMonoU8Bit]
      else []) @
     (if IS_SIGNED src \<noteq> IS_SIGNED dst then [A_changeSigned8Bit] else [])"

definition fmt8_grow :: "bool \<Rightarrow> SDL_AudioSpec \<Rightarrow> SDL_AudioSpec \<Rightarrow> adapter_ref list" where
  "fmt8_grow be src dst =
     (if channels src = 1 \<and> channels dst = 2 then [A_convertMonoToStereo8Bit] else []) @
     (if \<not> IS_8BIT dst
      then [if IS_SYSENDIAN be dst then A_expand8BitTo16BitSys else A_expand8BitTo16BitWrong]
      else [])"

definition fmt_shrink :: "bool \<Rightarrow> SDL_AudioSpec \<Rightarrow> SDL_AudioSpec \<Rightarrow> adapter_ref list" where
  "fmt_shrink be src dst =
     (if IS_FLOAT src then [A_cutFloatTo16Bit] else []) @
     (if IS_8BIT src \<or> IS_8BIT dst then fmt8_shrink be src dst else fmt16_shrink be src dst)"

definition fmt_grow :: "bool \<Rightarrow> SDL_AudioSpec \<Rightarrow> SDL_AudioSpec \<Rightarrow> adapter_ref list" where
  "fmt_grow be src dst =
     (if IS_8BIT src \<or> IS_8BIT dst then fmt8_grow be src dst else fmt16_grow src dst) @
     (if IS_FLOAT dst then [A_expand16BitToFloat] else [])"

text \<open>
  The state of the builder on a path without rate conversion: the adapters stored so
  far, the multiplier, and a headroom of 0.
\<close>

definition built :: "Sound_AudioCVT \<times> int \<Rightarrow> adapter_ref list \<Rightarrow> rat \<Rightarrow> bool" where
  "built s xs m = (0 \<le> snd s \<and> stored s = map Some xs \<and> len_mult (fst s) = m \<and> add (fst s) = 0)"

text \<open>The 16-bit sample number \<open>i\<close> of a buffer, read in the byte order \<open>be\<close>.\<close>

definition sample16 :: "bool \<Rightarrow> buffer \<Rightarrow> nat \<Rightarrow> 16 word" where
  "sample16 be b i =
     (if be then join16 (b ! (2 * i)) (b ! (2 * i + 1)) else join16 (b ! (2 * i + 1)) (b ! (2 * i)))"

text \<open>
  What the two adapters that keep the number of 16-bit samples do to every sample: the
  byte swap \<^verbatim>\<open>( a << 8 ) | ( b >> 8 )\<close> and the flip of the top bit.
\<close>

definition bswap16 :: "16 word \<Rightarrow> 16 word" where
  "bswap16 a = push_bit 8 a OR drop_bit 8 a"

definition samplewise :: "adapter_ref \<Rightarrow> bool" where
  "samplewise a = (a \<in> {A_swapBytes, A_changeSigned16BitSys})"

fun sem16 :: "adapter_ref \<Rightarrow> 16 word \<Rightarrow> 16 word" where
  "sem16 A_swapBytes x = bswap16 x"
| "sem16 A_changeSigned16BitSys x = x XOR 0x8000"
| "sem16 a x = x"

text \<open>A descriptor of 16-bit integer samples.\<close>

definition int16_descriptor :: "SDL_AudioSpec \<Rightarrow> bool" where
  "int16_descriptor x = (IS_16BIT x \<and> \<not> IS_8BIT x \<and> \<not> IS_FLOAT x)"

section \<open>The builder: what it writes into the adapter array\<close>

lemmas format_defs = AUDIO_U8_def AUDIO_S8_def AUDIO_U16LSB_def AUDIO_S16LSB_def AUDIO_U16MSB_def
  AUDIO_S16MSB_def AUDIO_U16SYS_def AUDIO_S16SYS_def IS_8BIT_def IS_16BIT_def IS_FLOAT_def
  IS_SIGNED_def IS_SYSENDIAN_def

lemmas builder_defs = BuildAudioCVT_def createFormatConverter_def createFormatConverter8Bit_def
  createFormatConverter16Bit_def append_adapter_def halve_size_def double_size_def Let_def

lemma snd_append_adapter [simp]: "snd (append_adapter a s) = snd s + 1"
  by (simp add: append_adapter_def split: prod.splits)

lemma snd_halve_size [simp]: "snd (halve_size s) = snd s"
  by (simp add: halve_size_def split: prod.splits)

lemma snd_double_size [simp]: "snd (double_size s) = snd s"
  by (simp add: double_size_def split: prod.splits)

lemma adapter_append_adapter [simp]:
  "adapter (fst (append_adapter a s)) = (adapter (fst s))(snd s \<mapsto> a)"
  by (simp add: append_adapter_def split: prod.splits)

lemma adapter_halve_size [simp]: "adapter (fst (halve_size s)) = adapter (fst s)"
  by (simp add: halve_size_def split: prod.splits)

lemma adapter_double_size [simp]: "adapter (fst (double_size s)) = adapter (fst s)"
  by (simp add: double_size_def split: prod.splits)

lemma slots_ok_append: "slots_ok P s \<Longrightarrow> P a \<Longrightarrow> slots_ok P (append_adapter a s)"
  by (auto simp: slots_ok_def)

lemma slots_ok_halve [simp]: "slots_ok P (halve_size s) = slots_ok P s"
  by (simp add: slots_ok_def)

lemma slots_ok_double [simp]: "slots_ok P (double_size s) = slots_ok P s"
  by (simp add: slots_ok_def)

lemma slots_ok_16:
  assumes "slots_ok P s" and "\<And>a. a \<noteq> A_changeSigned16BitWrong \<Longrightarrow> P a"
  shows "slots_ok P (createFormatConverter16Bit be s src dst)"
  using assms by (simp add: createFormatConverter16Bit_def Let_def slots_ok_append)

lemma slots_ok_8:
  assumes "slots_ok P s" and "\<And>a. a \<noteq> A_changeSigned16BitWrong \<Longrightarrow> P a"
  shows "slots_ok P (createFormatConverter8Bit be s src dst)"
  using assms by (simp add: createFormatConverter8Bit_def Let_def slots_ok_append)

lemma slots_ok_fmt:
  assumes "slots_ok P s" and "\<And>a. a \<noteq> A_changeSigned16BitWrong \<Longrightarrow> P a"
  shows "slots_ok P (createFormatConverter be s src dst)"
  using assms by (simp add: createFormatConverter_def Let_def slots_ok_append slots_ok_8 slots_ok_16)

lemma halfRate_loop_run:
  "0 < r \<Longrightarrow> 31 / 64 \<le> r * 2 ^ n \<Longrightarrow>
     \<exists>D' fi' r'. halfRate_loop Mono (D, fi, r) = Some (D', fi', r') \<and> 31 / 64 \<le> r' \<and>
        (r < 31 / 64 \<longrightarrow> r' < 31 / 32) \<and> (31 / 64 \<le> r \<longrightarrow> r' = r \<and> D' = D \<and> fi' = fi) \<and>
        fi \<le> fi' \<and> fi' \<le> fi + int n \<and> len_mult D' = len_mult D \<and> add D' = add D \<and>
        (\<forall>i. i < fi \<longrightarrow> adapter D' i = adapter D i) \<and>
        (\<forall>i. fi \<le> i \<and> i < fi' \<longrightarrow>
           adapter D' i = Some (if Mono \<noteq> 0 then A_halfRateMono else A_halfRateStereo))"
proof (induction n arbitrary: D fi r)
  case 0
  then show ?case by (subst halfRate_loop.simps) auto
next
  case (Suc n)
  show ?case
  proof (cases "r < 31 / 64")
    case False
    then show ?thesis by (subst halfRate_loop.simps) auto
  next
    case True
    let ?a = "if Mono \<noteq> 0 then A_halfRateMono else A_halfRateStereo"
    let ?D = "D\<lparr>adapter := (adapter D)(fi \<mapsto> ?a)\<rparr>"
    have "0 < r * 2" using Suc.prems by simp
    moreover have "31 / 64 \<le> r * 2 * 2 ^ n" using Suc.prems by (simp add: mult.assoc)
    ultimately obtain D' fi' r' where
      h: "halfRate_loop Mono (?D, fi + 1, r * 2) = Some (D', fi', r')"
        "31 / 64 \<le> r'" "r * 2 < 31 / 64 \<longrightarrow> r' < 31 / 32" "31 / 64 \<le> r * 2 \<longrightarrow> r' = r * 2"
        "fi + 1 \<le> fi'" "fi' \<le> fi + 1 + int n" "len_mult D' = len_mult ?D" "add D' = add ?D"
        "\<forall>i. i < fi + 1 \<longrightarrow> adapter D' i = adapter ?D i"
        "\<forall>i. fi + 1 \<le> i \<and> i < fi' \<longrightarrow> adapter D' i = Some ?a"
      using Suc.IH[of "r * 2" ?D "fi + 1"] by blast
    have lt: "r' < 31 / 32" using h(3,4) True by (cases "r * 2 < 31 / 64") auto
    have low: "\<forall>i. i < fi \<longrightarrow> adapter D' i = adapter D i" using h(9) by simp
    have new: "\<forall>i. fi \<le> i \<and> i < fi' \<longrightarrow> adapter D' i = Some ?a"
    proof (intro allI impI)
      fix i assume i: "fi \<le> i \<and> i < fi'"
      show "adapter D' i = Some ?a"
      proof (cases "i = fi")
        case True
        then show ?thesis using h(9) by simp
      next
        case False
        then show ?thesis using h(10) i by simp
      qed
    qed
    have run: "halfRate_loop Mono (D, fi, r) = Some (D', fi', r')"
      using True h(1) by (subst halfRate_loop.simps) simp
    show ?thesis using run lt True h(2,5,6,7,8) low new by simp
  qed
qed

lemma doubleRate_loop_run:
  "doubleRate_loop Mono (D, fi, r) = (D', fi', r') \<Longrightarrow>
     r' \<le> 64 / 31 \<and> (64 / 31 < r \<longrightarrow> 32 / 31 < r') \<and>
     (r \<le> 64 / 31 \<longrightarrow> r' = r \<and> D' = D \<and> fi' = fi) \<and> fi \<le> fi' \<and>
     (\<forall>i. i < fi \<longrightarrow> adapter D' i = adapter D i) \<and>
     (\<forall>i. fi \<le> i \<and> i < fi' \<longrightarrow>
        adapter D' i = Some (if Mono \<noteq> 0 then A_doubleRateMono else A_doubleRateStereo))"
proof (induction Mono "(D, fi, r)" arbitrary: D fi r rule: doubleRate_loop.induct)
  case (1 Mono D fi r)
  show ?case
  proof (cases "64 / 31 < r")
    case False
    then show ?thesis using "1.prems" by (auto simp: doubleRate_loop.simps)
  next
    case True
    let ?a = "if Mono \<noteq> 0 then A_doubleRateMono else A_doubleRateStereo"
    let ?D = "D\<lparr>adapter := (adapter D)(fi \<mapsto> ?a),
                 len_mult := len_mult D * 2, add := add D * 2 + fsize\<rparr>"
    have eq: "doubleRate_loop Mono (?D, fi + 1, r / 2) = (D', fi', r')"
      using "1.prems" True by (simp add: doubleRate_loop.simps)
    have ih: "r' \<le> 64 / 31 \<and> (64 / 31 < r / 2 \<longrightarrow> 32 / 31 < r') \<and>
        (r / 2 \<le> 64 / 31 \<longrightarrow> r' = r / 2 \<and> D' = ?D \<and> fi' = fi + 1) \<and> fi + 1 \<le> fi' \<and>
        (\<forall>i. i < fi + 1 \<longrightarrow> adapter D' i = adapter ?D i) \<and>
        (\<forall>i. fi + 1 \<le> i \<and> i < fi' \<longrightarrow> adapter D' i = Some ?a)"
      using "1.hyps"[OF True eq] .
    have r': "32 / 31 < r'" using ih True by (cases "64 / 31 < r / 2") auto
    have low: "\<forall>i. i < fi \<longrightarrow> adapter D' i = adapter D i" using ih by simp
    have new: "\<forall>i. fi \<le> i \<and> i < fi' \<longrightarrow> adapter D' i = Some ?a"
    proof (intro allI impI)
      fix i assume i: "fi \<le> i \<and> i < fi'"
      show "adapter D' i = Some ?a"
      proof (cases "i = fi")
        case True
        then show ?thesis using ih by simp
      next
        case False
        then show ?thesis using ih i by simp
      qed
    qed
    show ?thesis using ih r' True low new by simp
  qed
qed

lemma ex_doublings: "0 < (r::rat) \<Longrightarrow> \<exists>n. 31 / 64 \<le> r * 2 ^ n"
proof -
  assume pos: "0 < r"
  obtain n :: nat where n: "(31 / 64) / r \<le> of_nat n" using real_arch_simple by blast
  have "(of_nat n :: rat) < 2 ^ n" by (rule of_nat_less_two_power)
  then have "(31 / 64) / r \<le> 2 ^ n" using n by linarith
  then have "31 / 64 \<le> 2 ^ n * r" using pos by (simp add: pos_divide_le_eq)
  then show ?thesis by (auto simp: mult.commute)
qed

lemma createRateConverter_refused:
  "SrcRate < 1 \<or> SrcRate > 2 ^ 18 \<or> DestRate < 1 \<or> DestRate > 2 ^ 18 \<Longrightarrow>
     createRateConverter (D, fi) SrcRate DestRate Channel = Some (D, - 1)"
  by (simp add: createRateConverter_def)

lemma createRateConverter_ok:
  assumes rates: "1 \<le> SrcRate" "SrcRate \<le> 2 ^ 18" "1 \<le> DestRate" "DestRate \<le> 2 ^ 18"
    and ok: "slots_ok P (D, fi)" and P: "\<And>a. a \<noteq> A_changeSigned16BitWrong \<Longrightarrow> P a"
  shows "\<exists>s'. createRateConverter (D, fi) SrcRate DestRate Channel = Some s' \<and>
           slots_ok P s' \<and> fi < snd s'"
proof -
  define r :: rat where "r = of_int DestRate / of_int SrcRate"
  define Mono where "Mono = 2 - Channel"
  have rpos: "0 < r" using rates by (simp add: r_def)
  have fi0: "0 \<le> fi" and below: "\<forall>i. 0 \<le> i \<and> i < fi \<longrightarrow> (\<exists>a. adapter D i = Some a \<and> P a)"
    using ok by (auto simp: slots_ok_def)
  have guard: "\<not> (SrcRate < 1 \<or> SrcRate > 2 ^ 18 \<or> DestRate < 1 \<or> DestRate > 2 ^ 18)"
    using rates by simp
  show ?thesis
  proof (cases "1 < r")
    case True
    obtain D2 fi2 r2 where d: "doubleRate_loop Mono (D, fi + 1, r) = (D2, fi2, r2)"
      by (cases "doubleRate_loop Mono (D, fi + 1, r)") auto
    note dp = doubleRate_loop_run[OF d]
    have r2: "1 < r2" "r2 \<le> 64 / 31" using dp True by (cases "64 / 31 < r"; auto)+
    have h: "halfRate_loop Mono (D2, fi2, r2) = Some (D2, fi2, r2)"
      using r2 by (subst halfRate_loop.simps) simp
    let ?a = "if Mono \<noteq> 0 then A_varRateUpMono else A_varRateUpStereo"
    let ?D = "D2\<lparr>adapter := (adapter D2)(fi \<mapsto> ?a), len_mult := len_mult D2 * 2,
                   add := add D2 * 2 + fsize\<rparr>"
    have res: "createRateConverter (D, fi) SrcRate DestRate Channel = Some (?D, fi2)"
      using guard True d h r2
      by (simp add: createRateConverter_def Let_def r_def[symmetric] Mono_def[symmetric])
    have "slots_ok P (?D, fi2)"
      unfolding slots_ok_def
    proof (intro conjI allI impI)
      show "0 \<le> snd (?D, fi2)" using dp fi0 by simp
    next
      fix i assume i: "0 \<le> i \<and> i < snd (?D, fi2)"
      consider "i < fi" | "i = fi" | "fi + 1 \<le> i" by linarith
      then show "\<exists>a. adapter (fst (?D, fi2)) i = Some a \<and> P a"
      proof cases
        case 1
        then have "adapter D2 i = adapter D i" using dp by simp
        then show ?thesis using 1 i below by simp
      next
        case 2
        then show ?thesis by (simp add: P)
      next
        case 3
        then have "adapter D2 i = Some (if Mono \<noteq> 0 then A_doubleRateMono else A_doubleRateStereo)"
          using dp i by simp
        then show ?thesis using 3 by (simp add: P)
      qed
    qed
    moreover have "fi < fi2" using dp by simp
    ultimately show ?thesis using res by simp
  next
    case False
    let ?D1 = "D\<lparr>adapter := (adapter D)(fi \<mapsto> A_minus5dB)\<rparr>"
    have d: "doubleRate_loop Mono (?D1, fi + 1, r) = (?D1, fi + 1, r)"
      using False by (simp add: doubleRate_loop.simps)
    obtain n where n: "31 / 64 \<le> r * 2 ^ n" using ex_doublings[OF rpos] by blast
    obtain D3 fi3 r3 where
      h: "halfRate_loop Mono (?D1, fi + 1, r) = Some (D3, fi3, r3)"
         "r < 31 / 64 \<longrightarrow> r3 < 31 / 32" "31 / 64 \<le> r \<longrightarrow> r3 = r \<and> D3 = ?D1 \<and> fi3 = fi + 1"
         "fi + 1 \<le> fi3" "\<forall>i. i < fi + 1 \<longrightarrow> adapter D3 i = adapter ?D1 i"
         "\<forall>i. fi + 1 \<le> i \<and> i < fi3 \<longrightarrow>
            adapter D3 i = Some (if Mono \<noteq> 0 then A_halfRateMono else A_halfRateStereo)"
      using halfRate_loop_run[OF rpos n, of Mono ?D1 "fi + 1"] by blast
    have r3: "\<not> 1 < r3" using h(2,3) False by (cases "r < 31 / 64") auto
    let ?a = "if Mono \<noteq> 0 then A_varRateDownMono else A_varRateDownStereo"
    have res: "createRateConverter (D, fi) SrcRate DestRate Channel =
        Some (append_adapter ?a (D3, fi3))"
      using guard False d h(1) r3
      by (simp add: createRateConverter_def Let_def r_def[symmetric] Mono_def[symmetric]
            append_adapter_def)
    have "slots_ok P (D3, fi3)"
      unfolding slots_ok_def
    proof (intro conjI allI impI)
      show "0 \<le> snd (D3, fi3)" using h(4) fi0 by simp
    next
      fix i assume i: "0 \<le> i \<and> i < snd (D3, fi3)"
      consider "i < fi" | "i = fi" | "fi + 1 \<le> i" by linarith
      then show "\<exists>a. adapter (fst (D3, fi3)) i = Some a \<and> P a"
      proof cases
        case 1
        then have "adapter D3 i = adapter D i" using h(5) by simp
        then show ?thesis using 1 i below by simp
      next
        case 2
        then have "adapter D3 i = Some A_minus5dB" using h(5) by simp
        then show ?thesis by (simp add: P)
      next
        case 3
        then have "adapter D3 i = Some (if Mono \<noteq> 0 then A_halfRateMono else A_halfRateStereo)"
          using h(6) i by simp
        then show ?thesis by (simp add: P)
      qed
    qed
    then have "slots_ok P (append_adapter ?a (D3, fi3))"
      by (rule slots_ok_append) (simp add: P)
    moreover have "fi < snd (append_adapter ?a (D3, fi3))" using h(4) by simp
    ultimately show ?thesis using res by simp
  qed
qed

lemma adapters_from_all:
  "lo \<le> n \<Longrightarrow> f n = None \<Longrightarrow> (\<forall>i. lo \<le> i \<and> i < n \<longrightarrow> (\<exists>a. f i = Some a \<and> P a)) \<Longrightarrow>
     \<forall>a \<in> set (adapters_from f lo k). P a"
proof (induction k arbitrary: lo)
  case 0
  then show ?case by simp
next
  case (Suc k)
  show ?case
  proof (cases "lo = n")
    case True
    then show ?thesis using Suc.prems by simp
  next
    case False
    then have lt: "lo < n" using Suc.prems by simp
    then obtain a where a: "f lo = Some a" "P a" using Suc.prems by auto
    have "\<forall>a \<in> set (adapters_from f (lo + 1) k). P a"
      by (rule Suc.IH) (use lt Suc.prems in auto)
    then show ?thesis using a by simp
  qed
qed

lemma slots_ok_start: "slots_ok P (D, 0)"
  by (auto simp: slots_ok_def)

lemma BuildAudioCVT_result:
  assumes P: "\<And>a. a \<noteq> A_changeSigned16BitWrong \<Longrightarrow> P a"
  shows "\<exists>ret D' n. BuildAudioCVT be (Some D) src dst = Some (ret, Some D') \<and>
           (ret = (if refused src dst then - 1 else 0)) \<and>
           0 \<le> n \<and> adapter D' n = None \<and> (ret = - 1 \<longrightarrow> n = 0) \<and>
           (\<forall>i. 0 \<le> i \<and> i < n \<longrightarrow> (\<exists>a. adapter D' i = Some a \<and> P a))"
proof -
  let ?D0 = "D\<lparr>len_mult := 1, add := 0\<rparr>"
  let ?bad = "channels src < 1 \<or> channels src > 2 \<or> channels dst < 1 \<or> channels dst > 2"
  show ?thesis
  proof (cases ?bad)
    case True
    then have "BuildAudioCVT be (Some D) src dst =
        Some (- 1, Some (?D0\<lparr>adapter := (adapter ?D0)(0 := None)\<rparr>))"
      by (simp add: BuildAudioCVT_def Let_def)
    moreover have "refused src dst" using True by (auto simp: refused_def)
    ultimately show ?thesis by (intro exI[of _ "- 1"] exI[of _ "?D0\<lparr>adapter := (adapter ?D0)(0 := None)\<rparr>"] exI[of _ 0]) auto
  next
    case chan: False
    show ?thesis
    proof (cases "freq src = freq dst")
      case True
      obtain D1 n where s: "createFormatConverter be (?D0, 0) src dst = (D1, n)"
        by (cases "createFormatConverter be (?D0, 0) src dst") auto
      have "slots_ok P (createFormatConverter be (?D0, 0) src dst)"
        by (rule slots_ok_fmt[OF slots_ok_start P])
      then have ok: "slots_ok P (D1, n)" using s by simp
      have "BuildAudioCVT be (Some D) src dst = Some (0, Some (D1\<lparr>adapter := (adapter D1)(n := None)\<rparr>))"
        using chan True s by (simp add: BuildAudioCVT_def Let_def)
      moreover have "\<not> refused src dst" using chan True by (auto simp: refused_def)
      ultimately show ?thesis using ok
        by (intro exI[of _ 0] exI[of _ "D1\<lparr>adapter := (adapter D1)(n := None)\<rparr>"] exI[of _ n])
           (auto simp: slots_ok_def)
    next
      case diff: False
      define intrm where "intrm = \<lparr>freq = 0, format = AUDIO_S16SYS be,
                        channels = min (channels src) (channels dst)\<rparr>"
      define C where "C = (if channels src = 2 \<and> channels dst = 2 then 2 else (1::int))"
      obtain D1 n1 where s1: "createFormatConverter be (?D0, 0) src intrm = (D1, n1)"
        by (cases "createFormatConverter be (?D0, 0) src intrm") auto
      have "slots_ok P (createFormatConverter be (?D0, 0) src intrm)"
        by (rule slots_ok_fmt[OF slots_ok_start P])
      then have ok1: "slots_ok P (D1, n1)" using s1 by simp
      have rc: "(if channels src = 2 \<and> channels dst = 2
                 then createRateConverter (D1, n1) (freq src) (freq dst) 2
                 else createRateConverter (D1, n1) (freq src) (freq dst) 1) =
                createRateConverter (D1, n1) (freq src) (freq dst) C"
        by (simp add: C_def)
      have unfold: "BuildAudioCVT be (Some D) src dst =
         (case createRateConverter (D1, n1) (freq src) (freq dst) C of
                 None \<Rightarrow> None
               | Some s2 \<Rightarrow>
                   if snd s2 < 0 then Some (- 1, Some ((fst s2)\<lparr>adapter := (adapter (fst s2))(0 := None)\<rparr>))
                   else (case createFormatConverter be s2 intrm dst of (Dz, fz) \<Rightarrow>
                             Some (0, Some (Dz\<lparr>adapter := (adapter Dz)(fz := None)\<rparr>))))"
        unfolding BuildAudioCVT_def Let_def intrm_def[symmetric]
        using chan diff by (simp add: s1 C_def)
      show ?thesis
      proof (cases "freq src < 1 \<or> freq src > 2 ^ 18 \<or> freq dst < 1 \<or> freq dst > 2 ^ 18")
        case True
        have "createRateConverter (D1, n1) (freq src) (freq dst) C = Some (D1, - 1)"
          by (rule createRateConverter_refused[OF True])
        then have "BuildAudioCVT be (Some D) src dst =
            Some (- 1, Some (D1\<lparr>adapter := (adapter D1)(0 := None)\<rparr>))"
          using unfold by simp
        moreover have "refused src dst" using True diff by (auto simp: refused_def)
        ultimately show ?thesis
          by (intro exI[of _ "- 1"] exI[of _ "D1\<lparr>adapter := (adapter D1)(0 := None)\<rparr>"] exI[of _ 0]) auto
      next
        case False
        then obtain s2 where s2: "createRateConverter (D1, n1) (freq src) (freq dst) C = Some s2"
            "slots_ok P s2"
          using createRateConverter_ok[of "freq src" "freq dst" P D1 n1 C] ok1 P by auto
        obtain Dz fz where sz: "createFormatConverter be s2 intrm dst = (Dz, fz)"
          by (cases "createFormatConverter be s2 intrm dst") auto
        have "slots_ok P (createFormatConverter be s2 intrm dst)"
          by (rule slots_ok_fmt[OF s2(2) P])
        then have okz: "slots_ok P (Dz, fz)" using sz by simp
        have "\<not> snd s2 < 0" using s2(2) by (simp add: slots_ok_def)
        then have "BuildAudioCVT be (Some D) src dst =
            Some (0, Some (Dz\<lparr>adapter := (adapter Dz)(fz := None)\<rparr>))"
          using unfold s2(1) sz by simp
        moreover have "\<not> refused src dst" using False chan by (auto simp: refused_def)
        ultimately show ?thesis using okz
          by (intro exI[of _ 0] exI[of _ "Dz\<lparr>adapter := (adapter Dz)(fz := None)\<rparr>"] exI[of _ fz])
             (auto simp: slots_ok_def)
      qed
    qed
  qed
qed

section \<open>The rate-reduction loops end\<close>

lemma rate_ratio_bounds:
  assumes "1 \<le> SrcRate" "SrcRate \<le> 2 ^ 18" "1 \<le> DestRate" "DestRate \<le> 2 ^ 18"
  shows "(of_int DestRate :: rat) / of_int SrcRate \<le> 2 ^ 18"
    and "1 / 2 ^ 18 \<le> (of_int DestRate :: rat) / of_int SrcRate"
proof -
  have s: "(1::rat) \<le> of_int SrcRate" "(of_int SrcRate :: rat) \<le> 2 ^ 18"
    using assms by (simp_all add: of_int_le_numeral_power_cancel_iff)
  have d: "(1::rat) \<le> of_int DestRate" "(of_int DestRate :: rat) \<le> 2 ^ 18"
    using assms by (simp_all add: of_int_le_numeral_power_cancel_iff)
  have "(2 ^ 18 :: rat) * 1 \<le> 2 ^ 18 * of_int SrcRate"
    using s(1) by (intro mult_left_mono) simp_all
  then have "(of_int DestRate :: rat) \<le> 2 ^ 18 * of_int SrcRate"
    using d(2) by linarith
  then show "(of_int DestRate :: rat) / of_int SrcRate \<le> 2 ^ 18"
    using s(1) by (simp add: pos_divide_le_eq)
  have "(2 ^ 18 :: rat) * 1 \<le> 2 ^ 18 * of_int DestRate"
    using d(1) by (intro mult_left_mono) simp_all
  then have "(of_int SrcRate :: rat) \<le> 2 ^ 18 * of_int DestRate"
    using s(2) by linarith
  then show "1 / 2 ^ 18 \<le> (of_int DestRate :: rat) / of_int SrcRate"
    using s(1) by (simp add: pos_le_divide_eq pos_divide_le_eq mult.commute)
qed

lemma doubleRate_loop_passes:
  "r \<le> 64 / 31 * 2 ^ n \<Longrightarrow>
     \<exists>k D'. k \<le> n \<and> doubleRate_loop Mono (D, fi, r) = (D', fi + int k, r / 2 ^ k) \<and>
        (\<forall>i<k. 64 / 31 < r / 2 ^ i) \<and> r / 2 ^ k \<le> 64 / 31 \<and>
        len_mult D' = len_mult D * 2 ^ k \<and> add D' = (add D + fsize) * 2 ^ k - fsize \<and>
        (\<forall>i<k. adapter D' (fi + int i) =
                 Some (if Mono \<noteq> 0 then A_doubleRateMono else A_doubleRateStereo)) \<and>
        (\<forall>m. m < fi \<or> fi + int k \<le> m \<longrightarrow> adapter D' m = adapter D m)"
proof (induction n arbitrary: D fi r)
  case 0
  then have "\<not> 64 / 31 < r" by simp
  then show ?case by (intro exI[of _ 0] exI[of _ D]) (simp add: doubleRate_loop.simps)
next
  case (Suc n)
  show ?case
  proof (cases "64 / 31 < r")
    case False
    then show ?thesis by (intro exI[of _ 0] exI[of _ D]) (simp add: doubleRate_loop.simps)
  next
    case True
    let ?a = "if Mono \<noteq> 0 then A_doubleRateMono else A_doubleRateStereo"
    let ?D = "D\<lparr>adapter := (adapter D)(fi \<mapsto> ?a),
                 len_mult := len_mult D * 2, add := add D * 2 + fsize\<rparr>"
    have "r / 2 \<le> 64 / 31 * 2 ^ n" using Suc.prems by simp
    from Suc.IH[OF this, of ?D "fi + 1"] obtain k D' where h:
        "k \<le> n" "doubleRate_loop Mono (?D, fi + 1, r / 2) = (D', fi + 1 + int k, r / 2 / 2 ^ k)"
        "\<forall>i<k. 64 / 31 < r / 2 / 2 ^ i" "r / 2 / 2 ^ k \<le> 64 / 31"
        "len_mult D' = len_mult ?D * 2 ^ k" "add D' = (add ?D + fsize) * 2 ^ k - fsize"
        "\<forall>i<k. adapter D' (fi + 1 + int i) = Some ?a"
        "\<forall>m. m < fi + 1 \<or> fi + 1 + int k \<le> m \<longrightarrow> adapter D' m = adapter ?D m"
      by blast
    have run: "doubleRate_loop Mono (D, fi, r) = (D', fi + int (Suc k), r / 2 ^ Suc k)"
      using True h(2) by (subst doubleRate_loop.simps) simp
    have pass: "\<forall>i<Suc k. 64 / 31 < r / 2 ^ i"
    proof (intro allI impI)
      fix i assume "i < Suc k"
      then show "64 / 31 < r / 2 ^ i" using True h(3) by (cases i) simp_all
    qed
    have stop: "r / 2 ^ Suc k \<le> 64 / 31" using h(4) by simp
    have lm: "len_mult D' = len_mult D * 2 ^ Suc k" using h(5) by simp
    have ad: "add D' = (add D + fsize) * 2 ^ Suc k - fsize" using h(6) by (simp add: algebra_simps)
    have new: "\<forall>i<Suc k. adapter D' (fi + int i) = Some ?a"
    proof (intro allI impI)
      fix i assume i: "i < Suc k"
      show "adapter D' (fi + int i) = Some ?a"
      proof (cases i)
        case 0
        then show ?thesis using h(8) by simp
      next
        case (Suc i')
        then have "i' < k" using i by simp
        then have "adapter D' (fi + 1 + int i') = Some ?a" using h(7) by blast
        then show ?thesis using Suc by (simp add: add.assoc)
      qed
    qed
    have old: "\<forall>m. m < fi \<or> fi + int (Suc k) \<le> m \<longrightarrow> adapter D' m = adapter D m"
    proof (intro allI impI)
      fix m assume m: "m < fi \<or> fi + int (Suc k) \<le> m"
      then have c: "m < fi + 1 \<or> fi + 1 + int k \<le> m" and ne: "m \<noteq> fi" by auto
      have "adapter D' m = adapter ?D m" using h(8) c by blast
      then show "adapter D' m = adapter D m" using ne by simp
    qed
    show ?thesis
      using h(1) run pass stop lm ad new old by (intro exI[of _ "Suc k"] exI[of _ D']) simp
  qed
qed

lemma halfRate_loop_passes:
  "31 / 64 \<le> r * 2 ^ n \<Longrightarrow>
     \<exists>j D'. j \<le> n \<and> halfRate_loop Mono (D, fi, r) = Some (D', fi + int j, r * 2 ^ j) \<and>
        (\<forall>i<j. r * 2 ^ i < 31 / 64) \<and> 31 / 64 \<le> r * 2 ^ j \<and>
        len_mult D' = len_mult D \<and> add D' = add D \<and>
        (\<forall>i<j. adapter D' (fi + int i) =
                 Some (if Mono \<noteq> 0 then A_halfRateMono else A_halfRateStereo)) \<and>
        (\<forall>m. m < fi \<or> fi + int j \<le> m \<longrightarrow> adapter D' m = adapter D m)"
proof (induction n arbitrary: D fi r)
  case 0
  then have "\<not> r < 31 / 64" by simp
  then show ?case
    by (intro exI[of _ 0] exI[of _ D]) (subst halfRate_loop.simps, simp)
next
  case (Suc n)
  show ?case
  proof (cases "r < 31 / 64")
    case False
    then show ?thesis
      by (intro exI[of _ 0] exI[of _ D]) (subst halfRate_loop.simps, simp)
  next
    case True
    let ?a = "if Mono \<noteq> 0 then A_halfRateMono else A_halfRateStereo"
    let ?D = "D\<lparr>adapter := (adapter D)(fi \<mapsto> ?a)\<rparr>"
    have "31 / 64 \<le> r * 2 * 2 ^ n" using Suc.prems by (simp add: mult.assoc)
    from Suc.IH[OF this, of ?D "fi + 1"] obtain j D' where h:
        "j \<le> n" "halfRate_loop Mono (?D, fi + 1, r * 2) = Some (D', fi + 1 + int j, r * 2 * 2 ^ j)"
        "\<forall>i<j. r * 2 * 2 ^ i < 31 / 64" "31 / 64 \<le> r * 2 * 2 ^ j"
        "len_mult D' = len_mult ?D" "add D' = add ?D"
        "\<forall>i<j. adapter D' (fi + 1 + int i) = Some ?a"
        "\<forall>m. m < fi + 1 \<or> fi + 1 + int j \<le> m \<longrightarrow> adapter D' m = adapter ?D m"
      by blast
    have run: "halfRate_loop Mono (D, fi, r) = Some (D', fi + int (Suc j), r * 2 ^ Suc j)"
      using True h(2) by (subst halfRate_loop.simps) (simp add: mult.assoc)
    have pass: "\<forall>i<Suc j. r * 2 ^ i < 31 / 64"
    proof (intro allI impI)
      fix i assume "i < Suc j"
      then show "r * 2 ^ i < 31 / 64" using True h(3) by (cases i) (simp_all add: mult.assoc)
    qed
    have stop: "31 / 64 \<le> r * 2 ^ Suc j" using h(4) by (simp add: mult.assoc)
    have new: "\<forall>i<Suc j. adapter D' (fi + int i) = Some ?a"
    proof (intro allI impI)
      fix i assume i: "i < Suc j"
      show "adapter D' (fi + int i) = Some ?a"
      proof (cases i)
        case 0
        then show ?thesis using h(8) by simp
      next
        case (Suc i')
        then have "i' < j" using i by simp
        then have "adapter D' (fi + 1 + int i') = Some ?a" using h(7) by blast
        then show ?thesis using Suc by (simp add: add.assoc)
      qed
    qed
    have old: "\<forall>m. m < fi \<or> fi + int (Suc j) \<le> m \<longrightarrow> adapter D' m = adapter D m"
    proof (intro allI impI)
      fix m assume m: "m < fi \<or> fi + int (Suc j) \<le> m"
      then have c: "m < fi + 1 \<or> fi + 1 + int j \<le> m" and ne: "m \<noteq> fi" by auto
      have "adapter D' m = adapter ?D m" using h(8) c by blast
      then show "adapter D' m = adapter D m" using ne by simp
    qed
    show ?thesis
      using h(1,5,6) run pass stop new old by (intro exI[of _ "Suc j"] exI[of _ D']) simp
  qed
qed

lemma rounded_ratio_bounds:
  assumes "1 \<le> SrcRate" "SrcRate \<le> 2 ^ 18" "1 \<le> DestRate" "DestRate \<le> 2 ^ 18"
    and "\<bar>r - of_int DestRate / of_int SrcRate\<bar> \<le> of_int DestRate / of_int SrcRate / 2 ^ 24"
  shows "(r :: rat) \<le> 64 / 31 * 2 ^ 17" and "31 / 64 \<le> r * 2 ^ 17"
proof -
  define q :: rat where "q = of_int DestRate / of_int SrcRate"
  have hi: "q \<le> 2 ^ 18" and lo: "1 / 2 ^ 18 \<le> q"
    using rate_ratio_bounds[OF assms(1-4)] by (simp_all add: q_def)
  have d: "\<bar>r - q\<bar> \<le> q / 2 ^ 24" using assms(5) by (simp add: q_def)
  have "r \<le> q + q / 2 ^ 24" and "q - q / 2 ^ 24 \<le> r" using d by linarith+
  then show "r \<le> 64 / 31 * 2 ^ 17" and "31 / 64 \<le> r * 2 ^ 17"
    using hi lo by simp_all
qed

text \<open>
  Claim C6. Let the rates be in \<open>[1, 2^18]\<close> and let \<^verbatim>\<open>Ratio\<close> be the quotient
  \<open>DestRate / SrcRate\<close>, exact or rounded to a \<^verbatim>\<open>float\<close> (relative error at most \<open>2^-24\<close>).
  Then the power-of-two phase of \<^verbatim>\<open>createRateConverter\<close> ends, and it does this:
  \<^item> the first loop makes \<open>k \<le> 17\<close> passes, one for every \<open>i < k\<close> with
    \<open>Ratio / 2^i > 64/31\<close>, and stops at the first \<open>k\<close> with \<open>Ratio / 2^k \<le> 64/31\<close>; each pass
    stores a \<^verbatim>\<open>doubleRate\<close> adapter in the next slot, doubles \<^verbatim>\<open>len_mult\<close> and maps \<^verbatim>\<open>add\<close> to
    \<open>2 * add + 64\<close>;
  \<^item> the second loop then makes \<open>j \<le> 17\<close> passes, one for every \<open>i < j\<close> with
    \<open>Ratio / 2^k * 2^i < 31/64\<close>, and stops at the first \<open>j\<close> with
    \<open>Ratio / 2^k * 2^j \<ge> 31/64\<close>; each pass stores a \<^verbatim>\<open>halfRate\<close> adapter in the next slot;
  \<^item> at most one of the two loops makes a pass, and the ratio that is left,
    \<open>Ratio / 2^k * 2^j\<close>, lies in \<open>[31/64, 64/31]\<close>.
\<close>

theorem rate_reduction_terminates:
  assumes "1 \<le> SrcRate" "SrcRate \<le> 2 ^ 18" "1 \<le> DestRate" "DestRate \<le> 2 ^ 18"
    and "\<bar>Ratio - of_int DestRate / of_int SrcRate\<bar> \<le> of_int DestRate / of_int SrcRate / 2 ^ 24"
  shows "\<exists>k j Data1 Data2.
     doubleRate_loop Mono (Data, fi, Ratio) = (Data1, fi + int k, Ratio / 2 ^ k) \<and>
     halfRate_loop Mono (Data1, fi + int k, Ratio / 2 ^ k) =
       Some (Data2, fi + int k + int j, Ratio / 2 ^ k * 2 ^ j) \<and>
     k \<le> 17 \<and> j \<le> 17 \<and> (k = 0 \<or> j = 0) \<and>
     (\<forall>i<k. 64 / 31 < Ratio / 2 ^ i) \<and> Ratio / 2 ^ k \<le> 64 / 31 \<and>
     (\<forall>i<j. Ratio / 2 ^ k * 2 ^ i < 31 / 64) \<and>
     31 / 64 \<le> Ratio / 2 ^ k * 2 ^ j \<and> Ratio / 2 ^ k * 2 ^ j \<le> 64 / 31 \<and>
     (\<forall>i<k. adapter Data2 (fi + int i) =
              Some (if Mono \<noteq> 0 then A_doubleRateMono else A_doubleRateStereo)) \<and>
     (\<forall>i<j. adapter Data2 (fi + int k + int i) =
              Some (if Mono \<noteq> 0 then A_halfRateMono else A_halfRateStereo)) \<and>
     len_mult Data2 = len_mult Data * 2 ^ k \<and>
     add Data2 = (add Data + fsize) * 2 ^ k - fsize"
proof -
  note b = rounded_ratio_bounds[OF assms]
  obtain k D1 where d:
      "k \<le> 17" "doubleRate_loop Mono (Data, fi, Ratio) = (D1, fi + int k, Ratio / 2 ^ k)"
      "\<forall>i<k. 64 / 31 < Ratio / 2 ^ i" "Ratio / 2 ^ k \<le> 64 / 31"
      "len_mult D1 = len_mult Data * 2 ^ k" "add D1 = (add Data + fsize) * 2 ^ k - fsize"
      "\<forall>i<k. adapter D1 (fi + int i) =
               Some (if Mono \<noteq> 0 then A_doubleRateMono else A_doubleRateStereo)"
    using doubleRate_loop_passes[OF b(1), of Mono Data fi] by blast
  define r1 where "r1 = Ratio / 2 ^ k"
  have big: "0 < k \<Longrightarrow> 32 / 31 < r1"
  proof -
    assume "0 < k"
    then obtain k' where k': "k = Suc k'" by (cases k) auto
    define x where "x = Ratio / 2 ^ k'"
    have "64 / 31 < x" using d(3) k' by (simp add: x_def)
    moreover have "r1 = x / 2" by (simp add: r1_def k' x_def)
    ultimately show "32 / 31 < r1" by simp
  qed
  have lo: "31 / 64 \<le> r1 * 2 ^ (if k = 0 then 17 else 0)"
  proof (cases "k = 0")
    case True
    then show ?thesis using b(2) by (simp add: r1_def)
  next
    case False
    then have "32 / 31 < r1" using big by simp
    then show ?thesis using False by simp
  qed
  obtain j D2 where h:
      "j \<le> (if k = 0 then 17 else 0)"
      "halfRate_loop Mono (D1, fi + int k, r1) = Some (D2, fi + int k + int j, r1 * 2 ^ j)"
      "\<forall>i<j. r1 * 2 ^ i < 31 / 64" "31 / 64 \<le> r1 * 2 ^ j"
      "len_mult D2 = len_mult D1" "add D2 = add D1"
      "\<forall>i<j. adapter D2 (fi + int k + int i) =
               Some (if Mono \<noteq> 0 then A_halfRateMono else A_halfRateStereo)"
      "\<forall>m. m < fi + int k \<or> fi + int k + int j \<le> m \<longrightarrow> adapter D2 m = adapter D1 m"
    using halfRate_loop_passes[OF lo, of Mono D1 "fi + int k"] by blast
  have j17: "j \<le> 17" and kj: "k = 0 \<or> j = 0" using h(1) by (auto split: if_splits)
  have hi: "r1 * 2 ^ j \<le> 64 / 31"
  proof (cases j)
    case 0
    then show ?thesis using d(4) by (simp add: r1_def)
  next
    case (Suc j')
    then have "r1 * 2 ^ j' < 31 / 64" using h(3) by simp
    then show ?thesis using Suc by simp
  qed
  have keep: "\<forall>i<k. adapter D2 (fi + int i) =
               Some (if Mono \<noteq> 0 then A_doubleRateMono else A_doubleRateStereo)"
    using d(7) h(8) by simp
  show ?thesis
    using d(1,2,3,4,5,6) h(2,3,4,5,6,7) j17 kj hi keep unfolding r1_def
    by (intro exI[of _ k] exI[of _ j] exI[of _ D1] exI[of _ D2]) simp
qed

theorem rate_reduction_terminates_witness:
  "(\<bar>441 / 80 - of_int 44100 / of_int 8000\<bar> \<le> (of_int 44100 / of_int 8000 / 2 ^ 24 :: rat) \<and>
    (\<exists>Data1 Data2.
       doubleRate_loop 1 (zeroed_cvt\<lparr>len_mult := 1\<rparr>, 1, 441 / 80) = (Data1, 3, 441 / 320) \<and>
       halfRate_loop 1 (Data1, 3, 441 / 320) = Some (Data2, 3, 441 / 320) \<and>
       adapter Data2 1 = Some A_doubleRateMono \<and> adapter Data2 2 = Some A_doubleRateMono \<and>
       len_mult Data2 = 4 \<and> add Data2 = 192)) \<and>
   (\<bar>11184811 / 2 ^ 26 - of_int 8000 / of_int 48000\<bar> \<le>
       (of_int 8000 / of_int 48000 / 2 ^ 24 :: rat) \<and>
    (\<exists>Data1 Data2.
       doubleRate_loop 0 (zeroed_cvt\<lparr>len_mult := 1\<rparr>, 1, 11184811 / 2 ^ 26) =
         (Data1, 1, 11184811 / 2 ^ 26) \<and>
       halfRate_loop 0 (Data1, 1, 11184811 / 2 ^ 26) = Some (Data2, 3, 11184811 / 2 ^ 24) \<and>
       adapter Data2 1 = Some A_halfRateStereo \<and> adapter Data2 2 = Some A_halfRateStereo \<and>
       len_mult Data2 = 1 \<and> add Data2 = 0))"
proof (intro conjI)
  define r :: rat where "r = 441 / 80"
  define D where "D = zeroed_cvt\<lparr>len_mult := 1\<rparr>"
  show hyp0: "\<bar>441 / 80 - of_int 44100 / of_int 8000\<bar> \<le> (of_int 44100 / of_int 8000 / 2 ^ 24 :: rat)"
    by simp
  have hyp: "\<bar>r - of_int 44100 / of_int 8000\<bar> \<le> of_int 44100 / of_int 8000 / 2 ^ 24"
    by (simp add: r_def)
  have a: "(1::int) \<le> 8000" "(8000::int) \<le> 2 ^ 18" "(1::int) \<le> 44100" "(44100::int) \<le> 2 ^ 18"
    by simp_all
  from rate_reduction_terminates[OF a hyp, of 1 D 1]
  obtain k j D1 D2 where f:
      "doubleRate_loop 1 (D, 1, r) = (D1, 1 + int k, r / 2 ^ k)"
      "halfRate_loop 1 (D1, 1 + int k, r / 2 ^ k) = Some (D2, 1 + int k + int j, r / 2 ^ k * 2 ^ j)"
      "k = 0 \<or> j = 0" "\<forall>i<k. 64 / 31 < r / 2 ^ i" "r / 2 ^ k \<le> 64 / 31"
      "\<forall>i<k. adapter D2 (1 + int i) = Some (if (1::int) \<noteq> 0 then A_doubleRateMono else A_doubleRateStereo)"
      "len_mult D2 = len_mult D * 2 ^ k" "add D2 = (add D + fsize) * 2 ^ k - fsize"
    by blast
  have "\<not> 2 < k"
  proof
    assume "2 < k"
    then have "64 / 31 < r / 2 ^ 2" using f(4) by blast
    then show False by (simp add: r_def)
  qed
  moreover have "k \<noteq> 0"
  proof
    assume "k = 0"
    then have "r / 2 ^ 0 \<le> 64 / 31" using f(5) by simp
    then show False by (simp add: r_def)
  qed
  moreover have "k \<noteq> 1"
  proof
    assume "k = 1"
    then have "r / 2 ^ 1 \<le> 64 / 31" using f(5) by simp
    then show False by (simp add: r_def)
  qed
  ultimately have k: "k = 2" by arith
  then have j: "j = 0" using f(3) by simp
  have s1: "adapter D2 1 = Some A_doubleRateMono" using f(6)[rule_format, of 0] k by simp
  have s2: "adapter D2 2 = Some A_doubleRateMono" using f(6)[rule_format, of 1] k by simp
  show "\<exists>Data1 Data2.
       doubleRate_loop 1 (zeroed_cvt\<lparr>len_mult := 1\<rparr>, 1, 441 / 80) = (Data1, 3, 441 / 320) \<and>
       halfRate_loop 1 (Data1, 3, 441 / 320) = Some (Data2, 3, 441 / 320) \<and>
       adapter Data2 1 = Some A_doubleRateMono \<and> adapter Data2 2 = Some A_doubleRateMono \<and>
       len_mult Data2 = 4 \<and> add Data2 = 192"
    using f(1,2,7,8) s1 s2 unfolding k j r_def D_def
    by (intro exI[of _ D1] exI[of _ D2]) (simp add: zeroed_cvt_def fsize_def)
next
  define r :: rat where "r = 11184811 / 2 ^ 26"
  define D where "D = zeroed_cvt\<lparr>len_mult := 1\<rparr>"
  show "\<bar>11184811 / 2 ^ 26 - of_int 8000 / of_int 48000\<bar> \<le>
       (of_int 8000 / of_int 48000 / 2 ^ 24 :: rat)"
    by simp
  have hyp: "\<bar>r - of_int 8000 / of_int 48000\<bar> \<le> of_int 8000 / of_int 48000 / 2 ^ 24"
    by (simp add: r_def)
  have a: "(1::int) \<le> 48000" "(48000::int) \<le> 2 ^ 18" "(1::int) \<le> 8000" "(8000::int) \<le> 2 ^ 18"
    by simp_all
  from rate_reduction_terminates[OF a hyp, of 0 D 1]
  obtain k j D1 D2 where f:
      "doubleRate_loop 0 (D, 1, r) = (D1, 1 + int k, r / 2 ^ k)"
      "halfRate_loop 0 (D1, 1 + int k, r / 2 ^ k) = Some (D2, 1 + int k + int j, r / 2 ^ k * 2 ^ j)"
      "\<forall>i<k. 64 / 31 < r / 2 ^ i"
      "\<forall>i<j. r / 2 ^ k * 2 ^ i < 31 / 64" "31 / 64 \<le> r / 2 ^ k * 2 ^ j"
      "\<forall>i<j. adapter D2 (1 + int k + int i) =
               Some (if (0::int) \<noteq> 0 then A_halfRateMono else A_halfRateStereo)"
      "len_mult D2 = len_mult D * 2 ^ k" "add D2 = (add D + fsize) * 2 ^ k - fsize"
    by blast
  have k: "k = 0"
  proof (rule ccontr)
    assume "k \<noteq> 0"
    then have "64 / 31 < r / 2 ^ 0" using f(3) by blast
    then show False by (simp add: r_def)
  qed
  have "\<not> 2 < j"
  proof
    assume "2 < j"
    then have "r / 2 ^ k * 2 ^ 2 < 31 / 64" using f(4) by blast
    then show False by (simp add: r_def k)
  qed
  moreover have "j \<noteq> 0"
  proof
    assume "j = 0"
    then have "31 / 64 \<le> r / 2 ^ 0 * 2 ^ 0" using f(5) k by simp
    then show False by (simp add: r_def)
  qed
  moreover have "j \<noteq> 1"
  proof
    assume "j = 1"
    then have "31 / 64 \<le> r / 2 ^ 0 * 2 ^ 1" using f(5) k by simp
    then show False by (simp add: r_def)
  qed
  ultimately have j: "j = 2" by arith
  have s1: "adapter D2 1 = Some A_halfRateStereo" using f(6)[rule_format, of 0] k j by simp
  have s2: "adapter D2 2 = Some A_halfRateStereo" using f(6)[rule_format, of 1] k j by simp
  show "\<exists>Data1 Data2.
       doubleRate_loop 0 (zeroed_cvt\<lparr>len_mult := 1\<rparr>, 1, 11184811 / 2 ^ 26) =
         (Data1, 1, 11184811 / 2 ^ 26) \<and>
       halfRate_loop 0 (Data1, 1, 11184811 / 2 ^ 26) = Some (Data2, 3, 11184811 / 2 ^ 24) \<and>
       adapter Data2 1 = Some A_halfRateStereo \<and> adapter Data2 2 = Some A_halfRateStereo \<and>
       len_mult Data2 = 1 \<and> add Data2 = 0"
    using f(1,2,7,8) s1 s2 unfolding k j r_def D_def
    by (intro exI[of _ D1] exI[of _ D2]) (simp add: zeroed_cvt_def fsize_def)
qed

section \<open>When the builder fails, and what a failed build leaves\<close>

lemma ConvertAudio_loop_sentinel:
  "adapter Data 0 = None \<Longrightarrow> ConvertAudio_loop X be Data mode 0 b len = Some (b, len, 0)"
  by (simp add: ConvertAudio_loop.simps)

text \<open>
  Claim C3, as amended. \<^verbatim>\<open>BuildAudioCVT\<close> on a plan that is not \<^verbatim>\<open>NULL\<close> always returns, with
  -1 or 0. It returns -1 exactly when a channel count is outside \<open>{1, 2}\<close>, or the two
  rates differ and one of them is outside \<open>[1, 2^18]\<close>. The rates are only checked by
  \<^verbatim>\<open>createRateConverter\<close>, which is not called when the rates are equal.
\<close>

theorem BuildAudioCVT_fails_iff:
  "\<exists>ret Data'. BuildAudioCVT be (Some Data) src dst = Some (ret, Some Data') \<and>
      (ret = - 1 \<or> ret = 0) \<and>
      (ret = - 1 \<longleftrightarrow>
         (channels src < 1 \<or> channels src > 2 \<or> channels dst < 1 \<or> channels dst > 2 \<or>
          (freq src \<noteq> freq dst \<and>
           (freq src < 1 \<or> freq src > 2 ^ 18 \<or> freq dst < 1 \<or> freq dst > 2 ^ 18))))"
proof -
  obtain ret D' where
    "BuildAudioCVT be (Some Data) src dst = Some (ret, Some D')"
    "ret = (if refused src dst then - 1 else 0)"
    using BuildAudioCVT_result[of "\<lambda>a. True" be Data src dst] by auto
  then show ?thesis by (auto simp: refused_def)
qed

text \<open>
  Claim C3 as stated fails: with both rates 0, outside \<open>[1, 2^18]\<close>, and equal, the call
  returns 0.
\<close>

theorem out_of_range_rate_accepted:
  "(\<exists>Data'. BuildAudioCVT False (Some zeroed_cvt)
        \<lparr>freq = 0, format = AUDIO_U8, channels = 1\<rparr>
        \<lparr>freq = 0, format = AUDIO_U8, channels = 1\<rparr> = Some (0, Some Data')) \<and>
   \<not> (1 \<le> freq \<lparr>freq = 0, format = AUDIO_U8, channels = 1\<rparr> \<and>
      freq \<lparr>freq = 0, format = AUDIO_U8, channels = 1\<rparr> \<le> 2 ^ 18)"
  by (simp add: BuildAudioCVT_def Let_def split: prod.splits)

text \<open>
  Claim C9. Whenever the signedness of source and destination differs, the 16-bit
  format-converter builder stores \<^verbatim>\<open>changeSigned16BitSys\<close> among the adapters it appends,
  whatever the byte order of the destination is (both branches of the test on
  \<^verbatim>\<open>IS_SYSENDIAN(dst)\<close> append it); and no plan that \<^verbatim>\<open>BuildAudioCVT\<close> leaves, for any pair of
  descriptors and any prior content of the plan, has \<^verbatim>\<open>changeSigned16BitWrong\<close> among the
  adapters that \<^verbatim>\<open>ConvertAudio\<close> would call.
\<close>

theorem sign_flip_adapter_choice:
  "(IS_SIGNED src \<noteq> IS_SIGNED dst \<longrightarrow>
      (\<exists>k. snd s \<le> k \<and> k < snd (createFormatConverter16Bit be s src dst) \<and>
           adapter (fst (createFormatConverter16Bit be s src dst)) k =
             Some A_changeSigned16BitSys)) \<and>
   (BuildAudioCVT be (Some Data) src dst = Some (ret, Some Data') \<longrightarrow>
      A_changeSigned16BitWrong \<notin> set (plan_of Data'))"
proof (intro conjI impI)
  assume sg: "IS_SIGNED src \<noteq> IS_SIGNED dst"
  define s1 where "s1 =
       (if channels src = 2 \<and> channels dst = 1 then
          (let t0 = halve_size s;
               t1 = (if \<not> IS_SYSENDIAN be src then append_adapter A_swapBytes t0 else t0);
               t2 = (if IS_SIGNED src then append_adapter A_convertStereoToMonoS16Bit t1
                     else append_adapter A_convertStereoToMonoU16Bit t1)
           in (if \<not> IS_SYSENDIAN be dst then append_adapter A_swapBytes t2 else t2))
        else if IS_SYSENDIAN be src \<noteq> IS_SYSENDIAN be dst then append_adapter A_swapBytes s
        else s)"
  define s2 where "s2 = (if IS_SYSENDIAN be dst then append_adapter A_changeSigned16BitSys s1
           else append_adapter A_changeSigned16BitSys s1)"
  have res: "createFormatConverter16Bit be s src dst =
      (if channels src = 1 \<and> channels dst = 2
       then append_adapter A_convertMonoToStereo16Bit (double_size s2) else s2)"
    using sg unfolding createFormatConverter16Bit_def s1_def s2_def Let_def by simp
  have s2: "s2 = append_adapter A_changeSigned16BitSys s1" by (simp add: s2_def)
  have mono: "snd s \<le> snd s1" by (simp add: s1_def Let_def)
  have "snd s1 < snd (createFormatConverter16Bit be s src dst)"
    by (simp add: res s2)
  moreover have "adapter (fst (createFormatConverter16Bit be s src dst)) (snd s1) =
      Some A_changeSigned16BitSys"
    by (simp add: res s2)
  ultimately show "\<exists>k. snd s \<le> k \<and> k < snd (createFormatConverter16Bit be s src dst) \<and>
           adapter (fst (createFormatConverter16Bit be s src dst)) k =
             Some A_changeSigned16BitSys"
    using mono by blast
next
  assume b: "BuildAudioCVT be (Some Data) src dst = Some (ret, Some Data')"
  obtain n where n: "0 \<le> n" "adapter Data' n = None"
      "\<forall>i. 0 \<le> i \<and> i < n \<longrightarrow> (\<exists>a. adapter Data' i = Some a \<and> a \<noteq> A_changeSigned16BitWrong)"
    using BuildAudioCVT_result[of "\<lambda>a. a \<noteq> A_changeSigned16BitWrong" be Data src dst] b by auto
  have "\<forall>a \<in> set (adapters_from (adapter Data') 0 32). a \<noteq> A_changeSigned16BitWrong"
    by (rule adapters_from_all[OF n])
  then show "A_changeSigned16BitWrong \<notin> set (plan_of Data')"
    by (auto simp: plan_of_def)
qed

text \<open>
  Claim C10, as amended. Whenever \<^verbatim>\<open>BuildAudioCVT\<close> returns -1 on a plan (a plan pointer
  that is not \<^verbatim>\<open>NULL\<close>), element 0 of the adapter array is \<^verbatim>\<open>NULL\<close>; \<^verbatim>\<open>ConvertAudio\<close> on that plan and
  any buffer then makes no adapter call, returns the length it was given and leaves the
  buffer as it was.
\<close>

theorem failed_build_leaves_empty_plan:
  assumes "BuildAudioCVT be (Some Data) src dst = Some (- 1, Some Data')"
  shows "adapter Data' 0 = None \<and> plan_of Data' = [] \<and>
         ConvertAudio_loop X be Data' mode 0 b len = Some (b, len, 0) \<and>
         ConvertAudio X be (Some Data') (Some b) len mode = Inr (b, len)"
proof -
  have z: "adapter Data' 0 = None"
    using BuildAudioCVT_result[of "\<lambda>a. True" be Data src dst] assms by auto
  have l: "ConvertAudio_loop X be Data' mode 0 b len = Some (b, len, 0)"
    by (rule ConvertAudio_loop_sentinel[OF z])
  have "plan_of Data' = []"
    using z by (simp add: plan_of_def eval_nat_numeral)
  then show ?thesis using z l by (simp add: ConvertAudio_def)
qed

lemma build_u8_rate_refused:
  "BuildAudioCVT be (Some zeroed_cvt) \<lparr>freq = 44100, format = AUDIO_U8, channels = 1\<rparr>
       \<lparr>freq = 300000, format = AUDIO_S16LSB, channels = 1\<rparr> =
     Some (- 1, Some (zeroed_cvt\<lparr>len_mult := 2, add := 0,
        adapter := (adapter zeroed_cvt)(0 := None, 1 \<mapsto> A_expand8BitTo16BitWrong)\<rparr>))"
  by (cases be)
     (simp_all add: builder_defs format_defs zeroed_cvt_def createRateConverter_def fun_upd_twist)

lemma build_prefilled_refused:
  "BuildAudioCVT be (Some \<lparr>len_mult = 3, add = 5, adapter = (\<lambda>i. Some A_swapBytes)\<rparr>)
       \<lparr>freq = 44100, format = AUDIO_S16LSB, channels = 2\<rparr>
       \<lparr>freq = 44100, format = AUDIO_S16LSB, channels = 3\<rparr> =
     Some (- 1, Some \<lparr>len_mult = 1, add = 0,
        adapter = (\<lambda>i. Some A_swapBytes)(0 := None)\<rparr>)"
  by (simp add: BuildAudioCVT_def Let_def)

text \<open>
  Two failed builds that leave a non-empty array behind. From 8-bit mono at 44100 Hz to
  16-bit mono at 300000 Hz the first format converter has stored two adapters when the
  rate converter refuses the rate; from a plan whose array is full of adapters a wrong
  channel count fails at once. In both, slot 0 is \<^verbatim>\<open>NULL\<close> afterwards, slot 1 still holds
  an adapter, and \<^verbatim>\<open>ConvertAudio\<close> calls none.
\<close>

theorem failed_build_leaves_empty_plan_witness:
  "(\<exists>Data'. BuildAudioCVT False (Some zeroed_cvt)
        \<lparr>freq = 44100, format = AUDIO_U8, channels = 1\<rparr>
        \<lparr>freq = 300000, format = AUDIO_S16LSB, channels = 1\<rparr> = Some (- 1, Some Data') \<and>
     adapter Data' 1 = Some A_expand8BitTo16BitWrong \<and>
     adapter Data' 0 = None \<and> plan_of Data' = [] \<and>
     ConvertAudio_loop \<lparr>rate_adapter = (\<lambda>a m b n. None), scale_float = (\<lambda>w. 0),
         unscale_s16 = (\<lambda>v. 0)\<rparr> False Data' 0 0 [1, 2, 3, 4] 4 = Some ([1, 2, 3, 4], 4, 0) \<and>
     ConvertAudio \<lparr>rate_adapter = (\<lambda>a m b n. None), scale_float = (\<lambda>w. 0),
         unscale_s16 = (\<lambda>v. 0)\<rparr> False (Some Data') (Some [1, 2, 3, 4]) 4 0 =
       Inr ([1, 2, 3, 4], 4)) \<and>
   (\<exists>Data'. BuildAudioCVT False
        (Some \<lparr>len_mult = 3, add = 5, adapter = (\<lambda>i. Some A_swapBytes)\<rparr>)
        \<lparr>freq = 44100, format = AUDIO_S16LSB, channels = 2\<rparr>
        \<lparr>freq = 44100, format = AUDIO_S16LSB, channels = 3\<rparr> = Some (- 1, Some Data') \<and>
     adapter Data' 1 = Some A_swapBytes \<and>
     adapter Data' 0 = None \<and> plan_of Data' = [] \<and>
     ConvertAudio_loop \<lparr>rate_adapter = (\<lambda>a m b n. None), scale_float = (\<lambda>w. 0),
         unscale_s16 = (\<lambda>v. 0)\<rparr> False Data' 0 0 [1, 2, 3, 4] 4 = Some ([1, 2, 3, 4], 4, 0) \<and>
     ConvertAudio \<lparr>rate_adapter = (\<lambda>a m b n. None), scale_float = (\<lambda>w. 0),
         unscale_s16 = (\<lambda>v. 0)\<rparr> False (Some Data') (Some [1, 2, 3, 4]) 4 0 =
       Inr ([1, 2, 3, 4], 4))"
proof (intro conjI)
  let ?D = "zeroed_cvt\<lparr>len_mult := 2, add := 0,
        adapter := (adapter zeroed_cvt)(0 := None, 1 \<mapsto> A_expand8BitTo16BitWrong)\<rparr>"
  have "adapter ?D 1 = Some A_expand8BitTo16BitWrong" by simp
  then show "\<exists>Data'. BuildAudioCVT False (Some zeroed_cvt)
        \<lparr>freq = 44100, format = AUDIO_U8, channels = 1\<rparr>
        \<lparr>freq = 300000, format = AUDIO_S16LSB, channels = 1\<rparr> = Some (- 1, Some Data') \<and>
     adapter Data' 1 = Some A_expand8BitTo16BitWrong \<and>
     adapter Data' 0 = None \<and> plan_of Data' = [] \<and>
     ConvertAudio_loop \<lparr>rate_adapter = (\<lambda>a m b n. None), scale_float = (\<lambda>w. 0),
         unscale_s16 = (\<lambda>v. 0)\<rparr> False Data' 0 0 [1, 2, 3, 4] 4 = Some ([1, 2, 3, 4], 4, 0) \<and>
     ConvertAudio \<lparr>rate_adapter = (\<lambda>a m b n. None), scale_float = (\<lambda>w. 0),
         unscale_s16 = (\<lambda>v. 0)\<rparr> False (Some Data') (Some [1, 2, 3, 4]) 4 0 =
       Inr ([1, 2, 3, 4], 4)"
    using failed_build_leaves_empty_plan[OF build_u8_rate_refused] build_u8_rate_refused
    by blast
next
  let ?D = "\<lparr>len_mult = 1, add = 0, adapter = (\<lambda>i. Some A_swapBytes)(0 := None)\<rparr>"
  have "adapter ?D 1 = Some A_swapBytes" by simp
  then show "\<exists>Data'. BuildAudioCVT False
        (Some \<lparr>len_mult = 3, add = 5, adapter = (\<lambda>i. Some A_swapBytes)\<rparr>)
        \<lparr>freq = 44100, format = AUDIO_S16LSB, channels = 2\<rparr>
        \<lparr>freq = 44100, format = AUDIO_S16LSB, channels = 3\<rparr> = Some (- 1, Some Data') \<and>
     adapter Data' 1 = Some A_swapBytes \<and>
     adapter Data' 0 = None \<and> plan_of Data' = [] \<and>
     ConvertAudio_loop \<lparr>rate_adapter = (\<lambda>a m b n. None), scale_float = (\<lambda>w. 0),
         unscale_s16 = (\<lambda>v. 0)\<rparr> False Data' 0 0 [1, 2, 3, 4] 4 = Some ([1, 2, 3, 4], 4, 0) \<and>
     ConvertAudio \<lparr>rate_adapter = (\<lambda>a m b n. None), scale_float = (\<lambda>w. 0),
         unscale_s16 = (\<lambda>v. 0)\<rparr> False (Some Data') (Some [1, 2, 3, 4]) 4 0 =
       Inr ([1, 2, 3, 4], 4)"
    using failed_build_leaves_empty_plan[OF build_prefilled_refused] build_prefilled_refused
    by blast
qed

text \<open>
  Claim C10 as stated fails when the plan pointer is \<^verbatim>\<open>NULL\<close>: \<^verbatim>\<open>BuildAudioCVT\<close> returns -1
  at once and stores nothing, and \<^verbatim>\<open>ConvertAudio\<close> on a \<^verbatim>\<open>NULL\<close> plan does not return the
  length it was given but the error ``No converter given''.
\<close>

theorem failed_build_without_plan:
  "\<forall>X be.
     BuildAudioCVT be None \<lparr>freq = 44100, format = AUDIO_S16LSB, channels = 2\<rparr>
        \<lparr>freq = 44100, format = AUDIO_S16LSB, channels = 2\<rparr> = Some (- 1, None) \<and>
     ConvertAudio X be None (Some [1, 2, 3, 4]) 4 0 = Inl No_converter_given"
  by (simp add: BuildAudioCVT_def ConvertAudio_def)

theorem sign_flip_adapter_choice_witness:
  "IS_SIGNED \<lparr>freq = 44100, format = AUDIO_U16LSB, channels = 1\<rparr> \<noteq>
     IS_SIGNED \<lparr>freq = 44100, format = AUDIO_S16MSB, channels = 1\<rparr> \<and>
   (\<exists>k. snd (zeroed_cvt, 0) \<le> k \<and>
        k < snd (createFormatConverter16Bit False (zeroed_cvt, 0)
               \<lparr>freq = 44100, format = AUDIO_U16LSB, channels = 1\<rparr>
               \<lparr>freq = 44100, format = AUDIO_S16MSB, channels = 1\<rparr>) \<and>
        adapter (fst (createFormatConverter16Bit False (zeroed_cvt, 0)
               \<lparr>freq = 44100, format = AUDIO_U16LSB, channels = 1\<rparr>
               \<lparr>freq = 44100, format = AUDIO_S16MSB, channels = 1\<rparr>)) k =
          Some A_changeSigned16BitSys) \<and>
   (\<exists>Data'. BuildAudioCVT False (Some zeroed_cvt)
                \<lparr>freq = 44100, format = AUDIO_U16LSB, channels = 1\<rparr>
                \<lparr>freq = 44100, format = AUDIO_S16MSB, channels = 1\<rparr> = Some (0, Some Data') \<and>
            A_changeSigned16BitWrong \<notin> set (plan_of Data'))"
proof -
  let ?u = "\<lparr>freq = 44100, format = AUDIO_U16LSB, channels = 1\<rparr>"
  let ?v = "\<lparr>freq = 44100, format = AUDIO_S16MSB, channels = 1\<rparr>"
  have sg: "IS_SIGNED ?u \<noteq> IS_SIGNED ?v"
    by (simp add: IS_SIGNED_def AUDIO_U16LSB_def AUDIO_S16MSB_def)
  obtain D' where b: "BuildAudioCVT False (Some zeroed_cvt) ?u ?v = Some (0, Some D')"
    using BuildAudioCVT_result[of "\<lambda>a. True" False zeroed_cvt ?u ?v]
    by (auto simp: refused_def)
  show ?thesis
    using sign_flip_adapter_choice[where src = ?u and dst = ?v and s = "(zeroed_cvt, 0)"
        and be = False and Data = zeroed_cvt and ret = 0 and Data' = D'] sg b
    by blast
qed

theorem BuildAudioCVT_fails_iff_witness:
  "\<exists>ret Data'. BuildAudioCVT False (Some zeroed_cvt)
        \<lparr>freq = 44100, format = AUDIO_S16LSB, channels = 2\<rparr>
        \<lparr>freq = 300000, format = AUDIO_S16LSB, channels = 2\<rparr> = Some (ret, Some Data') \<and>
      (ret = - 1 \<or> ret = 0) \<and> ret = - 1"
  using BuildAudioCVT_fails_iff
    [where be = False and Data = zeroed_cvt
       and src = "\<lparr>freq = 44100, format = AUDIO_S16LSB, channels = 2\<rparr>"
       and dst = "\<lparr>freq = 300000, format = AUDIO_S16LSB, channels = 2\<rparr>"]
  by simp

section \<open>The executor runs the adapters of the plan\<close>

lemmas buffer_defs = get8_def put8_def get16_def put16_def get32_def put32_def join16_def
  join32_def hi8_def lo8_def byte32_def mask_byte_def

lemma for_down_numeral:
  "for_down body (numeral k) b =
     (case body (pred_numeral k) b of None \<Rightarrow> None | Some b' \<Rightarrow> for_down body (pred_numeral k) b')"
  by (simp add: numeral_eq_Suc)

lemma for_down_one:
  "for_down body 1 b = (case body 0 b of None \<Rightarrow> None | Some b' \<Rightarrow> Some b')"
  by (simp split: option.splits)

lemma adapters_from_numeral:
  "adapters_from f i (numeral k) =
     (case f i of None \<Rightarrow> [] | Some a \<Rightarrow> a # adapters_from f (i + 1) (pred_numeral k))"
  by (simp add: numeral_eq_Suc)

lemma ConvertAudio_loop_plan:
  "0 \<le> i \<Longrightarrow> i + int n \<le> 32 \<Longrightarrow> length (adapters_from (adapter D) i n) < n \<Longrightarrow>
     ConvertAudio_loop X be D mode i b len =
       (case run_adapters X be mode (adapters_from (adapter D) i n) b len of
          None \<Rightarrow> None
        | Some (b', l') \<Rightarrow> Some (b', l', i + int (length (adapters_from (adapter D) i n))))"
proof (induction n arbitrary: i b len)
  case 0
  then show ?case by simp
next
  case (Suc n)
  have i32: "\<not> (i < 0 \<or> 32 \<le> i)" using Suc.prems by simp
  show ?case
  proof (cases "adapter D i")
    case None
    then show ?thesis using i32 by (subst ConvertAudio_loop.simps) simp
  next
    case (Some a)
    show ?thesis
    proof (cases "call_adapter X be a mode b len")
      case None
      then show ?thesis using i32 Some by (subst ConvertAudio_loop.simps) simp
    next
      case (Some r)
      obtain b' l' where r: "r = (b', l')" by (cases r)
      have len: "length (adapters_from (adapter D) (i + 1) n) < n"
        using Suc.prems(3) \<open>adapter D i = Some a\<close> by simp
      have ih: "ConvertAudio_loop X be D mode (i + 1) b' l' =
          (case run_adapters X be mode (adapters_from (adapter D) (i + 1) n) b' l' of
             None \<Rightarrow> None
           | Some (b'', l'') \<Rightarrow>
               Some (b'', l'', i + 1 + int (length (adapters_from (adapter D) (i + 1) n))))"
        by (rule Suc.IH) (use Suc.prems len in auto)
      show ?thesis
        using i32 \<open>adapter D i = Some a\<close> Some r ih
        by (subst ConvertAudio_loop.simps) (simp split: option.splits)
    qed
  qed
qed

lemma ConvertAudio_plan:
  assumes "length (plan_of D) < 32"
  shows "ConvertAudio X be (Some D) (Some b) len mode =
           (case run_adapters X be mode (plan_of D) b len of
              None \<Rightarrow> Inl Undefined_behaviour | Some r \<Rightarrow> Inr r)"
proof -
  have "ConvertAudio_loop X be D mode 0 b len =
       (case run_adapters X be mode (adapters_from (adapter D) 0 32) b len of
          None \<Rightarrow> None
        | Some (b', l') \<Rightarrow> Some (b', l', 0 + int (length (adapters_from (adapter D) 0 32))))"
    by (rule ConvertAudio_loop_plan) (use assms in \<open>simp_all add: plan_of_def\<close>)
  then show ?thesis
    by (simp add: ConvertAudio_def plan_of_def split: option.splits)
qed

section \<open>The rational resampler on the code\<close>

lemma frac_nonneg: "k < 96 \<Longrightarrow> 0 \<le> frac ! k"
proof -
  have "\<forall>x \<in> set frac. 0 \<le> x" by (simp add: frac_def)
  moreover have "length frac = 96" by (simp add: frac_def)
  ultimately show "k < 96 \<Longrightarrow> 0 \<le> frac ! k" by (metis nth_mem)
qed

lemma findFraction_loop_denominator:
  "0 \<le> num \<Longrightarrow> den \<le> 2 \<Longrightarrow> denominator Result \<le> 2 \<Longrightarrow>
     denominator (findFraction_loop Value n (num, den, BestErr, Result)) \<le> 2"
proof (induction Value n "(num, den, BestErr, Result)" arbitrary: num den BestErr Result
       rule: findFraction_loop.induct)
  case (1 Value n num den BestErr Result)
  show ?case
  proof (cases "n < 96")
    case False
    then show ?thesis using "1.prems" by (simp add: findFraction_loop.simps)
  next
    case True
    define den1 where "den1 = (if num < 0 then den + 1 else den)"
    define RelErr0 where "RelErr0 = Value * of_int num / of_int den1"
    define RelErr where "RelErr = min RelErr0 (1 / RelErr0)"
    define num1 where "num1 = (if Suc n < 96 then frac ! Suc n else num)"
    have n1: "0 \<le> num1" using "1.prems" frac_nonneg by (simp add: num1_def)
    have d1: "den1 \<le> 2" using "1.prems" by (simp add: den1_def)
    have step: "findFraction_loop Value n (num, den, BestErr, Result) =
        (if RelErr > BestErr
         then findFraction_loop Value (Suc n)
                (num1, den1, RelErr, \<lparr>denominator = den1, numerator = num\<rparr>)
         else findFraction_loop Value (Suc n) (num1, den1, BestErr, Result))"
      using True
      by (subst findFraction_loop.simps)
         (simp add: Let_def num1_def RelErr_def RelErr0_def den1_def)
    show ?thesis
    proof (cases "RelErr > BestErr")
      case gt: True
      have "denominator (findFraction_loop Value (Suc n)
              (num1, den1, RelErr, \<lparr>denominator = den1, numerator = num\<rparr>)) \<le> 2"
        by (rule "1.hyps"(1)[OF True den1_def RelErr0_def RelErr_def num1_def gt n1 d1])
           (simp add: d1)
      then show ?thesis using step gt by simp
    next
      case le: False
      have "denominator (findFraction_loop Value (Suc n) (num1, den1, BestErr, Result)) \<le> 2"
        by (rule "1.hyps"(2)[OF True den1_def RelErr0_def RelErr_def num1_def le n1 d1])
           (rule "1.prems"(3))
      then show ?thesis using step le by simp
    qed
  qed
qed

lemma findFraction_denominator_le_2: "denominator (findFraction num0 Value) \<le> 2"
proof (cases "Value < 31 / 64 \<or> Value > 64 / 31")
  case True
  then show ?thesis by (simp add: findFraction_def)
next
  case False
  define den1 :: int where "den1 = (if num0 < 0 then 1 + 1 else 1)"
  define RelErr0 where "RelErr0 = Value * of_int num0 / of_int den1"
  define RelErr where "RelErr = min RelErr0 (1 / RelErr0)"
  have num1: "0 \<le> frac ! Suc 0" by (rule frac_nonneg) simp
  have d1: "den1 \<le> 2" by (simp add: den1_def)
  have step: "findFraction num0 Value =
        (if RelErr > 0
         then findFraction_loop Value (Suc 0)
                (frac ! Suc 0, den1, RelErr, \<lparr>denominator = den1, numerator = num0\<rparr>)
         else findFraction_loop Value (Suc 0)
                (frac ! Suc 0, den1, 0, \<lparr>denominator = 0, numerator = 0\<rparr>))"
    using False unfolding findFraction_def
    by (subst findFraction_loop.simps)
       (simp add: Let_def RelErr_def RelErr0_def den1_def)
  show ?thesis
    unfolding step using findFraction_loop_denominator[OF num1 d1] d1 by simp
qed

text \<open>
  Claim C2 fails on the code. The table is an array of \<^verbatim>\<open>Uint8\<close>, so the entries written
  \<^verbatim>\<open>-1\<close> are 255 and the test \<^verbatim>\<open>num < 0\<close> that should move to the next denominator never
  holds for a table entry: the denominator stays 1 (or 2, when the value \<^verbatim>\<open>num\<close> happens to
  hold before the loop is negative). At the ratio \<open>3/2\<close>, inside \<open>[31/64, 64/31]\<close>, the
  function returns \<open>1/1\<close> (or \<open>1/2\<close>), with an error of a third (or two thirds), against
  the 3 percent of the comment in the source.
\<close>

theorem findFraction_at_three_halves:
  "31 / 64 \<le> (3 / 2 :: rat) \<and> (3 / 2 :: rat) \<le> 64 / 31 \<and>
   findFraction 0 (3 / 2) = \<lparr>denominator = 1, numerator = 1\<rparr> \<and>
   relative_error (findFraction 0 (3 / 2)) (3 / 2) = 1 / 3 \<and>
   findFraction (- 1) (3 / 2) = \<lparr>denominator = 2, numerator = 1\<rparr> \<and>
   relative_error (findFraction (- 1) (3 / 2)) (3 / 2) = 2 / 3"
  by code_simp

section \<open>The two conversion scenarios\<close>

lemmas adapter_defs = call_adapter_def expand8BitTo16BitSys_def expand8BitTo16BitWrong_def
  swapBytes_def cut16BitSysTo8Bit_def cut16BitWrongTo8Bit_def changeSigned_def
  changeSigned16BitSys_def changeSigned16BitWrong_def changeSigned8Bit_def
  convertStereoToMonoS16Bit_def convertStereoToMonoU16Bit_def convertStereoToMonoS8Bit_def
  convertStereoToMonoU8Bit_def convertMonoToStereo16Bit_def convertMonoToStereo8Bit_def
  minus5dB_def cutFloatTo16Bit_def expand16BitToFloat_def

lemma build_u8_s16sys:
  "BuildAudioCVT be (Some zeroed_cvt) \<lparr>freq = 22050, format = AUDIO_U8, channels = 1\<rparr>
       \<lparr>freq = 22050, format = AUDIO_S16SYS be, channels = 1\<rparr> =
     Some (0, Some (zeroed_cvt\<lparr>len_mult := 2, add := 0,
        adapter := (adapter zeroed_cvt)(0 \<mapsto> A_changeSigned8Bit,
                      1 \<mapsto> A_expand8BitTo16BitWrong, 2 := None)\<rparr>))"
  by (cases be) (simp_all add: builder_defs format_defs zeroed_cvt_def)

lemma run_u8_s16sys:
  "run_adapters X be mode [A_changeSigned8Bit, A_expand8BitTo16BitWrong]
       [0, 128, 255, 64, 0, 0, 0, 0] 4 = Some (bytes16 be [128, 0, 127, 192], 8)"
  by (cases be)
     (simp_all add: adapter_defs buffer_defs bytes16_def for_down_numeral for_down_one
        for_up.simps)

text \<open>
  Claim C7 fails on the code. For unsigned 8-bit mono to signed 16-bit mono in the
  machine's byte order, both at 22050 Hz, the plan has two stages, but the second is
  \<^verbatim>\<open>expand8BitTo16BitWrong\<close>: the macro \<^verbatim>\<open>IS_SYSENDIAN\<close> is non-zero exactly for the formats
  whose byte order is not the machine's. The buffer \<open>[0, 128, 255, 64]\<close> becomes the
  16-bit samples \<open>[128, 0, 127, 192]\<close> and not \<open>[-32768, 0, 32512, -16384]\<close>.
\<close>

theorem u8_to_s16sys_scenario:
  "\<exists>Data'. BuildAudioCVT be (Some zeroed_cvt)
              \<lparr>freq = 22050, format = AUDIO_U8, channels = 1\<rparr>
              \<lparr>freq = 22050, format = AUDIO_S16SYS be, channels = 1\<rparr> = Some (0, Some Data') \<and>
     plan_of Data' = [A_changeSigned8Bit, A_expand8BitTo16BitWrong] \<and>
     ConvertAudio X be (Some Data') (Some [0, 128, 255, 64, 0, 0, 0, 0]) 4 0 =
       Inr (bytes16 be [128, 0, 127, 192], 8) \<and>
     bytes16 be [128, 0, 127, 192] \<noteq> bytes16 be [- 32768, 0, 32512, - 16384]"
proof -
  let ?D = "zeroed_cvt\<lparr>len_mult := 2, add := 0,
        adapter := (adapter zeroed_cvt)(0 \<mapsto> A_changeSigned8Bit,
                      1 \<mapsto> A_expand8BitTo16BitWrong, 2 := None)\<rparr>"
  have p: "plan_of ?D = [A_changeSigned8Bit, A_expand8BitTo16BitWrong]"
    by (simp add: plan_of_def adapters_from_numeral)
  have c: "ConvertAudio X be (Some ?D) (Some [0, 128, 255, 64, 0, 0, 0, 0]) 4 0 =
       Inr (bytes16 be [128, 0, 127, 192], 8)"
    by (subst ConvertAudio_plan) (simp_all add: p run_u8_s16sys del: run_adapters.simps)
  have n: "bytes16 be [128, 0, 127, 192] \<noteq> bytes16 be [- 32768, 0, 32512, - 16384]"
    by (simp add: bytes16_def hi8_def lo8_def)
  show ?thesis using build_u8_s16sys p c n by blast
qed

lemma build_s16sys_stereo_mono:
  "BuildAudioCVT be (Some zeroed_cvt) \<lparr>freq = 44100, format = AUDIO_S16SYS be, channels = 2\<rparr>
       \<lparr>freq = 44100, format = AUDIO_S16SYS be, channels = 1\<rparr> =
     Some (0, Some (zeroed_cvt\<lparr>len_mult := 1 / 2, add := 0,
        adapter := (adapter zeroed_cvt)(0 \<mapsto> A_swapBytes,
                      1 \<mapsto> A_convertStereoToMonoS16Bit, 2 \<mapsto> A_swapBytes, 3 := None)\<rparr>))"
  by (cases be) (simp_all add: builder_defs format_defs zeroed_cvt_def)

lemma run_s16sys_stereo_mono:
  "\<exists>rest. run_adapters X be mode [A_swapBytes, A_convertStereoToMonoS16Bit, A_swapBytes]
       (bytes16 be [100, 200, - 50, 50]) 8 = Some (bytes16 be [22, 32512] @ rest, 4)"
  by (cases be)
     (simp_all add: adapter_defs buffer_defs bytes16_def for_down_numeral for_down_one
        for_up.simps)

lemma build_s16_other_stereo_mono:
  "BuildAudioCVT be (Some zeroed_cvt)
       \<lparr>freq = 44100, format = AUDIO_S16SYS (\<not> be), channels = 2\<rparr>
       \<lparr>freq = 44100, format = AUDIO_S16SYS (\<not> be), channels = 1\<rparr> =
     Some (0, Some (zeroed_cvt\<lparr>len_mult := 1 / 2, add := 0,
        adapter := (adapter zeroed_cvt)(0 \<mapsto> A_convertStereoToMonoS16Bit, 1 := None)\<rparr>))"
  by (cases be) (simp_all add: builder_defs format_defs zeroed_cvt_def)

lemma run_s16_other_stereo_mono:
  "\<exists>rest. run_adapters X be mode [A_convertStereoToMonoS16Bit]
       (bytes16 (\<not> be) [100, 200, - 50, 50]) 8 = Some (bytes16 (\<not> be) [22, 32512] @ rest, 4)"
  by (cases be)
     (simp_all add: adapter_defs buffer_defs bytes16_def for_down_numeral for_down_one
        for_up.simps)

text \<open>
  Claim C8 fails on the code. For signed 16-bit stereo to signed 16-bit mono at 44100 Hz,
  both in the machine's byte order, the plan has three stages (a byte swap, the
  averaging adapter, a byte swap) and the frames \<open>[(100, 200), (-50, 50)]\<close> become
  \<open>[22, 32512]\<close>; with both descriptors in the other byte order the plan is the averaging
  adapter alone, which then averages samples it reads byte-swapped, with the same
  result. Neither gives \<open>[150, 0]\<close>.
\<close>

theorem s16_stereo_to_mono_scenario:
  "(\<exists>Data' rest. BuildAudioCVT be (Some zeroed_cvt)
              \<lparr>freq = 44100, format = AUDIO_S16SYS be, channels = 2\<rparr>
              \<lparr>freq = 44100, format = AUDIO_S16SYS be, channels = 1\<rparr> = Some (0, Some Data') \<and>
     plan_of Data' = [A_swapBytes, A_convertStereoToMonoS16Bit, A_swapBytes] \<and>
     ConvertAudio X be (Some Data') (Some (bytes16 be [100, 200, - 50, 50])) 8 0 =
       Inr (bytes16 be [22, 32512] @ rest, 4)) \<and>
   (\<exists>Data' rest. BuildAudioCVT be (Some zeroed_cvt)
              \<lparr>freq = 44100, format = AUDIO_S16SYS (\<not> be), channels = 2\<rparr>
              \<lparr>freq = 44100, format = AUDIO_S16SYS (\<not> be), channels = 1\<rparr> =
                Some (0, Some Data') \<and>
     plan_of Data' = [A_convertStereoToMonoS16Bit] \<and>
     ConvertAudio X be (Some Data') (Some (bytes16 (\<not> be) [100, 200, - 50, 50])) 8 0 =
       Inr (bytes16 (\<not> be) [22, 32512] @ rest, 4)) \<and>
   bytes16 be [22, 32512] \<noteq> bytes16 be [150, 0]"
proof -
  let ?D = "zeroed_cvt\<lparr>len_mult := 1 / 2, add := 0,
        adapter := (adapter zeroed_cvt)(0 \<mapsto> A_swapBytes,
                      1 \<mapsto> A_convertStereoToMonoS16Bit, 2 \<mapsto> A_swapBytes, 3 := None)\<rparr>"
  have p: "plan_of ?D = [A_swapBytes, A_convertStereoToMonoS16Bit, A_swapBytes]"
    by (simp add: plan_of_def adapters_from_numeral)
  obtain rest where r: "run_adapters X be 0 [A_swapBytes, A_convertStereoToMonoS16Bit, A_swapBytes]
       (bytes16 be [100, 200, - 50, 50]) 8 = Some (bytes16 be [22, 32512] @ rest, 4)"
    using run_s16sys_stereo_mono by blast
  have c: "ConvertAudio X be (Some ?D) (Some (bytes16 be [100, 200, - 50, 50])) 8 0 =
       Inr (bytes16 be [22, 32512] @ rest, 4)"
    by (subst ConvertAudio_plan) (simp_all add: p r del: run_adapters.simps)
  let ?E = "zeroed_cvt\<lparr>len_mult := 1 / 2, add := 0,
        adapter := (adapter zeroed_cvt)(0 \<mapsto> A_convertStereoToMonoS16Bit, 1 := None)\<rparr>"
  have q: "plan_of ?E = [A_convertStereoToMonoS16Bit]"
    by (simp add: plan_of_def adapters_from_numeral)
  obtain rest' where r': "run_adapters X be 0 [A_convertStereoToMonoS16Bit]
       (bytes16 (\<not> be) [100, 200, - 50, 50]) 8 = Some (bytes16 (\<not> be) [22, 32512] @ rest', 4)"
    using run_s16_other_stereo_mono by blast
  have c': "ConvertAudio X be (Some ?E) (Some (bytes16 (\<not> be) [100, 200, - 50, 50])) 8 0 =
       Inr (bytes16 (\<not> be) [22, 32512] @ rest', 4)"
    by (subst ConvertAudio_plan) (simp_all add: q r' del: run_adapters.simps)
  have n: "bytes16 be [22, 32512] \<noteq> bytes16 be [150, 0]"
    by (simp add: bytes16_def hi8_def lo8_def)
  show ?thesis
    using build_s16sys_stereo_mono p c build_s16_other_stereo_mono q c' n by blast
qed

section \<open>Converting a format to itself\<close>

lemma plan_of_empty: "adapter D 0 = None \<Longrightarrow> plan_of D = []"
  by (simp add: plan_of_def adapters_from_numeral)

text \<open>
  Claim C4, as amended. For every descriptor \<open>d\<close> with one or two channels and an integer
  format (no float bit, and not both width bits), whatever its rate, the plan that
  \<^verbatim>\<open>BuildAudioCVT\<close> builds from \<open>d\<close> to \<open>d\<close> is empty, and \<^verbatim>\<open>ConvertAudio\<close> returns the length
  it was given and leaves every byte of the buffer as it was, for every buffer and every
  length.
\<close>

theorem identity_plan_is_noop:
  assumes "channels d = 1 \<or> channels d = 2" and "\<not> IS_FLOAT d"
    and "\<not> (IS_8BIT d \<and> IS_16BIT d)"
  shows "\<exists>Data'. BuildAudioCVT be (Some Data) d d = Some (0, Some Data') \<and>
           plan_of Data' = [] \<and>
           ConvertAudio X be (Some Data') (Some b) len mode = Inr (b, len)"
proof -
  let ?D = "Data\<lparr>len_mult := 1, add := 0, adapter := (adapter Data)(0 := None)\<rparr>"
  have b: "BuildAudioCVT be (Some Data) d d = Some (0, Some ?D)"
    using assms by (auto simp: builder_defs)
  have z: "adapter ?D 0 = None" by simp
  have "ConvertAudio X be (Some ?D) (Some b) len mode = Inr (b, len)"
    by (simp add: ConvertAudio_def ConvertAudio_loop_sentinel[OF z])
  then show ?thesis using b plan_of_empty[OF z] by blast
qed

theorem identity_plan_is_noop_witness:
  "\<exists>Data'. BuildAudioCVT False (Some zeroed_cvt)
        \<lparr>freq = 44100, format = AUDIO_S16LSB, channels = 2\<rparr>
        \<lparr>freq = 44100, format = AUDIO_S16LSB, channels = 2\<rparr> = Some (0, Some Data') \<and>
     plan_of Data' = [] \<and>
     ConvertAudio \<lparr>rate_adapter = (\<lambda>a m b n. None), scale_float = (\<lambda>w. 0),
         unscale_s16 = (\<lambda>v. 0)\<rparr> False (Some Data') (Some [1, 2, 3, 4]) 4 0 = Inr ([1, 2, 3, 4], 4)"
  by (rule identity_plan_is_noop) (simp_all add: format_defs)

lemma build_float_float:
  "BuildAudioCVT be (Some zeroed_cvt) \<lparr>freq = 44100, format = 0x8120, channels = 1\<rparr>
       \<lparr>freq = 44100, format = 0x8120, channels = 1\<rparr> =
     Some (0, Some (zeroed_cvt\<lparr>len_mult := 1, add := 0,
        adapter := (adapter zeroed_cvt)(0 \<mapsto> A_cutFloatTo16Bit,
                      1 \<mapsto> A_expand16BitToFloat, 2 := None)\<rparr>))"
  by (simp add: builder_defs format_defs zeroed_cvt_def)

lemma run_float_clamped:
  "run_adapters X be mode [A_cutFloatTo16Bit, A_expand16BitToFloat] (bytes32 be [0x40000000]) 4 =
   run_adapters X be mode [A_cutFloatTo16Bit, A_expand16BitToFloat] (bytes32 be [0x40800000]) 4"
  by (cases be)
     (simp_all add: adapter_defs buffer_defs bytes32_def for_down_numeral for_down_one
        for_up.simps float_gt_one_def)

text \<open>
  Claim C4 as stated fails for a floating-point descriptor (here the format word
  \<open>0x8120\<close>, 32-bit float): the plan from \<open>d\<close> to \<open>d\<close> has the two stages
  \<^verbatim>\<open>cutFloatTo16Bit\<close> and \<^verbatim>\<open>expand16BitToFloat\<close>. The floats 2.0 (\<open>0x40000000\<close>) and 4.0
  (\<open>0x40800000\<close>) are both cut to 32767, so the two one-sample buffers come out equal:
  whatever the floating-point arithmetic gives, at least one of them is changed.
\<close>

theorem identity_fails_for_float:
  "\<forall>X be. \<exists>Data'.
     BuildAudioCVT be (Some zeroed_cvt) \<lparr>freq = 44100, format = 0x8120, channels = 1\<rparr>
       \<lparr>freq = 44100, format = 0x8120, channels = 1\<rparr> = Some (0, Some Data') \<and>
     plan_of Data' = [A_cutFloatTo16Bit, A_expand16BitToFloat] \<and>
     \<not> (ConvertAudio X be (Some Data') (Some (bytes32 be [0x40000000])) 4 0 =
          Inr (bytes32 be [0x40000000], 4) \<and>
        ConvertAudio X be (Some Data') (Some (bytes32 be [0x40800000])) 4 0 =
          Inr (bytes32 be [0x40800000], 4))"
proof (intro allI)
  fix X be
  let ?D = "zeroed_cvt\<lparr>len_mult := 1, add := 0,
        adapter := (adapter zeroed_cvt)(0 \<mapsto> A_cutFloatTo16Bit,
                      1 \<mapsto> A_expand16BitToFloat, 2 := None)\<rparr>"
  have p: "plan_of ?D = [A_cutFloatTo16Bit, A_expand16BitToFloat]"
    by (simp add: plan_of_def adapters_from_numeral)
  have c: "ConvertAudio X be (Some ?D) (Some (bytes32 be [0x40000000])) 4 0 =
           ConvertAudio X be (Some ?D) (Some (bytes32 be [0x40800000])) 4 0"
    by (simp add: ConvertAudio_plan p run_float_clamped del: run_adapters.simps)
  have n: "bytes32 be [0x40000000] \<noteq> bytes32 be [0x40800000]"
    by (simp add: bytes32_def byte32_def)
  show "\<exists>Data'.
     BuildAudioCVT be (Some zeroed_cvt) \<lparr>freq = 44100, format = 0x8120, channels = 1\<rparr>
       \<lparr>freq = 44100, format = 0x8120, channels = 1\<rparr> = Some (0, Some Data') \<and>
     plan_of Data' = [A_cutFloatTo16Bit, A_expand16BitToFloat] \<and>
     \<not> (ConvertAudio X be (Some Data') (Some (bytes32 be [0x40000000])) 4 0 =
          Inr (bytes32 be [0x40000000], 4) \<and>
        ConvertAudio X be (Some Data') (Some (bytes32 be [0x40800000])) 4 0 =
          Inr (bytes32 be [0x40800000], 4))"
    using build_float_float p c n by (intro exI[of _ ?D]) auto
qed

section \<open>Bytes and words\<close>

lemma hi8_join16 [simp]: "hi8 (join16 h l) = h"
  unfolding hi8_def join16_def
  by (rule bit_word_eqI) (auto simp: bit_simps dest: bit_imp_le_length)

lemma lo8_join16 [simp]: "lo8 (join16 h l) = l"
  unfolding lo8_def join16_def
  by (rule bit_word_eqI) (auto simp: bit_simps dest: bit_imp_le_length)

lemma join16_hi8_lo8 [simp]: "join16 (hi8 v) (lo8 v) = v"
  unfolding hi8_def lo8_def join16_def
  by (rule bit_word_eqI) (auto simp: bit_simps dest: bit_imp_le_length)

lemma join16_swap: "push_bit 8 (join16 h l) OR drop_bit 8 (join16 h l) = join16 l h"
  unfolding join16_def
  by (rule bit_word_eqI) (auto simp: bit_simps dest: bit_imp_le_length)

lemma join16_xor: "join16 h l XOR join16 h' l' = join16 (h XOR h') (l XOR l')"
  unfolding join16_def
  by (rule bit_word_eqI) (auto simp: bit_simps dest: bit_imp_le_length)

lemma byte32_join32:
  "byte32 0 (join32 b3 b2 b1 b0) = b0" "byte32 1 (join32 b3 b2 b1 b0) = b1"
  "byte32 2 (join32 b3 b2 b1 b0) = b2" "byte32 3 (join32 b3 b2 b1 b0) = b3"
  unfolding byte32_def join32_def
  by (rule bit_word_eqI; auto simp: bit_simps dest: bit_imp_le_length)+

lemma byte32_xor: "byte32 k (v XOR w) = byte32 k v XOR byte32 k w"
  unfolding byte32_def
  by (rule bit_word_eqI) (auto simp: bit_simps dest: bit_imp_le_length)

lemma join16_inject: "join16 h l = join16 h' l' \<longleftrightarrow> h = h' \<and> l = l'"
  by (metis hi8_join16 lo8_join16)

section \<open>The plans of the format converters, as lists\<close>

lemma stored_append:
  "0 \<le> snd s \<Longrightarrow> stored (append_adapter a s) = stored s @ [Some a]"
  by (cases s) (auto simp: stored_def append_adapter_def nat_add_distrib)

lemma stored_halve [simp]: "stored (halve_size s) = stored s"
  by (simp add: stored_def)

lemma stored_double [simp]: "stored (double_size s) = stored s"
  by (simp add: stored_def)

lemma len_mult_append [simp]: "len_mult (fst (append_adapter a s)) = len_mult (fst s)"
  by (cases s) (simp add: append_adapter_def)

lemma len_mult_halve [simp]: "len_mult (fst (halve_size s)) = len_mult (fst s) / 2"
  by (cases s) (simp add: halve_size_def)

lemma len_mult_double [simp]: "len_mult (fst (double_size s)) = len_mult (fst s) * 2"
  by (cases s) (simp add: double_size_def)

lemma add_append [simp]: "add (fst (append_adapter a s)) = add (fst s)"
  by (cases s) (simp add: append_adapter_def)

lemma add_halve [simp]: "add (fst (halve_size s)) = add (fst s) sdiv 2"
  by (cases s) (simp add: halve_size_def)

lemma add_double [simp]: "add (fst (double_size s)) = add (fst s) * 2"
  by (cases s) (simp add: double_size_def)

lemma built_append: "built s xs m \<Longrightarrow> built (append_adapter a s) (xs @ [a]) m"
  by (simp add: built_def stored_append)

lemma built_halve: "built s xs m \<Longrightarrow> built (halve_size s) xs (m / 2)"
  by (simp add: built_def)

lemma built_double: "built s xs m \<Longrightarrow> built (double_size s) xs (m * 2)"
  by (simp add: built_def)

lemma built_16:
  assumes "built s xs m"
  shows "built (createFormatConverter16Bit be s src dst)
           (xs @ fmt16_shrink be src dst @ fmt16_grow src dst)
           (m * prod_list (map factor (fmt16_shrink be src dst @ fmt16_grow src dst)))"
  using assms
  by (simp add: createFormatConverter16Bit_def fmt16_shrink_def fmt16_grow_def Let_def)
     (auto simp: built_def stored_append)

lemma built_8:
  assumes "built s xs m"
  shows "built (createFormatConverter8Bit be s src dst)
           (xs @ fmt8_shrink be src dst @ fmt8_grow be src dst)
           (m * prod_list (map factor (fmt8_shrink be src dst @ fmt8_grow be src dst)))"
  using assms
  by (simp add: createFormatConverter8Bit_def fmt8_shrink_def fmt8_grow_def Let_def)
     (auto simp: built_def stored_append)

lemma built_fmt:
  assumes "built s xs m"
  shows "built (createFormatConverter be s src dst)
           (xs @ fmt_shrink be src dst @ fmt_grow be src dst)
           (m * prod_list (map factor (fmt_shrink be src dst @ fmt_grow be src dst)))"
proof -
  let ?s1 = "if IS_FLOAT src then halve_size (append_adapter A_cutFloatTo16Bit s) else s"
  let ?x1 = "xs @ (if IS_FLOAT src then [A_cutFloatTo16Bit] else [])"
  let ?m1 = "m * (if IS_FLOAT src then 1 / 2 else 1)"
  have b1: "built ?s1 ?x1 ?m1"
    using assms built_halve[OF built_append[OF assms, of A_cutFloatTo16Bit]] by simp
  let ?s2 = "if IS_8BIT src \<or> IS_8BIT dst then createFormatConverter8Bit be ?s1 src dst
               else createFormatConverter16Bit be ?s1 src dst"
  let ?c = "if IS_8BIT src \<or> IS_8BIT dst then fmt8_shrink be src dst @ fmt8_grow be src dst
               else fmt16_shrink be src dst @ fmt16_grow src dst"
  have b2: "built ?s2 (?x1 @ ?c) (?m1 * prod_list (map factor ?c))"
    using built_8[OF b1, of be src dst] built_16[OF b1, of be src dst] by simp
  let ?s3 = "if IS_FLOAT dst then double_size (append_adapter A_expand16BitToFloat ?s2) else ?s2"
  let ?x3 = "?x1 @ ?c @ (if IS_FLOAT dst then [A_expand16BitToFloat] else [])"
  let ?m3 = "?m1 * prod_list (map factor ?c) * (if IS_FLOAT dst then 2 else 1)"
  have b3: "built ?s3 ?x3 ?m3"
    using b2 built_double[OF built_append[OF b2, of A_expand16BitToFloat]] by simp
  have s: "createFormatConverter be s src dst = ?s3"
    by (simp add: createFormatConverter_def Let_def)
  have x: "xs @ fmt_shrink be src dst @ fmt_grow be src dst = ?x3"
    by (simp add: fmt_shrink_def fmt_grow_def)
  have m: "m * prod_list (map factor (fmt_shrink be src dst @ fmt_grow be src dst)) = ?m3"
    by (simp add: fmt_shrink_def fmt_grow_def)
  show ?thesis unfolding s x m by (rule b3)
qed

lemma fmt_length: "length (fmt_shrink be src dst @ fmt_grow be src dst) \<le> 7"
  by (simp add: fmt_shrink_def fmt_grow_def fmt8_shrink_def fmt8_grow_def fmt16_shrink_def
        fmt16_grow_def)

lemma adapters_from_exact:
  "(\<forall>k < length xs. f (i + int k) = Some (xs ! k)) \<Longrightarrow> f (i + int (length xs)) = None \<Longrightarrow>
     length xs < m \<Longrightarrow> adapters_from f i m = xs"
proof (induction xs arbitrary: i m)
  case Nil
  then show ?case by (cases m) auto
next
  case (Cons x xs)
  obtain m' where m: "m = Suc m'" using Cons.prems(3) by (cases m) auto
  have x: "f i = Some x" using Cons.prems(1) by force
  have "adapters_from f (i + 1) m' = xs"
  proof (rule Cons.IH)
    show "\<forall>k<length xs. f (i + 1 + int k) = Some (xs ! k)"
    proof (intro allI impI)
      fix k assume "k < length xs"
      then have "f (i + int (Suc k)) = Some ((x # xs) ! Suc k)" using Cons.prems(1) by force
      then show "f (i + 1 + int k) = Some (xs ! k)" by (simp add: add.assoc)
    qed
    show "f (i + 1 + int (length xs)) = None" using Cons.prems(2) by (simp add: add.assoc)
    show "length xs < m'" using Cons.prems(3) m by simp
  qed
  then show ?case using x m by simp
qed

lemma plan_of_built:
  assumes "built (D, n) xs m" and "length xs < 32"
  shows "plan_of (D\<lparr>adapter := (adapter D)(n := None)\<rparr>) = xs"
proof -
  have n: "nat n = length xs" "0 \<le> n"
    using assms(1) by (auto simp: built_def stored_def dest: arg_cong[where f = length])
  have st: "\<forall>k < length xs. adapter D (int k) = Some (xs ! k)"
  proof (intro allI impI)
    fix k assume k: "k < length xs"
    have "stored (D, n) ! k = map Some xs ! k" using assms(1) by (simp add: built_def)
    then show "adapter D (int k) = Some (xs ! k)" using k n by (simp add: stored_def)
  qed
  show ?thesis
    unfolding plan_of_def
  proof (rule adapters_from_exact)
    show "\<forall>k<length xs. adapter (D\<lparr>adapter := (adapter D)(n := None)\<rparr>) (0 + int k) = Some (xs ! k)"
      using st n by auto
    show "adapter (D\<lparr>adapter := (adapter D)(n := None)\<rparr>) (0 + int (length xs)) = None"
      using n by auto
    show "length xs < 32" by (rule assms(2))
  qed
qed

lemma BuildAudioCVT_same_rate:
  assumes "BuildAudioCVT be (Some Data) src dst = Some (0, Some Data')"
    and "freq src = freq dst"
  shows "plan_of Data' = fmt_shrink be src dst @ fmt_grow be src dst \<and>
         len_mult Data' = prod_list (map factor (fmt_shrink be src dst @ fmt_grow be src dst)) \<and>
         add Data' = 0"
proof -
  let ?D0 = "Data\<lparr>len_mult := 1, add := 0\<rparr>"
  let ?xs = "fmt_shrink be src dst @ fmt_grow be src dst"
  obtain D1 n where s: "createFormatConverter be (?D0, 0) src dst = (D1, n)"
    by (cases "createFormatConverter be (?D0, 0) src dst") auto
  have "built (?D0, 0) [] 1" by (simp add: built_def stored_def)
  from built_fmt[OF this, of be src dst]
  have b: "built (D1, n) ?xs (prod_list (map factor ?xs))" using s by simp
  have chan: "\<not> (channels src < 1 \<or> channels src > 2 \<or> channels dst < 1 \<or> channels dst > 2)"
    using assms(1) by (auto simp: BuildAudioCVT_def Let_def split: if_splits)
  have D': "Data' = D1\<lparr>adapter := (adapter D1)(n := None)\<rparr>"
    using assms chan s by (simp add: BuildAudioCVT_def Let_def)
  have "length ?xs < 32" using fmt_length[of be src dst] by simp
  then have "plan_of Data' = ?xs" unfolding D' by (rule plan_of_built[OF b])
  then show ?thesis using b by (simp add: D' built_def)
qed

section \<open>The buffer that a plan needs\<close>

lemma doubleRate_loop_stop:
  "\<not> 64 / 31 < r \<Longrightarrow> doubleRate_loop Mono (D, fi, r) = (D, fi, r)"
  by (simp add: doubleRate_loop.simps)

lemma halfRate_loop_stop:
  "\<not> r < 31 / 64 \<Longrightarrow> halfRate_loop Mono (D, fi, r) = Some (D, fi, r)"
  by (subst halfRate_loop.simps) simp

lemma build_u8_half_rate:
  "BuildAudioCVT be (Some zeroed_cvt) \<lparr>freq = 44100, format = AUDIO_U8, channels = 1\<rparr>
       \<lparr>freq = 22050, format = AUDIO_U8, channels = 1\<rparr> =
     Some (0, Some (zeroed_cvt\<lparr>len_mult := 1, add := 0,
        adapter := (adapter zeroed_cvt)(0 \<mapsto> A_changeSigned8Bit,
                      1 \<mapsto> A_expand8BitTo16BitWrong, 2 \<mapsto> A_minus5dB,
                      3 \<mapsto> A_varRateDownMono, 4 \<mapsto> A_cut16BitWrongTo8Bit,
                      5 \<mapsto> A_changeSigned8Bit, 6 := None)\<rparr>))"
  by (cases be)
     (simp_all add: builder_defs format_defs zeroed_cvt_def createRateConverter_def
        doubleRate_loop_stop halfRate_loop_stop)

lemma run_u8_expand_overrun:
  "\<exists>b'. run_adapters X be mode [A_changeSigned8Bit, A_expand8BitTo16BitWrong]
       [1, 2, 3, 4, 9, 9, 9, 9] 4 = Some (b', 8) \<and>
     b' ! 4 \<noteq> 9 \<and> b' ! 5 \<noteq> 9 \<and> b' ! 6 \<noteq> 9 \<and> b' ! 7 \<noteq> 9"
  by (cases be)
     (simp_all add: adapter_defs buffer_defs for_down_numeral for_down_one for_up.simps)

lemma run_u8_half_rate_short:
  "run_adapters X be mode
     [A_changeSigned8Bit, A_expand8BitTo16BitWrong, A_minus5dB, A_varRateDownMono,
      A_cut16BitWrongTo8Bit, A_changeSigned8Bit] [1, 2, 3, 4] 4 = None"
  by (cases be)
     (simp_all add: adapter_defs buffer_defs for_down_numeral for_down_one for_up.simps)

text \<open>
  Claim C1 fails on the code. The header says of \<^verbatim>\<open>len_mult\<close>: ``buffer must be
  len*len_mult big''. The builder multiplies and divides \<^verbatim>\<open>len_mult\<close> by 2 as it appends
  adapters, so the plan holds the ratio of the last length to the first, not the
  largest length on the way. From unsigned 8-bit mono at 44100 Hz to the same format at
  22050 Hz the plan is: flip the sign, expand to 16 bits, attenuate, resample, cut to 8
  bits, flip the sign; \<^verbatim>\<open>len_mult\<close> is 1 and \<^verbatim>\<open>add\<close> is 0. For 4 bytes of input the bound of the
  claim is 4 bytes, but the second adapter writes the bytes 4 to 7: on a buffer of 8
  bytes it changes them, on a buffer of 4 bytes it leaves the buffer.
\<close>

theorem len_mult_under_allocates:
  "\<forall>X be. \<exists>P b'.
     BuildAudioCVT be (Some zeroed_cvt)
        \<lparr>freq = 44100, format = AUDIO_U8, channels = 1\<rparr>
        \<lparr>freq = 22050, format = AUDIO_U8, channels = 1\<rparr> = Some (0, Some P) \<and>
     plan_of P = [A_changeSigned8Bit, A_expand8BitTo16BitWrong, A_minus5dB, A_varRateDownMono,
                  A_cut16BitWrongTo8Bit, A_changeSigned8Bit] \<and>
     len_mult P = 1 \<and> add P = 0 \<and>
     nat \<lceil>of_nat 4 * len_mult P\<rceil> + nat (add P) = 4 \<and>
     run_adapters X be 0 [A_changeSigned8Bit, A_expand8BitTo16BitWrong]
        [1, 2, 3, 4, 9, 9, 9, 9] 4 = Some (b', 8) \<and>
     b' ! 4 \<noteq> 9 \<and> b' ! 5 \<noteq> 9 \<and> b' ! 6 \<noteq> 9 \<and> b' ! 7 \<noteq> 9 \<and>
     ConvertAudio X be (Some P) (Some [1, 2, 3, 4]) 4 0 = Inl Undefined_behaviour"
proof (intro allI)
  fix X be
  let ?P = "zeroed_cvt\<lparr>len_mult := 1, add := 0,
        adapter := (adapter zeroed_cvt)(0 \<mapsto> A_changeSigned8Bit,
                      1 \<mapsto> A_expand8BitTo16BitWrong, 2 \<mapsto> A_minus5dB,
                      3 \<mapsto> A_varRateDownMono, 4 \<mapsto> A_cut16BitWrongTo8Bit,
                      5 \<mapsto> A_changeSigned8Bit, 6 := None)\<rparr>"
  have p: "plan_of ?P = [A_changeSigned8Bit, A_expand8BitTo16BitWrong, A_minus5dB,
                  A_varRateDownMono, A_cut16BitWrongTo8Bit, A_changeSigned8Bit]"
    by (simp add: plan_of_def adapters_from_numeral)
  obtain b' where r: "run_adapters X be 0 [A_changeSigned8Bit, A_expand8BitTo16BitWrong]
       [1, 2, 3, 4, 9, 9, 9, 9] 4 = Some (b', 8)"
      "b' ! 4 \<noteq> 9" "b' ! 5 \<noteq> 9" "b' ! 6 \<noteq> 9" "b' ! 7 \<noteq> 9"
    using run_u8_expand_overrun by blast
  have c: "ConvertAudio X be (Some ?P) (Some [1, 2, 3, 4]) 4 0 = Inl Undefined_behaviour"
    by (simp add: ConvertAudio_plan p run_u8_half_rate_short del: run_adapters.simps)
  have n: "nat \<lceil>of_nat 4 * len_mult ?P\<rceil> + nat (add ?P) = 4" by simp
  show "\<exists>P b'.
     BuildAudioCVT be (Some zeroed_cvt)
        \<lparr>freq = 44100, format = AUDIO_U8, channels = 1\<rparr>
        \<lparr>freq = 22050, format = AUDIO_U8, channels = 1\<rparr> = Some (0, Some P) \<and>
     plan_of P = [A_changeSigned8Bit, A_expand8BitTo16BitWrong, A_minus5dB, A_varRateDownMono,
                  A_cut16BitWrongTo8Bit, A_changeSigned8Bit] \<and>
     len_mult P = 1 \<and> add P = 0 \<and>
     nat \<lceil>of_nat 4 * len_mult P\<rceil> + nat (add P) = 4 \<and>
     run_adapters X be 0 [A_changeSigned8Bit, A_expand8BitTo16BitWrong]
        [1, 2, 3, 4, 9, 9, 9, 9] 4 = Some (b', 8) \<and>
     b' ! 4 \<noteq> 9 \<and> b' ! 5 \<noteq> 9 \<and> b' ! 6 \<noteq> 9 \<and> b' ! 7 \<noteq> 9 \<and>
     ConvertAudio X be (Some P) (Some [1, 2, 3, 4]) 4 0 = Inl Undefined_behaviour"
    using build_u8_half_rate p c n r
    by (intro exI[of _ ?P] exI[of _ b']) simp
qed

lemma run_beyond_bound:
  "\<exists>b'. run_adapters X be mode [A_swapBytes, A_convertStereoToMonoS16Bit, A_swapBytes]
       [1, 2, 3, 4] 4 = Some (b', 2) \<and> b' ! 2 = 4 \<and> b' ! 3 = 3"
  by (cases be)
     (simp_all add: adapter_defs buffer_defs for_down_numeral for_down_one for_up.simps)

lemma run_short_buffer:
  "run_adapters X be mode [A_swapBytes, A_convertStereoToMonoS16Bit, A_swapBytes]
       [1, 2, 3] 4 = None"
  by (simp add: adapter_defs buffer_defs for_down_numeral for_down_one for_up.simps)

text \<open>
  A plan that only shrinks shows the same. From 16-bit stereo to 16-bit mono, both in
  the machine's byte order, \<^verbatim>\<open>len_mult\<close> is \<open>1/2\<close> and \<^verbatim>\<open>add\<close> is 0, so for 4 bytes of input
  \<open>length * len_mult + add\<close> is 2 bytes; the plan starts with a byte swap over all 4 bytes
  of input, which changes the bytes at index 2 and 3, and on a buffer of 3 bytes it
  leaves the buffer.
\<close>

lemma shrinking_plan_touches_input:
  "\<forall>X be. \<exists>Data' b'.
     BuildAudioCVT be (Some zeroed_cvt)
        \<lparr>freq = 44100, format = AUDIO_S16SYS be, channels = 2\<rparr>
        \<lparr>freq = 44100, format = AUDIO_S16SYS be, channels = 1\<rparr> = Some (0, Some Data') \<and>
     nat \<lceil>of_nat 4 * len_mult Data'\<rceil> + nat (add Data') = 2 \<and>
     ConvertAudio X be (Some Data') (Some [1, 2, 3, 4]) 4 0 = Inr (b', 2) \<and>
     b' ! 2 \<noteq> [1, 2, 3, 4] ! 2 \<and> b' ! 3 \<noteq> [1, 2, 3, 4] ! 3 \<and>
     ConvertAudio X be (Some Data') (Some [1, 2, 3]) 4 0 = Inl Undefined_behaviour"
proof (intro allI)
  fix X be
  let ?D = "zeroed_cvt\<lparr>len_mult := 1 / 2, add := 0,
        adapter := (adapter zeroed_cvt)(0 \<mapsto> A_swapBytes,
                      1 \<mapsto> A_convertStereoToMonoS16Bit, 2 \<mapsto> A_swapBytes, 3 := None)\<rparr>"
  have p: "plan_of ?D = [A_swapBytes, A_convertStereoToMonoS16Bit, A_swapBytes]"
    by (simp add: plan_of_def adapters_from_numeral)
  obtain b' where r: "run_adapters X be 0 [A_swapBytes, A_convertStereoToMonoS16Bit, A_swapBytes]
       [1, 2, 3, 4] 4 = Some (b', 2)" "b' ! 2 = 4" "b' ! 3 = 3"
    using run_beyond_bound by blast
  have c: "ConvertAudio X be (Some ?D) (Some [1, 2, 3, 4]) 4 0 = Inr (b', 2)"
    by (simp add: ConvertAudio_plan p r del: run_adapters.simps)
  have c': "ConvertAudio X be (Some ?D) (Some [1, 2, 3]) 4 0 = Inl Undefined_behaviour"
    by (simp add: ConvertAudio_plan p run_short_buffer del: run_adapters.simps)
  have n: "nat \<lceil>of_nat 4 * len_mult ?D\<rceil> + nat (add ?D) = 2" by simp
  show "\<exists>Data' b'.
     BuildAudioCVT be (Some zeroed_cvt)
        \<lparr>freq = 44100, format = AUDIO_S16SYS be, channels = 2\<rparr>
        \<lparr>freq = 44100, format = AUDIO_S16SYS be, channels = 1\<rparr> = Some (0, Some Data') \<and>
     nat \<lceil>of_nat 4 * len_mult Data'\<rceil> + nat (add Data') = 2 \<and>
     ConvertAudio X be (Some Data') (Some [1, 2, 3, 4]) 4 0 = Inr (b', 2) \<and>
     b' ! 2 \<noteq> [1, 2, 3, 4] ! 2 \<and> b' ! 3 \<noteq> [1, 2, 3, 4] ! 3 \<and>
     ConvertAudio X be (Some Data') (Some [1, 2, 3]) 4 0 = Inl Undefined_behaviour"
    using build_s16sys_stereo_mono c c' n r(2,3)
    by (intro exI[of _ ?D] exI[of _ b']) simp
qed

section \<open>Round trips between 16-bit integer formats\<close>

lemma get16_sample: "2 * i + 1 < length b \<Longrightarrow> get16 be b i = Some (sample16 be b i)"
  by (simp add: get16_def sample16_def)

lemma put16_sample:
  assumes "2 * i + 1 < length b"
  shows "\<exists>b1. put16 be b i v = Some b1 \<and> length b1 = length b \<and> sample16 be b1 i = v \<and>
           (\<forall>j. j \<noteq> i \<longrightarrow> sample16 be b1 j = sample16 be b j)"
proof -
  let ?b1 = "if be then b[2 * i := hi8 v, 2 * i + 1 := lo8 v]
             else b[2 * i := lo8 v, 2 * i + 1 := hi8 v]"
  have p: "put16 be b i v = Some ?b1" using assms by (simp add: put16_def)
  have l: "length ?b1 = length b" by simp
  have s: "sample16 be ?b1 i = v" using assms by (simp add: sample16_def)
  have o: "\<forall>j. j \<noteq> i \<longrightarrow> sample16 be ?b1 j = sample16 be b j"
  proof (intro allI impI)
    fix j :: nat assume "j \<noteq> i"
    then have "2 * j \<noteq> 2 * i" "2 * j \<noteq> 2 * i + 1" "2 * j + 1 \<noteq> 2 * i" "2 * j + 1 \<noteq> 2 * i + 1"
      by presburger+
    then show "sample16 be ?b1 j = sample16 be b j" by (simp add: sample16_def)
  qed
  show ?thesis using p l s o by blast
qed

lemma for_down_map16:
  assumes "2 * n \<le> length b"
  shows "\<exists>b'. for_down (\<lambda>i b. case get16 be b i of None \<Rightarrow> None
                               | Some v \<Rightarrow> put16 be b i (f v)) n b = Some b' \<and>
           length b' = length b \<and>
           (\<forall>i < n. sample16 be b' i = f (sample16 be b i)) \<and>
           (\<forall>i \<ge> n. sample16 be b' i = sample16 be b i)"
  using assms
proof (induction n arbitrary: b)
  case 0
  then show ?case by simp
next
  case (Suc n)
  have idx: "2 * n + 1 < length b" using Suc.prems by simp
  obtain b1 where b1: "put16 be b n (f (sample16 be b n)) = Some b1" "length b1 = length b"
      "sample16 be b1 n = f (sample16 be b n)"
      "\<forall>j. j \<noteq> n \<longrightarrow> sample16 be b1 j = sample16 be b j"
    using put16_sample[OF idx, of be "f (sample16 be b n)"] by blast
  have "2 * n \<le> length b1" using Suc.prems b1(2) by simp
  from Suc.IH[OF this] obtain b' where b':
      "for_down (\<lambda>i b. case get16 be b i of None \<Rightarrow> None
                               | Some v \<Rightarrow> put16 be b i (f v)) n b1 = Some b'"
      "length b' = length b1"
      "\<forall>i < n. sample16 be b' i = f (sample16 be b1 i)"
      "\<forall>i \<ge> n. sample16 be b' i = sample16 be b1 i"
    by blast
  have run: "for_down (\<lambda>i b. case get16 be b i of None \<Rightarrow> None
                               | Some v \<Rightarrow> put16 be b i (f v)) (Suc n) b = Some b'"
    using b1(1) b'(1) by (simp add: get16_sample[OF idx])
  have lo: "\<forall>i < Suc n. sample16 be b' i = f (sample16 be b i)"
  proof (intro allI impI)
    fix i assume "i < Suc n"
    show "sample16 be b' i = f (sample16 be b i)"
    proof (cases "i = n")
      case True
      then show ?thesis using b'(4) b1(3) by simp
    next
      case False
      then have "i < n" using \<open>i < Suc n\<close> by simp
      then show ?thesis using b'(3) b1(4) False by simp
    qed
  qed
  have hi: "\<forall>i \<ge> Suc n. sample16 be b' i = sample16 be b i"
    using b'(4) b1(4) by simp
  show ?case using run b'(2) b1(2) lo hi by simp
qed

lemma swapBytes_samples:
  assumes "len \<le> length b"
  shows "\<exists>b'. swapBytes be b len = Some (b', len) \<and> length b' = length b \<and>
           (\<forall>i < len div 2. sample16 be b' i = bswap16 (sample16 be b i))"
proof -
  have "2 * (len div 2) \<le> length b" using assms by simp
  from for_down_map16[OF this, of be "\<lambda>a. push_bit 8 a OR drop_bit 8 a"]
  show ?thesis by (auto simp: swapBytes_def bswap16_def)
qed

lemma bswap16_bswap16 [simp]: "bswap16 (bswap16 a) = a"
  unfolding bswap16_def
  by (rule bit_word_eqI) (auto simp: bit_simps dest: bit_imp_le_length)

lemma byte32_join32_Suc: "byte32 (Suc 0) (join32 b3 b2 b1 b0) = b1"
  using byte32_join32(2)[of b3 b2 b1 b0] by simp

lemma xor32_step:
  assumes "4 * i + 3 < length b"
  shows "\<exists>b1. (case get32 be b i of None \<Rightarrow> None | Some v \<Rightarrow> put32 be b i (v XOR X)) = Some b1 \<and>
           length b1 = length b \<and>
           (\<forall>k. 4 * i \<le> k \<and> k < 4 * i + 4 \<longrightarrow> b1 ! k = b ! k XOR mask_byte be X (k mod 4)) \<and>
           (\<forall>k. k < 4 * i \<or> 4 * i + 4 \<le> k \<longrightarrow> b1 ! k = b ! k)"
proof -
  define v where "v = (if be
                 then join32 (b ! (4 * i)) (b ! (4 * i + 1)) (b ! (4 * i + 2)) (b ! (4 * i + 3))
                 else join32 (b ! (4 * i + 3)) (b ! (4 * i + 2)) (b ! (4 * i + 1)) (b ! (4 * i)))"
  define w where "w = v XOR X"
  define b1 where "b1 = (if be
                 then b[4 * i := byte32 3 w, 4 * i + 1 := byte32 2 w,
                        4 * i + 2 := byte32 1 w, 4 * i + 3 := byte32 0 w]
                 else b[4 * i := byte32 0 w, 4 * i + 1 := byte32 1 w,
                        4 * i + 2 := byte32 2 w, 4 * i + 3 := byte32 3 w])"
  have run: "(case get32 be b i of None \<Rightarrow> None | Some v \<Rightarrow> put32 be b i (v XOR X)) = Some b1"
    using assms by (simp add: get32_def put32_def b1_def w_def v_def)
  have len: "length b1 = length b" by (simp add: b1_def)
  have m: "(4 * i) mod 4 = 0" "(4 * i + 1) mod 4 = 1" "(4 * i + 2) mod 4 = 2" "(4 * i + 3) mod 4 = 3"
    by presburger+
  have k0: "b1 ! (4 * i) = b ! (4 * i) XOR mask_byte be X ((4 * i) mod 4)"
    using assms unfolding m
    by (simp add: b1_def w_def v_def byte32_xor byte32_join32 byte32_join32_Suc mask_byte_def)
  have k1: "b1 ! (4 * i + 1) = b ! (4 * i + 1) XOR mask_byte be X ((4 * i + 1) mod 4)"
    using assms unfolding m
    by (simp add: b1_def w_def v_def byte32_xor byte32_join32 byte32_join32_Suc mask_byte_def)
  have k2: "b1 ! (4 * i + 2) = b ! (4 * i + 2) XOR mask_byte be X ((4 * i + 2) mod 4)"
    using assms unfolding m
    by (simp add: b1_def w_def v_def byte32_xor byte32_join32 byte32_join32_Suc mask_byte_def)
  have k3: "b1 ! (4 * i + 3) = b ! (4 * i + 3) XOR mask_byte be X ((4 * i + 3) mod 4)"
    using assms unfolding m
    by (simp add: b1_def w_def v_def byte32_xor byte32_join32 byte32_join32_Suc mask_byte_def)
  have inside: "\<forall>k. 4 * i \<le> k \<and> k < 4 * i + 4 \<longrightarrow> b1 ! k = b ! k XOR mask_byte be X (k mod 4)"
  proof (intro allI impI)
    fix k assume "4 * i \<le> k \<and> k < 4 * i + 4"
    then consider "k = 4 * i" | "k = 4 * i + 1" | "k = 4 * i + 2" | "k = 4 * i + 3" by linarith
    then show "b1 ! k = b ! k XOR mask_byte be X (k mod 4)"
      using k0 k1 k2 k3 by cases simp_all
  qed
  have outside: "\<forall>k. k < 4 * i \<or> 4 * i + 4 \<le> k \<longrightarrow> b1 ! k = b ! k"
    by (auto simp: b1_def)
  show ?thesis using run len inside outside by blast
qed

lemma for_down_xor32:
  assumes "4 * m \<le> length b"
  shows "\<exists>b'. for_down (\<lambda>i b. case get32 be b i of None \<Rightarrow> None
                               | Some v \<Rightarrow> put32 be b i (v XOR X)) m b = Some b' \<and>
           length b' = length b \<and>
           (\<forall>k < 4 * m. b' ! k = b ! k XOR mask_byte be X (k mod 4)) \<and>
           (\<forall>k \<ge> 4 * m. b' ! k = b ! k)"
  using assms
proof (induction m arbitrary: b)
  case 0
  then show ?case by simp
next
  case (Suc m)
  have idx: "4 * m + 3 < length b" using Suc.prems by simp
  obtain b1 where b1:
      "(case get32 be b m of None \<Rightarrow> None | Some v \<Rightarrow> put32 be b m (v XOR X)) = Some b1"
      "length b1 = length b"
      "\<forall>k. 4 * m \<le> k \<and> k < 4 * m + 4 \<longrightarrow> b1 ! k = b ! k XOR mask_byte be X (k mod 4)"
      "\<forall>k. k < 4 * m \<or> 4 * m + 4 \<le> k \<longrightarrow> b1 ! k = b ! k"
    using xor32_step[OF idx, of be X] by blast
  have "4 * m \<le> length b1" using Suc.prems b1(2) by simp
  from Suc.IH[OF this] obtain b' where b':
      "for_down (\<lambda>i b. case get32 be b i of None \<Rightarrow> None
                               | Some v \<Rightarrow> put32 be b i (v XOR X)) m b1 = Some b'"
      "length b' = length b1"
      "\<forall>k < 4 * m. b' ! k = b1 ! k XOR mask_byte be X (k mod 4)"
      "\<forall>k \<ge> 4 * m. b' ! k = b1 ! k"
    by blast
  have run: "for_down (\<lambda>i b. case get32 be b i of None \<Rightarrow> None
                               | Some v \<Rightarrow> put32 be b i (v XOR X)) (Suc m) b = Some b'"
    using b1(1) b'(1) by simp
  have lo: "\<forall>k < 4 * Suc m. b' ! k = b ! k XOR mask_byte be X (k mod 4)"
  proof (intro allI impI)
    fix k assume k: "k < 4 * Suc m"
    show "b' ! k = b ! k XOR mask_byte be X (k mod 4)"
    proof (cases "k < 4 * m")
      case True
      then show ?thesis using b'(3) b1(4) by simp
    next
      case False
      then have "4 * m \<le> k \<and> k < 4 * m + 4" using k by simp
      then show ?thesis using b'(4) b1(3) by simp
    qed
  qed
  have hi: "\<forall>k \<ge> 4 * Suc m. b' ! k = b ! k" using b'(4) b1(4) by simp
  show ?case using run b'(2) b1(2) lo hi by simp
qed

lemma for_up_xor8:
  assumes "n \<le> length b"
  shows "\<exists>b'. for_up (\<lambda>i b. case get8 b i of None \<Rightarrow> None
                             | Some v \<Rightarrow> put8 b i (v XOR g i)) i n b = Some b' \<and>
           length b' = length b \<and>
           (\<forall>k. i \<le> k \<and> k < n \<longrightarrow> b' ! k = b ! k XOR g k) \<and>
           (\<forall>k. k < i \<or> n \<le> k \<longrightarrow> b' ! k = b ! k)"
  using assms
proof (induction "n - i" arbitrary: i b)
  case 0
  then show ?case by (subst for_up.simps) auto
next
  case (Suc d)
  have i: "i < n" using Suc.hyps(2) by simp
  then have il: "i < length b" using Suc.prems by simp
  let ?b1 = "b[i := b ! i XOR g i]"
  have d: "d = n - Suc i" using Suc.hyps(2) by simp
  have "n \<le> length ?b1" using Suc.prems by simp
  from Suc.hyps(1)[OF d this] obtain b' where b':
      "for_up (\<lambda>i b. case get8 b i of None \<Rightarrow> None
                             | Some v \<Rightarrow> put8 b i (v XOR g i)) (Suc i) n ?b1 = Some b'"
      "length b' = length ?b1"
      "\<forall>k. Suc i \<le> k \<and> k < n \<longrightarrow> b' ! k = ?b1 ! k XOR g k"
      "\<forall>k. k < Suc i \<or> n \<le> k \<longrightarrow> b' ! k = ?b1 ! k"
    by blast
  have run: "for_up (\<lambda>i b. case get8 b i of None \<Rightarrow> None
                             | Some v \<Rightarrow> put8 b i (v XOR g i)) i n b = Some b'"
    using i il b'(1) by (subst for_up.simps) (simp add: get8_def put8_def)
  have mid: "\<forall>k. i \<le> k \<and> k < n \<longrightarrow> b' ! k = b ! k XOR g k"
  proof (intro allI impI)
    fix k assume k: "i \<le> k \<and> k < n"
    show "b' ! k = b ! k XOR g k"
    proof (cases "k = i")
      case True
      then show ?thesis using b'(4) il by simp
    next
      case False
      then show ?thesis using b'(3) k by simp
    qed
  qed
  have out: "\<forall>k. k < i \<or> n \<le> k \<longrightarrow> b' ! k = b ! k"
    using b'(4) i by auto
  show ?case using run b'(2) mid out by simp
qed

lemma changeSigned_bytes:
  assumes "len \<le> length b"
  shows "\<exists>b'. changeSigned be b len X = Some (b', len) \<and> length b' = length b \<and>
           (\<forall>k < len. b' ! k = b ! k XOR mask_byte be X (k mod 4)) \<and>
           (\<forall>k \<ge> len. b' ! k = b ! k)"
proof -
  have "4 * (len div 4) \<le> length b" using assms by simp
  from for_down_xor32[OF this, of be X] obtain b1 where b1:
      "for_down (\<lambda>i b. case get32 be b i of None \<Rightarrow> None
                               | Some v \<Rightarrow> put32 be b i (v XOR X)) (len div 4) b = Some b1"
      "length b1 = length b"
      "\<forall>k < 4 * (len div 4). b1 ! k = b ! k XOR mask_byte be X (k mod 4)"
      "\<forall>k \<ge> 4 * (len div 4). b1 ! k = b ! k"
    by blast
  have "len \<le> length b1" using assms b1(2) by simp
  from for_up_xor8[OF this, of "\<lambda>i. mask_byte be X (i mod 4)" "4 * (len div 4)"] obtain b2 where b2:
      "for_up (\<lambda>i b. case get8 b i of None \<Rightarrow> None
                             | Some v \<Rightarrow> put8 b i (v XOR mask_byte be X (i mod 4)))
          (4 * (len div 4)) len b1 = Some b2"
      "length b2 = length b1"
      "\<forall>k. 4 * (len div 4) \<le> k \<and> k < len \<longrightarrow> b2 ! k = b1 ! k XOR mask_byte be X (k mod 4)"
      "\<forall>k. k < 4 * (len div 4) \<or> len \<le> k \<longrightarrow> b2 ! k = b1 ! k"
    by blast
  have run: "changeSigned be b len X = Some (b2, len)"
    using b1(1) b2(1) by (simp add: changeSigned_def)
  have lo: "\<forall>k < len. b2 ! k = b ! k XOR mask_byte be X (k mod 4)"
  proof (intro allI impI)
    fix k assume k: "k < len"
    show "b2 ! k = b ! k XOR mask_byte be X (k mod 4)"
    proof (cases "k < 4 * (len div 4)")
      case True
      then show ?thesis using b2(4) b1(3) by simp
    next
      case False
      then show ?thesis using b2(3) b1(4) k by simp
    qed
  qed
  have hi: "\<forall>k \<ge> len. b2 ! k = b ! k"
  proof (intro allI impI)
    fix k assume k: "len \<le> k"
    have "4 * (len div 4) \<le> len" by simp
    then have "4 * (len div 4) \<le> k" using k by linarith
    then show "b2 ! k = b ! k" using b2(4) b1(4) k by simp
  qed
  show ?thesis using run b2(2) b1(2) lo hi by simp
qed

lemma mask_sign16_even: "mask_byte be 0x80008000 ((2 * i) mod 4) = (if be then 0x80 else 0)"
proof -
  have "(2 * i) mod 4 = 0 \<or> (2 * i) mod 4 = 2" by presburger
  then show ?thesis by (auto simp: mask_byte_def byte32_def)
qed

lemma mask_sign16_odd: "mask_byte be 0x80008000 ((2 * i + 1) mod 4) = (if be then 0 else 0x80)"
proof -
  have "(2 * i + 1) mod 4 = 1 \<or> (2 * i + 1) mod 4 = 3" by presburger
  then show ?thesis by (auto simp: mask_byte_def byte32_def)
qed

lemma join16_flip_hi: "join16 (h XOR 0x80) l = join16 h l XOR 0x8000"
proof -
  have "join16 h l XOR join16 0x80 0 = join16 (h XOR 0x80) (l XOR 0)" by (rule join16_xor)
  moreover have "join16 0x80 0 = 0x8000" by (simp add: join16_def)
  ultimately show ?thesis by simp
qed

lemma changeSigned16BitSys_samples:
  assumes "len \<le> length b"
  shows "\<exists>b'. changeSigned16BitSys be b len = Some (b', len) \<and> length b' = length b \<and>
           (\<forall>i < len div 2. sample16 be b' i = sample16 be b i XOR 0x8000)"
proof -
  obtain b' where b': "changeSigned be b len 0x80008000 = Some (b', len)" "length b' = length b"
      "\<forall>k < len. b' ! k = b ! k XOR mask_byte be 0x80008000 (k mod 4)"
    using changeSigned_bytes[OF assms, of be "0x80008000"] by blast
  have "\<forall>i < len div 2. sample16 be b' i = sample16 be b i XOR 0x8000"
  proof (intro allI impI)
    fix i assume "i < len div 2"
    then have i: "2 * i < len" "2 * i + 1 < len" by arith+
    have e: "b' ! (2 * i) = b ! (2 * i) XOR (if be then 0x80 else 0)"
      using b'(3)[rule_format, OF i(1)] by (simp only: mask_sign16_even)
    have o: "b' ! (2 * i + 1) = b ! (2 * i + 1) XOR (if be then 0 else 0x80)"
      using b'(3)[rule_format, OF i(2)] by (simp only: mask_sign16_odd)
    show "sample16 be b' i = sample16 be b i XOR 0x8000"
      unfolding sample16_def e o by (simp add: join16_flip_hi)
  qed
  then show ?thesis using b' by (simp add: changeSigned16BitSys_def)
qed

lemma take_eq_samples:
  assumes "len \<le> length b" and "len \<le> length b'" and "even len"
    and "\<forall>i < len div 2. sample16 be b' i = sample16 be b i"
  shows "take len b' = take len b"
proof (rule nth_equalityI)
  show "length (take len b') = length (take len b)" using assms by simp
next
  fix k assume "k < length (take len b')"
  then have k: "k < len" by simp
  then have i: "k div 2 < len div 2" using assms(3) by (elim evenE) simp
  have s: "sample16 be b' (k div 2) = sample16 be b (k div 2)" using assms(4) i by simp
  have both: "b' ! (2 * (k div 2)) = b ! (2 * (k div 2)) \<and>
              b' ! (2 * (k div 2) + 1) = b ! (2 * (k div 2) + 1)"
    using s by (cases be) (auto simp: sample16_def join16_inject)
  have "k = 2 * (k div 2) \<or> k = 2 * (k div 2) + 1" by presburger
  then have "b' ! k = b ! k" using both by metis
  then show "take len b' ! k = take len b ! k" using k by simp
qed

lemma flip_flip [simp]: "(x XOR 0x8000) XOR 0x8000 = (x :: 16 word)"
  by (simp add: xor.assoc)

lemma fmt16_of_fmt:
  assumes "int16_descriptor A" and "int16_descriptor B"
  shows "fmt_shrink be A B = fmt16_shrink be A B" and "fmt_grow be A B = fmt16_grow A B"
  using assms by (simp_all add: int16_descriptor_def fmt_shrink_def fmt_grow_def)

lemma build_same_rate_plan:
  assumes "\<not> refused src dst" and "freq src = freq dst"
  shows "\<exists>P. BuildAudioCVT be (Some D) src dst = Some (0, Some P) \<and>
           plan_of P = fmt_shrink be src dst @ fmt_grow be src dst \<and>
           len_mult P = prod_list (map factor (fmt_shrink be src dst @ fmt_grow be src dst))"
proof -
  obtain ret D' where r: "BuildAudioCVT be (Some D) src dst = Some (ret, Some D')"
      "ret = (if refused src dst then - 1 else 0)"
    using BuildAudioCVT_result[of "\<lambda>a. True" be D src dst] by blast
  then have b: "BuildAudioCVT be (Some D) src dst = Some (0, Some D')" using assms(1) by simp
  from BuildAudioCVT_same_rate[OF b assms(2)] b show ?thesis by blast
qed

lemma run_sign_and_order:
  "\<exists>b1. run_adapters X be mode
       (fmt_shrink be \<lparr>freq = 44100, format = AUDIO_S16LSB, channels = 1\<rparr>
            \<lparr>freq = 44100, format = AUDIO_U16MSB, channels = 1\<rparr> @
        fmt_grow be \<lparr>freq = 44100, format = AUDIO_S16LSB, channels = 1\<rparr>
            \<lparr>freq = 44100, format = AUDIO_U16MSB, channels = 1\<rparr>) [0, 0] 2 = Some (b1, 2) \<and>
     run_adapters X be mode
       (fmt_shrink be \<lparr>freq = 44100, format = AUDIO_U16MSB, channels = 1\<rparr>
            \<lparr>freq = 44100, format = AUDIO_S16LSB, channels = 1\<rparr> @
        fmt_grow be \<lparr>freq = 44100, format = AUDIO_U16MSB, channels = 1\<rparr>
            \<lparr>freq = 44100, format = AUDIO_S16LSB, channels = 1\<rparr>) b1 2 = Some ([0x80, 0x80], 2)"
  by (cases be)
     (simp_all add: fmt_shrink_def fmt_grow_def fmt16_shrink_def fmt16_grow_def format_defs
        adapter_defs buffer_defs for_down_numeral for_down_one for_up.simps)

lemma call_adapter_samplewise:
  assumes "samplewise a" and "len \<le> length b"
  shows "\<exists>b'. call_adapter X be a mode b len = Some (b', len) \<and> length b' = length b \<and>
           (\<forall>i < len div 2. sample16 be b' i = sem16 a (sample16 be b i))"
proof -
  consider "a = A_swapBytes" | "a = A_changeSigned16BitSys"
    using assms(1) by (auto simp: samplewise_def)
  then show ?thesis
  proof cases
    case 1
    then show ?thesis using swapBytes_samples[OF assms(2), of be] by (simp add: call_adapter_def)
  next
    case 2
    then show ?thesis
      using changeSigned16BitSys_samples[OF assms(2), of be] by (simp add: call_adapter_def)
  qed
qed

lemma run_adapters_samplewise:
  assumes "\<forall>a \<in> set plan. samplewise a" and "len \<le> length b"
  shows "\<exists>b'. run_adapters X be mode plan b len = Some (b', len) \<and> length b' = length b \<and>
           (\<forall>i < len div 2. sample16 be b' i = fold sem16 plan (sample16 be b i))"
  using assms
proof (induction plan arbitrary: b)
  case Nil
  then show ?case by simp
next
  case (Cons a as)
  have a: "samplewise a" and as: "\<forall>a \<in> set as. samplewise a" using Cons.prems(1) by simp_all
  obtain b1 where b1: "call_adapter X be a mode b len = Some (b1, len)" "length b1 = length b"
      "\<forall>i < len div 2. sample16 be b1 i = sem16 a (sample16 be b i)"
    using call_adapter_samplewise[OF a Cons.prems(2), of X be mode] by blast
  have "len \<le> length b1" using Cons.prems(2) b1(2) by simp
  from Cons.IH[OF as this] obtain b' where b':
      "run_adapters X be mode as b1 len = Some (b', len)" "length b' = length b1"
      "\<forall>i < len div 2. sample16 be b' i = fold sem16 as (sample16 be b1 i)"
    by blast
  show ?case using b1 b' by simp
qed

lemma fmt16_same_channels:
  assumes "channels A = channels B"
  shows "fmt16_shrink be A B @ fmt16_grow A B =
           (if IS_SYSENDIAN be A \<noteq> IS_SYSENDIAN be B then [A_swapBytes] else []) @
           (if IS_SIGNED A \<noteq> IS_SIGNED B then [A_changeSigned16BitSys] else [])"
  using assms by (simp add: fmt16_shrink_def fmt16_grow_def)

lemma sem16_round_trip:
  assumes "channels A = channels B"
    and "\<not> (IS_SIGNED A \<noteq> IS_SIGNED B \<and> IS_SYSENDIAN be A \<noteq> IS_SYSENDIAN be B)"
  shows "fold sem16 (fmt16_shrink be B A @ fmt16_grow B A)
           (fold sem16 (fmt16_shrink be A B @ fmt16_grow A B) x) = x"
  using assms(2)
  by (auto simp: fmt16_same_channels[OF assms(1)] fmt16_same_channels[OF assms(1)[symmetric]])

text \<open>
  Claim C5, as amended. For every two descriptors A and B of 16-bit integer samples with
  equal rates and equal channel counts that do not differ in both signedness and byte
  order, and for which \<^verbatim>\<open>BuildAudioCVT\<close> succeeds in both directions: executing the plan for
  A to B and then the plan for B to A, on a buffer of \<open>length * len_mult\<close> bytes with a
  whole number of frames of A, succeeds, returns the original length both times, and
  reproduces the original bytes exactly.
\<close>

theorem round_trip_16bit:
  assumes A: "int16_descriptor A" and B: "int16_descriptor B" and freq: "freq A = freq B"
    and bP: "BuildAudioCVT be (Some D1) A B = Some (0, Some P)"
    and bQ: "BuildAudioCVT be (Some D2) B A = Some (0, Some Q)"
    and ch: "channels A = channels B"
    and se: "\<not> (IS_SIGNED A \<noteq> IS_SIGNED B \<and> IS_SYSENDIAN be A \<noteq> IS_SYSENDIAN be B)"
    and al: "2 * channels A dvd len"
    and cap: "of_nat len * len_mult P \<le> of_nat (length b)"
  shows "\<exists>b1 b2.
           ConvertAudio X be (Some P) (Some b) len mode = Inr (b1, len) \<and>
           ConvertAudio X be (Some Q) (Some b1) len mode = Inr (b2, len) \<and>
           length b2 = length b \<and> take len b2 = take len b"
proof -
  define PA where "PA = fmt16_shrink be A B @ fmt16_grow A B"
  define PB where "PB = fmt16_shrink be B A @ fmt16_grow B A"
  have ev: "even len" using al by (rule dvd_mult_left)
  have pP: "plan_of P = PA" and lm: "len_mult P = prod_list (map factor PA)"
    using BuildAudioCVT_same_rate[OF bP freq] by (simp_all add: fmt16_of_fmt[OF A B] PA_def)
  have pQ: "plan_of Q = PB"
    using BuildAudioCVT_same_rate[OF bQ freq[symmetric]] by (simp add: fmt16_of_fmt[OF B A] PB_def)
  have nP: "length (plan_of P) < 32" and nQ: "length (plan_of Q) < 32"
    using fmt_length[of be A B] fmt_length[of be B A] pP pQ
    by (simp_all add: fmt16_of_fmt[OF A B] fmt16_of_fmt[OF B A] PA_def PB_def)
  have swA: "\<forall>a \<in> set PA. samplewise a"
    by (auto simp: PA_def fmt16_same_channels[OF ch] samplewise_def)
  have swB: "\<forall>a \<in> set PB. samplewise a"
    by (auto simp: PB_def fmt16_same_channels[OF ch[symmetric]] samplewise_def)
  have "len_mult P = 1" unfolding lm PA_def fmt16_same_channels[OF ch] by simp
  then have "(of_nat len :: rat) \<le> of_nat (length b)" using cap by simp
  then have c0: "len \<le> length b" by (simp only: of_nat_le_iff)
  obtain b1 where b1: "run_adapters X be mode PA b len = Some (b1, len)" "length b1 = length b"
      "\<forall>i < len div 2. sample16 be b1 i = fold sem16 PA (sample16 be b i)"
    using run_adapters_samplewise[OF swA c0, of X be mode] by blast
  have c1: "len \<le> length b1" using c0 b1(2) by simp
  obtain b2 where b2: "run_adapters X be mode PB b1 len = Some (b2, len)" "length b2 = length b1"
      "\<forall>i < len div 2. sample16 be b2 i = fold sem16 PB (sample16 be b1 i)"
    using run_adapters_samplewise[OF swB c1, of X be mode] by blast
  have "\<forall>i < len div 2. sample16 be b2 i = sample16 be b i"
    using b1(3) b2(3) sem16_round_trip[OF ch se] by (simp add: PA_def PB_def)
  then have t: "take len b2 = take len b"
    using c0 b1(2) b2(2) ev by (intro take_eq_samples[of len b b2 be]) simp_all
  have r1: "ConvertAudio X be (Some P) (Some b) len mode = Inr (b1, len)"
    using b1(1) by (simp add: ConvertAudio_plan[OF nP] pP)
  have r2: "ConvertAudio X be (Some Q) (Some b1) len mode = Inr (b2, len)"
    using b2(1) by (simp add: ConvertAudio_plan[OF nQ] pQ)
  show ?thesis using r1 r2 t b1(2) b2(2) by auto
qed

theorem round_trip_16bit_witness:
  "\<exists>P Q. BuildAudioCVT False (Some zeroed_cvt)
            \<lparr>freq = 44100, format = AUDIO_S16LSB, channels = 2\<rparr>
            \<lparr>freq = 44100, format = AUDIO_U16LSB, channels = 2\<rparr> = Some (0, Some P) \<and>
         BuildAudioCVT False (Some zeroed_cvt)
            \<lparr>freq = 44100, format = AUDIO_U16LSB, channels = 2\<rparr>
            \<lparr>freq = 44100, format = AUDIO_S16LSB, channels = 2\<rparr> = Some (0, Some Q) \<and>
         plan_of P = [A_changeSigned16BitSys] \<and> plan_of Q = [A_changeSigned16BitSys] \<and>
         (\<exists>b1 b2.
            ConvertAudio \<lparr>rate_adapter = (\<lambda>a m b n. None), scale_float = (\<lambda>w. 0),
                unscale_s16 = (\<lambda>v. 0)\<rparr> False (Some P) (Some [1, 2, 3, 4]) 4 0 = Inr (b1, 4) \<and>
            ConvertAudio \<lparr>rate_adapter = (\<lambda>a m b n. None), scale_float = (\<lambda>w. 0),
                unscale_s16 = (\<lambda>v. 0)\<rparr> False (Some Q) (Some b1) 4 0 = Inr (b2, 4) \<and>
            length b2 = 4 \<and> take 4 b2 = [1, 2, 3, 4])"
proof -
  let ?A = "\<lparr>freq = 44100, format = AUDIO_S16LSB, channels = 2\<rparr>"
  let ?B = "\<lparr>freq = 44100, format = AUDIO_U16LSB, channels = 2\<rparr>"
  let ?X = "\<lparr>rate_adapter = (\<lambda>a m b n. None), scale_float = (\<lambda>w. 0), unscale_s16 = (\<lambda>v. 0)\<rparr>"
  have pAB: "fmt_shrink False ?A ?B @ fmt_grow False ?A ?B = [A_changeSigned16BitSys]"
    and pBA: "fmt_shrink False ?B ?A @ fmt_grow False ?B ?A = [A_changeSigned16BitSys]"
    by (simp_all add: fmt_shrink_def fmt_grow_def fmt16_shrink_def fmt16_grow_def format_defs)
  obtain P where P: "BuildAudioCVT False (Some zeroed_cvt) ?A ?B = Some (0, Some P)"
      "plan_of P = fmt_shrink False ?A ?B @ fmt_grow False ?A ?B"
      "len_mult P = prod_list (map factor (fmt_shrink False ?A ?B @ fmt_grow False ?A ?B))"
    using build_same_rate_plan[of ?A ?B False zeroed_cvt] by (auto simp: refused_def)
  obtain Q where Q: "BuildAudioCVT False (Some zeroed_cvt) ?B ?A = Some (0, Some Q)"
      "plan_of Q = fmt_shrink False ?B ?A @ fmt_grow False ?B ?A"
    using build_same_rate_plan[of ?B ?A False zeroed_cvt] by (auto simp: refused_def)
  have d: "int16_descriptor ?A" "int16_descriptor ?B"
    by (simp_all add: int16_descriptor_def format_defs)
  have ch: "channels ?A = channels ?B" by simp
  have se: "\<not> (IS_SIGNED ?A \<noteq> IS_SIGNED ?B \<and> IS_SYSENDIAN False ?A \<noteq> IS_SYSENDIAN False ?B)"
    by (simp add: format_defs)
  have al: "2 * channels ?A dvd (4 :: nat)" by simp
  have cap: "of_nat 4 * len_mult P \<le> of_nat (length [1, 2, 3, 4 :: 8 word])"
    unfolding P(3) pAB by simp
  have "\<exists>b1 b2.
           ConvertAudio ?X False (Some P) (Some [1, 2, 3, 4]) 4 0 = Inr (b1, 4) \<and>
           ConvertAudio ?X False (Some Q) (Some b1) 4 0 = Inr (b2, 4) \<and>
           length b2 = length [1, 2, 3, 4 :: 8 word] \<and>
           take 4 b2 = take 4 [1, 2, 3, 4]"
    by (rule round_trip_16bit[OF d _ P(1) Q(1) ch se al cap]) simp
  then show ?thesis using P(1,2) Q(1,2) unfolding pAB pBA by auto
qed

lemma run_stereo_to_mono_twice:
  "run_adapters X be mode
       (fmt_shrink be \<lparr>freq = 44100, format = AUDIO_S16LSB, channels = 2\<rparr>
            \<lparr>freq = 44100, format = AUDIO_S16LSB, channels = 1\<rparr> @
        fmt_grow be \<lparr>freq = 44100, format = AUDIO_S16LSB, channels = 2\<rparr>
            \<lparr>freq = 44100, format = AUDIO_S16LSB, channels = 1\<rparr>) [0, 0, 0, 0] 4 =
     Some ([0, 0, 0, 0], 2)"
  "run_adapters X be mode
       (fmt_shrink be \<lparr>freq = 44100, format = AUDIO_S16LSB, channels = 2\<rparr>
            \<lparr>freq = 44100, format = AUDIO_S16LSB, channels = 1\<rparr> @
        fmt_grow be \<lparr>freq = 44100, format = AUDIO_S16LSB, channels = 2\<rparr>
            \<lparr>freq = 44100, format = AUDIO_S16LSB, channels = 1\<rparr>) [0, 1, 0, 0] 4 =
     Some ([0, 0, 0, 0], 2)"
  by (cases be; simp add: fmt_shrink_def fmt_grow_def fmt16_shrink_def fmt16_grow_def format_defs
        adapter_defs buffer_defs for_down_numeral for_down_one for_up.simps)+

lemma ConvertAudio_same_rate:
  assumes "\<not> refused A B" and "freq A = freq B"
  shows "\<exists>P. BuildAudioCVT be (Some zeroed_cvt) A B = Some (0, Some P) \<and>
           (\<forall>X b len mode. ConvertAudio X be (Some P) (Some b) len mode =
              (case run_adapters X be mode (fmt_shrink be A B @ fmt_grow be A B) b len of
                 None \<Rightarrow> Inl Undefined_behaviour | Some r \<Rightarrow> Inr r))"
proof -
  obtain P where P: "BuildAudioCVT be (Some zeroed_cvt) A B = Some (0, Some P)"
      "plan_of P = fmt_shrink be A B @ fmt_grow be A B"
    using build_same_rate_plan[OF assms, of be zeroed_cvt] by blast
  have nP: "length (plan_of P) < 32" using fmt_length[of be A B] P(2) by simp
  show ?thesis using P(1) ConvertAudio_plan[OF nP] by (auto simp: P(2))
qed

text \<open>
  Claim C5 as stated fails, in two ways, on every machine.
  \<^item> From 16-bit stereo to mono the two frames \<open>(0, 0)\<close> and \<open>(1, 0)\<close> (as the averaging
    adapter reads them) both become the sample \<open>0\<close>, and the whole buffer is the same
    afterwards: the average forgets the difference, so whatever the plan from mono to
    stereo does, it cannot give back both.
  \<^item> Between signed little-endian and unsigned big-endian mono, the sample \<open>0\<close> comes back
    as \<open>0x8080\<close>: each plan is a byte swap followed by a flip of the top bit of the native
    sample, and the two do not commute.
\<close>

theorem round_trip_changes_samples:
  "\<forall>X be.
     (\<exists>P Q b1.
        BuildAudioCVT be (Some zeroed_cvt)
           \<lparr>freq = 44100, format = AUDIO_S16LSB, channels = 2\<rparr>
           \<lparr>freq = 44100, format = AUDIO_S16LSB, channels = 1\<rparr> = Some (0, Some P) \<and>
        BuildAudioCVT be (Some zeroed_cvt)
           \<lparr>freq = 44100, format = AUDIO_S16LSB, channels = 1\<rparr>
           \<lparr>freq = 44100, format = AUDIO_S16LSB, channels = 2\<rparr> = Some (0, Some Q) \<and>
        ConvertAudio X be (Some P) (Some [0, 0, 0, 0]) 4 0 = Inr (b1, 2) \<and>
        ConvertAudio X be (Some P) (Some [0, 1, 0, 0]) 4 0 = Inr (b1, 2) \<and>
        \<not> (\<exists>b2 b2'. ConvertAudio X be (Some Q) (Some b1) 2 0 = Inr (b2, 4) \<and>
                     take 4 b2 = [0, 0, 0, 0] \<and>
                     ConvertAudio X be (Some Q) (Some b1) 2 0 = Inr (b2', 4) \<and>
                     take 4 b2' = [0, 1, 0, 0])) \<and>
     (\<exists>P Q b1 b2.
        BuildAudioCVT be (Some zeroed_cvt)
           \<lparr>freq = 44100, format = AUDIO_S16LSB, channels = 1\<rparr>
           \<lparr>freq = 44100, format = AUDIO_U16MSB, channels = 1\<rparr> = Some (0, Some P) \<and>
        BuildAudioCVT be (Some zeroed_cvt)
           \<lparr>freq = 44100, format = AUDIO_U16MSB, channels = 1\<rparr>
           \<lparr>freq = 44100, format = AUDIO_S16LSB, channels = 1\<rparr> = Some (0, Some Q) \<and>
        ConvertAudio X be (Some P) (Some [0, 0]) 2 0 = Inr (b1, 2) \<and>
        ConvertAudio X be (Some Q) (Some b1) 2 0 = Inr (b2, 2) \<and>
        b2 = [0x80, 0x80] \<and> take 2 b2 \<noteq> take 2 [0, 0])"
proof (intro allI conjI)
  fix X be
  let ?S = "\<lparr>freq = 44100, format = AUDIO_S16LSB, channels = 2\<rparr>"
  let ?M = "\<lparr>freq = 44100, format = AUDIO_S16LSB, channels = 1\<rparr>"
  let ?U = "\<lparr>freq = 44100, format = AUDIO_U16MSB, channels = 1\<rparr>"
  obtain P where P: "BuildAudioCVT be (Some zeroed_cvt) ?S ?M = Some (0, Some P)"
      "\<forall>X b len mode. ConvertAudio X be (Some P) (Some b) len mode =
              (case run_adapters X be mode (fmt_shrink be ?S ?M @ fmt_grow be ?S ?M) b len of
                 None \<Rightarrow> Inl Undefined_behaviour | Some r \<Rightarrow> Inr r)"
    using ConvertAudio_same_rate[of ?S ?M be] by (auto simp: refused_def)
  obtain Q where Q: "BuildAudioCVT be (Some zeroed_cvt) ?M ?S = Some (0, Some Q)"
    using ConvertAudio_same_rate[of ?M ?S be] by (auto simp: refused_def)
  have "ConvertAudio X be (Some P) (Some [0, 0, 0, 0]) 4 0 = Inr ([0, 0, 0, 0], 2)"
    and "ConvertAudio X be (Some P) (Some [0, 1, 0, 0]) 4 0 = Inr ([0, 0, 0, 0], 2)"
    unfolding P(2)[rule_format] run_stereo_to_mono_twice by simp_all
  then show "\<exists>P Q b1.
        BuildAudioCVT be (Some zeroed_cvt) ?S ?M = Some (0, Some P) \<and>
        BuildAudioCVT be (Some zeroed_cvt) ?M ?S = Some (0, Some Q) \<and>
        ConvertAudio X be (Some P) (Some [0, 0, 0, 0]) 4 0 = Inr (b1, 2) \<and>
        ConvertAudio X be (Some P) (Some [0, 1, 0, 0]) 4 0 = Inr (b1, 2) \<and>
        \<not> (\<exists>b2 b2'. ConvertAudio X be (Some Q) (Some b1) 2 0 = Inr (b2, 4) \<and>
                     take 4 b2 = [0, 0, 0, 0] \<and>
                     ConvertAudio X be (Some Q) (Some b1) 2 0 = Inr (b2', 4) \<and>
                     take 4 b2' = [0, 1, 0, 0])"
    using P(1) Q by (intro exI[of _ P] exI[of _ Q] exI[of _ "[0, 0, 0, 0]"]) auto
  obtain P' where P': "BuildAudioCVT be (Some zeroed_cvt) ?M ?U = Some (0, Some P')"
      "\<forall>X b len mode. ConvertAudio X be (Some P') (Some b) len mode =
              (case run_adapters X be mode (fmt_shrink be ?M ?U @ fmt_grow be ?M ?U) b len of
                 None \<Rightarrow> Inl Undefined_behaviour | Some r \<Rightarrow> Inr r)"
    using ConvertAudio_same_rate[of ?M ?U be] by (auto simp: refused_def)
  obtain Q' where Q': "BuildAudioCVT be (Some zeroed_cvt) ?U ?M = Some (0, Some Q')"
      "\<forall>X b len mode. ConvertAudio X be (Some Q') (Some b) len mode =
              (case run_adapters X be mode (fmt_shrink be ?U ?M @ fmt_grow be ?U ?M) b len of
                 None \<Rightarrow> Inl Undefined_behaviour | Some r \<Rightarrow> Inr r)"
    using ConvertAudio_same_rate[of ?U ?M be] by (auto simp: refused_def)
  obtain b1 where b1:
      "run_adapters X be 0 (fmt_shrink be ?M ?U @ fmt_grow be ?M ?U) [0, 0] 2 = Some (b1, 2)"
      "run_adapters X be 0 (fmt_shrink be ?U ?M @ fmt_grow be ?U ?M) b1 2 = Some ([0x80, 0x80], 2)"
    using run_sign_and_order[of X be 0] by blast
  have "ConvertAudio X be (Some P') (Some [0, 0]) 2 0 = Inr (b1, 2)"
    and "ConvertAudio X be (Some Q') (Some b1) 2 0 = Inr ([0x80, 0x80], 2)"
    unfolding P'(2)[rule_format] Q'(2)[rule_format] b1 by simp_all
  then show "\<exists>P Q b1 b2.
        BuildAudioCVT be (Some zeroed_cvt) ?M ?U = Some (0, Some P) \<and>
        BuildAudioCVT be (Some zeroed_cvt) ?U ?M = Some (0, Some Q) \<and>
        ConvertAudio X be (Some P) (Some [0, 0]) 2 0 = Inr (b1, 2) \<and>
        ConvertAudio X be (Some Q) (Some b1) 2 0 = Inr (b2, 2) \<and>
        b2 = [0x80, 0x80] \<and> take 2 b2 \<noteq> take 2 [0, 0]"
    using P'(1) Q'(1) by (intro exI[of _ P'] exI[of _ Q'] exI[of _ b1] exI[of _ "[0x80, 0x80]"]) simp
qed

end
